(* ===== verification/Prelude.thy ===== *)
theory Prelude
  imports Main "HOL-Library.Word"
begin

text \<open>
  What every component of the model shares: bytes, the three ways a C++ evaluation can end
  (a value, a thrown exception, undefined behaviour), state actions over an explicit machine
  state with their sequencing, the collections of simplification rules the component proofs use,
  and the generic list and word lemmas.
\<close>

type_synonym byte = "8 word"

section \<open>Outcomes of a C++ evaluation\<close>

text \<open>
  The exceptions the library can throw, with their \<open>what()\<close> text, and the kinds of undefined
  behaviour its code can run into. An outcome keeps the three apart: a theorem that an
  operation yields \<open>Val\<close> says that it neither throws nor is undefined.
\<close>

datatype exn =
    Runtime_error string
  | Invalid_argument string
  | Out_of_range string
  | Bad_function_call

datatype ub =
    Buffer_overflow
  | Unterminated_string
  | Empty_vector_access
  | Bad_fd_set
  | Dangling_reference
  | Indeterminate_value
  | Signed_overflow

datatype 'a outcome = Val 'a | Exn exn | Undef ub

fun bind_outcome :: "'a outcome \<Rightarrow> ('a \<Rightarrow> 'b outcome) \<Rightarrow> 'b outcome" where
  "bind_outcome (Val x) f = f x"
| "bind_outcome (Exn e) f = Exn e"
| "bind_outcome (Undef u) f = Undef u"

lemma bind_outcome_Val_iff:
  "bind_outcome r f = Val y \<longleftrightarrow> (\<exists>x. r = Val x \<and> f x = Val y)"
  by (cases r) simp_all

lemma bind_outcome_Exn_iff:
  "bind_outcome r f = Exn e \<longleftrightarrow> r = Exn e \<or> (\<exists>x. r = Val x \<and> f x = Exn e)"
  by (cases r) simp_all

lemma bind_outcome_cong [fundef_cong]:
  "r = r' \<Longrightarrow> (\<And>x. r' = Val x \<Longrightarrow> f x = g x) \<Longrightarrow> bind_outcome r f = bind_outcome r' g"
  by (cases r') simp_all

section \<open>State actions\<close>

text \<open>
  A member function that reads or writes its object or the operating system is an action: it
  takes the machine state and returns an outcome with the state it leaves. A throw or undefined
  behaviour ends the sequence with the state reached so far.
\<close>

type_synonym ('s, 'a) act = "'s \<Rightarrow> 'a outcome \<times> 's"

named_theorems act_simps \<open>evaluation of actions\<close>

definition ret :: "'a \<Rightarrow> ('s, 'a) act" where
  "ret x s = (Val x, s)"

definition throw :: "exn \<Rightarrow> ('s, 'a) act" where
  "throw e s = (Exn e, s)"

definition lift_outcome :: "'a outcome \<Rightarrow> ('s, 'a) act" where
  "lift_outcome r s = (r, s)"

definition bnd :: "('s, 'a) act \<Rightarrow> ('a \<Rightarrow> ('s, 'b) act) \<Rightarrow> ('s, 'b) act" where
  "bnd m f s = (case m s of
      (Val x, t) \<Rightarrow> f x t
    | (Exn e, t) \<Rightarrow> (Exn e, t)
    | (Undef u, t) \<Rightarrow> (Undef u, t))"

definition gets :: "('s \<Rightarrow> 'a) \<Rightarrow> ('s, 'a) act" where
  "gets f s = (Val (f s), s)"

definition modify :: "('s \<Rightarrow> 's) \<Rightarrow> ('s, unit) act" where
  "modify f s = (Val (), f s)"

text \<open>A range-based \<open>for\<close> over a vector: the body for each element, in order.\<close>

fun for_each :: "'a list \<Rightarrow> ('a \<Rightarrow> ('s, unit) act) \<Rightarrow> ('s, unit) act" where
  "for_each [] body = ret ()"
| "for_each (x # xs) body = bnd (body x) (\<lambda>_. for_each xs body)"

text \<open>
  The clean-up a compiler adds to a constructor whose body throws: the destructors of the bases
  already built run, then the exception goes on.
\<close>

definition on_throw :: "('s, 'a) act \<Rightarrow> ('s, unit) act \<Rightarrow> ('s, 'a) act" where
  "on_throw m cleanup s = (case m s of
      (Exn e, t) \<Rightarrow> (Exn e, snd (cleanup t))
    | r \<Rightarrow> r)"

lemma ret_apply [act_simps]: "ret x s = (Val x, s)"
  by (simp add: ret_def)

lemma throw_apply [act_simps]: "throw e s = (Exn e, s)"
  by (simp add: throw_def)

lemma lift_outcome_apply [act_simps]: "lift_outcome r s = (r, s)"
  by (simp add: lift_outcome_def)

lemma gets_apply [act_simps]: "gets f s = (Val (f s), s)"
  by (simp add: gets_def)

lemma modify_apply [act_simps]: "modify f s = (Val (), f s)"
  by (simp add: modify_def)

lemma bnd_Val [act_simps]: "m s = (Val x, t) \<Longrightarrow> bnd m f s = f x t"
  by (simp add: bnd_def)

lemma bnd_Exn [act_simps]: "m s = (Exn e, t) \<Longrightarrow> bnd m f s = (Exn e, t)"
  by (simp add: bnd_def)

lemma bnd_Undef [act_simps]: "m s = (Undef u, t) \<Longrightarrow> bnd m f s = (Undef u, t)"
  by (simp add: bnd_def)

lemma bnd_case:
  "bnd m f s = (case fst (m s) of
      Val x \<Rightarrow> f x (snd (m s)) | Exn e \<Rightarrow> (Exn e, snd (m s)) | Undef u \<Rightarrow> (Undef u, snd (m s)))"
  by (simp add: bnd_def split: prod.splits outcome.splits)

lemma bnd_assoc: "bnd (bnd m f) g = bnd m (\<lambda>x. bnd (f x) g)"
  by (rule ext) (simp add: bnd_def split: prod.splits outcome.splits)

lemma bnd_ret [simp]: "bnd (ret x) f = f x"
  by (rule ext) (simp add: bnd_def ret_def)

lemma for_each_append: "for_each (xs @ ys) f = bnd (for_each xs f) (\<lambda>_. for_each ys f)"
  by (induction xs) (simp_all add: bnd_assoc)

lemma bnd_cong [fundef_cong]:
  "m s = m' s \<Longrightarrow> (\<And>x t. m' s = (Val x, t) \<Longrightarrow> f x t = g x t) \<Longrightarrow> s = s' \<Longrightarrow>
    bnd m f s = bnd m' g s'"
  by (auto simp: bnd_def split: prod.splits outcome.splits)

lemma bnd_Val_iff:
  "bnd m f s = (Val y, u) \<longleftrightarrow> (\<exists>x t. m s = (Val x, t) \<and> f x t = (Val y, u))"
  by (auto simp: bnd_def split: prod.splits outcome.splits)

subsection \<open>Invariants of actions\<close>

text \<open>
  \<open>keeps I m\<close>: whatever way \<open>m\<close> ends, the state it leaves satisfies \<open>I\<close> if the state it
  started in did. The rules follow the shape of an action, so that the invariant of a member
  function reduces to its system calls and assignments.
\<close>

named_theorems keeps_intros \<open>rules for the preservation of an invariant by actions\<close>

definition keeps :: "('s \<Rightarrow> bool) \<Rightarrow> ('s, 'a) act \<Rightarrow> bool" where
  "keeps I m \<longleftrightarrow> (\<forall>s. I s \<longrightarrow> I (snd (m s)))"

lemma keepsI: "(\<And>s. I s \<Longrightarrow> I (snd (m s))) \<Longrightarrow> keeps I m"
  by (simp add: keeps_def)

lemma keepsD: "keeps I m \<Longrightarrow> I s \<Longrightarrow> I (snd (m s))"
  by (simp add: keeps_def)

lemma keeps_ret [keeps_intros]: "keeps I (ret x)"
  by (simp add: keeps_def ret_def)

lemma keeps_throw [keeps_intros]: "keeps I (throw e)"
  by (simp add: keeps_def throw_def)

lemma keeps_lift [keeps_intros]: "keeps I (lift_outcome r)"
  by (simp add: keeps_def lift_outcome_def)

lemma keeps_gets [keeps_intros]: "keeps I (gets f)"
  by (simp add: keeps_def gets_def)

lemma keeps_bnd [keeps_intros]:
  "keeps I m \<Longrightarrow> (\<And>x. keeps I (f x)) \<Longrightarrow> keeps I (bnd m f)"
  by (fastforce simp: keeps_def bnd_def split: prod.splits outcome.splits)

lemma keeps_for_each [keeps_intros]:
  "(\<And>x. keeps I (body x)) \<Longrightarrow> keeps I (for_each xs body)"
  by (induction xs) (auto intro: keeps_intros)

lemma keeps_if [keeps_intros]:
  "(b \<Longrightarrow> keeps I m) \<Longrightarrow> (\<not> b \<Longrightarrow> keeps I n) \<Longrightarrow> keeps I (if b then m else n)"
  by simp

lemma keeps_on_throw [keeps_intros]:
  "keeps I m \<Longrightarrow> keeps I c \<Longrightarrow> keeps I (on_throw m c)"
  by (fastforce simp: keeps_def on_throw_def split: prod.splits outcome.splits)

section \<open>Lists\<close>

lemma takeWhile_append_stop:
  "\<forall>x \<in> set xs. P x \<Longrightarrow> \<not> P y \<Longrightarrow> takeWhile P (xs @ y # ys) = xs"
  by (induction xs) auto

lemma takeWhile_all [simp]: "\<forall>x \<in> set xs. P x \<Longrightarrow> takeWhile P xs = xs"
  by (induction xs) auto

lemma takeWhile_sat: "x \<in> set (takeWhile P xs) \<Longrightarrow> P x"
  by (auto dest: set_takeWhileD)

lemma take_Cons_append: "length xs = n \<Longrightarrow> take n (xs @ ys) = xs"
  by simp

lemma map_fst_zip_with:
  "length ys = length xs \<Longrightarrow> map fst (map (\<lambda>(x, y). (g x, y)) (zip xs ys)) = map g xs"
  by (induction xs ys rule: list_induct2') simp_all

text \<open>\<open>memcpy\<close> into a byte array: overwrite from an offset, keeping the length.\<close>

definition put_at :: "nat \<Rightarrow> 'a list \<Rightarrow> 'a list \<Rightarrow> 'a list" where
  "put_at off bs mem = take off mem @ bs @ drop (off + length bs) mem"

lemma length_put_at [simp]:
  "off + length bs \<le> length mem \<Longrightarrow> length (put_at off bs mem) = length mem"
  by (simp add: put_at_def)

lemma put_at_read_same:
  "off + length bs \<le> length mem \<Longrightarrow> take (length bs) (drop off (put_at off bs mem)) = bs"
  by (simp add: put_at_def)

lemma put_at_read_before:
  "i + n \<le> off \<Longrightarrow> off \<le> length mem \<Longrightarrow>
    take n (drop i (put_at off bs mem)) = take n (drop i mem)"
  by (auto simp: put_at_def drop_take min_def)

lemma put_at_read_after:
  "off + length bs \<le> i \<Longrightarrow> off \<le> length mem \<Longrightarrow>
    drop i (put_at off bs mem) = drop i mem"
  by (simp add: put_at_def)

section \<open>Runs of a bounded length\<close>

text \<open>If no run is longer than a bound, some run goes on until no step is possible.\<close>

lemma maximal_run_exists:
  fixes run :: "'e list \<Rightarrow> 's \<Rightarrow> bool" and step :: "'s \<Rightarrow> 'e \<Rightarrow> 's \<Rightarrow> bool"
  assumes start: "run [] s" and bound: "\<And>es t. run es t \<Longrightarrow> length es \<le> b"
    and more: "\<And>es t e u. run es t \<Longrightarrow> step t e u \<Longrightarrow> run (es @ [e]) u"
  shows "\<exists>es t. run es t \<and> (\<forall>e u. \<not> step t e u)"
proof -
  have "\<exists>es. (\<exists>t. run es t) \<and> (\<forall>fs. (\<exists>t. run fs t) \<longrightarrow> length fs \<le> length es)"
    using start bound by (intro ex_has_greatest_nat [of _ "[]" _ "Suc b"]) (auto simp: less_Suc_eq_le)
  then obtain es t where es: "run es t" "\<And>fs u. run fs u \<Longrightarrow> length fs \<le> length es" by metis
  have "\<not> step t e u" for e u
  proof
    assume "step t e u"
    from es(2) [OF more [OF es(1) this]] show False by simp
  qed
  with es(1) show ?thesis by blast
qed

end
