(* ===== verification/Cpp_Std.thy ===== *)
theory Cpp_Std
  imports Prelude
begin

text \<open>
  The parts of the C++ standard library the code calls on strings: \<open>std::to_string\<close>,
  \<open>std::stoi\<close>, \<open>c_str()\<close> and the reading of a C string from a byte array, with the round trip
  between number and text that the address and message formats rely on.
\<close>

section \<open>Characters and bytes\<close>

definition byte_of_char :: "char \<Rightarrow> byte" where
  "byte_of_char c = of_nat (of_char c)"

definition char_of_byte :: "byte \<Rightarrow> char" where
  "char_of_byte b = char_of (unat b)"

lemma char_of_byte_of_char [simp]: "char_of_byte (byte_of_char c) = c"
proof -
  have "of_char c < (256 :: nat)" by simp
  then have "unat (byte_of_char c) = of_char c"
    by (simp add: byte_of_char_def unat_of_nat)
  then show ?thesis by (simp add: char_of_byte_def)
qed

lemma map_char_of_byte_of_char [simp]: "map char_of_byte (map byte_of_char cs) = cs"
  by (induction cs) simp_all

lemma byte_of_char_eq_iff [simp]: "byte_of_char c = byte_of_char d \<longleftrightarrow> c = d"
  by (metis char_of_byte_of_char)

lemma byte_of_char_zero_iff: "byte_of_char c = 0 \<longleftrightarrow> c = CHR 0x00"
proof -
  have "byte_of_char (CHR 0x00) = 0" by (simp add: byte_of_char_def)
  then show ?thesis by (metis byte_of_char_eq_iff)
qed

text \<open>\<open>c_str()\<close>: what a reader that stops at the first NUL sees of a string.\<close>

definition c_str :: "string \<Rightarrow> string" where
  "c_str s = takeWhile (\<lambda>c. c \<noteq> CHR 0x00) s"

lemma c_str_id: "CHR 0x00 \<notin> set s \<Longrightarrow> c_str s = s"
  unfolding c_str_def by (rule takeWhile_all) auto

text \<open>
  Reading a C string out of a byte array: up to the first NUL; without one the read runs past
  the array.
\<close>

definition read_c_string :: "byte list \<Rightarrow> string outcome" where
  "read_c_string bs =
    (if 0 \<in> set bs then Val (map char_of_byte (takeWhile (\<lambda>b. b \<noteq> 0) bs))
     else Undef Unterminated_string)"

lemma read_c_string_terminated:
  assumes "CHR 0x00 \<notin> set s"
  shows "read_c_string (map byte_of_char s @ 0 # rest) = Val s"
proof -
  have "\<forall>b \<in> set (map byte_of_char s). b \<noteq> 0"
    using assms by (auto simp: byte_of_char_zero_iff)
  then have "takeWhile (\<lambda>b. b \<noteq> 0) (map byte_of_char s @ 0 # rest) = map byte_of_char s"
    by (simp add: takeWhile_append_stop)
  then show ?thesis by (simp add: read_c_string_def del: map_map)
qed

lemma read_c_string_no_nul:
  "CHR 0x00 \<notin> set s \<Longrightarrow> read_c_string (map byte_of_char s) = Undef Unterminated_string"
  by (simp add: read_c_string_def image_iff eq_commute [of 0] byte_of_char_zero_iff)

lemma read_c_string_longer:
  assumes "CHR 0x00 \<notin> set s" and "b \<noteq> 0"
  shows "read_c_string (map byte_of_char s @ b # rest) \<noteq> Val s"
proof -
  have nz: "\<forall>b \<in> set (map byte_of_char s). b \<noteq> 0"
    using assms(1) by (auto simp: byte_of_char_zero_iff)
  then have "takeWhile (\<lambda>b. b \<noteq> 0) (map byte_of_char s @ b # rest) =
      map byte_of_char s @ b # takeWhile (\<lambda>b. b \<noteq> 0) rest"
    using assms(2) by (induction s) auto
  then have "length (map char_of_byte (takeWhile (\<lambda>b. b \<noteq> 0) (map byte_of_char s @ b # rest))) \<noteq> length s"
    by simp
  then show ?thesis unfolding read_c_string_def by (metis outcome.inject(1) outcome.distinct(3))
qed

section \<open>Numbers and text\<close>

definition is_digit :: "char \<Rightarrow> bool" where
  "is_digit c \<longleftrightarrow> 48 \<le> (of_char c :: nat) \<and> (of_char c :: nat) \<le> 57"

definition digit_char :: "nat \<Rightarrow> char" where
  "digit_char d = char_of (48 + d)"

definition digit_val :: "char \<Rightarrow> nat" where
  "digit_val c = of_char c - 48"

lemma of_char_digit_char: "d < 10 \<Longrightarrow> of_char (digit_char d) = (48 + d :: nat)"
  by (simp add: digit_char_def)

lemma is_digit_digit_char [simp]: "d < 10 \<Longrightarrow> is_digit (digit_char d)"
  by (simp add: is_digit_def of_char_digit_char)

lemma digit_val_digit_char [simp]: "d < 10 \<Longrightarrow> digit_val (digit_char d) = d"
  by (simp add: digit_val_def of_char_digit_char)

fun nat_digits :: "nat \<Rightarrow> string" where
  "nat_digits n = (if n < 10 then [digit_char n] else nat_digits (n div 10) @ [digit_char (n mod 10)])"

declare nat_digits.simps [simp del]

lemma digit_char_eqs:
  "digit_char 0 = CHR ''0''"
  "digit_char (Suc 0) = CHR ''1''"
  "digit_char 2 = CHR ''2''"
  "digit_char 3 = CHR ''3''"
  "digit_char 4 = CHR ''4''"
  "digit_char 5 = CHR ''5''"
  "digit_char 6 = CHR ''6''"
  "digit_char 7 = CHR ''7''"
  "digit_char 8 = CHR ''8''"
  "digit_char 9 = CHR ''9''"
  by code_simp+

definition to_string :: "int \<Rightarrow> string" where
  "to_string i = (if i < 0 then CHR ''-'' # nat_digits (nat (- i)) else nat_digits (nat i))"

definition digits_val :: "string \<Rightarrow> nat" where
  "digits_val ds = foldl (\<lambda>a c. 10 * a + digit_val c) 0 ds"

lemma digits_val_snoc [simp]: "digits_val (ds @ [c]) = 10 * digits_val ds + digit_val c"
  by (simp add: digits_val_def)

lemma nat_digits_nonempty [simp]: "nat_digits n \<noteq> []"
  by (subst nat_digits.simps) simp

lemma nat_digits_digits: "c \<in> set (nat_digits n) \<Longrightarrow> is_digit c"
proof (induction n arbitrary: c rule: nat_digits.induct)
  case (1 n)
  show ?case
  proof (cases "n < 10")
    case True
    with "1.prems" show ?thesis by (simp add: nat_digits.simps [of n])
  next
    case False
    with "1.prems" have "c \<in> set (nat_digits (n div 10)) \<or> c = digit_char (n mod 10)"
      by (auto simp: nat_digits.simps [of n])
    with False "1.IH" show ?thesis by auto
  qed
qed

lemma digits_val_nat_digits [simp]: "digits_val (nat_digits n) = n"
proof (induction n rule: nat_digits.induct)
  case (1 n)
  then show ?case
    by (cases "n < 10") (simp_all add: nat_digits.simps [of n] digits_val_def)
qed

lemma nat_digits_inj: "nat_digits m = nat_digits n \<longleftrightarrow> m = n"
  by (metis digits_val_nat_digits)

definition is_space :: "char \<Rightarrow> bool" where
  "is_space c \<longleftrightarrow> c = CHR '' '' \<or> (9 \<le> (of_char c :: nat) \<and> (of_char c :: nat) \<le> 13)"

definition INT_MAX :: int where
  "INT_MAX = 2147483647"

definition INT_MIN :: int where
  "INT_MIN = - 2147483648"

text \<open>
  \<open>std::stoi\<close> in base 10: leading white space, an optional sign, the longest run of digits; no
  digits throws \<open>std::invalid_argument\<close>, a value outside \<open>int\<close> throws \<open>std::out_of_range\<close>.
\<close>

definition stoi :: "string \<Rightarrow> int outcome" where
  "stoi s =
    (let t = dropWhile is_space s;
         neg = (t \<noteq> [] \<and> hd t = CHR ''-'');
         u = (if t \<noteq> [] \<and> (hd t = CHR ''-'' \<or> hd t = CHR ''+'') then tl t else t);
         ds = takeWhile is_digit u;
         v = (if neg then - int (digits_val ds) else int (digits_val ds))
     in if ds = [] then Exn (Invalid_argument ''stoi'')
        else if v < INT_MIN \<or> INT_MAX < v then Exn (Out_of_range ''stoi'')
        else Val v)"

lemma is_digit_not_space: "is_digit c \<Longrightarrow> \<not> is_space c"
  by (auto simp: is_digit_def is_space_def)

lemma is_digit_not_sign: "is_digit c \<Longrightarrow> c \<noteq> CHR ''-'' \<and> c \<noteq> CHR ''+''"
  by (auto simp: is_digit_def)

lemma is_digit_not_nul: "is_digit c \<Longrightarrow> c \<noteq> CHR 0x00"
  by (auto simp: is_digit_def)

text \<open>A string that starts with a digit is read up to its first other character.\<close>

lemma stoi_digits:
  assumes "ds \<noteq> []" and "\<forall>c \<in> set ds. is_digit c" and "rest = [] \<or> \<not> is_digit (hd rest)"
  shows "stoi (ds @ rest) =
    (if int (digits_val ds) \<le> INT_MAX then Val (int (digits_val ds))
     else Exn (Out_of_range ''stoi''))"
proof -
  obtain c cs where ds: "ds = c # cs" using assms(1) by (cases ds) auto
  have c: "is_digit c" using ds assms(2) by simp
  have drop: "dropWhile is_space (ds @ rest) = ds @ rest"
    using ds is_digit_not_space [OF c] by simp
  have tw: "takeWhile is_digit (ds @ rest) = ds"
    using assms(2,3) by (cases rest) (simp_all add: takeWhile_append_stop)
  have hd: "hd (ds @ rest) \<noteq> CHR ''-''" "hd (ds @ rest) \<noteq> CHR ''+''"
    using ds is_digit_not_sign [OF c] by simp_all
  show ?thesis
    using drop tw hd assms(1) by (simp add: stoi_def Let_def INT_MIN_def)
qed

lemma stoi_nat_digits:
  "int n \<le> INT_MAX \<Longrightarrow> stoi (nat_digits n) = Val (int n)"
  using stoi_digits [of "nat_digits n" "[]"] nat_digits_digits by auto

lemma stoi_no_digit:
  assumes "s = [] \<or> (\<not> is_digit (hd s) \<and> \<not> is_space (hd s) \<and> hd s \<noteq> CHR ''-'' \<and> hd s \<noteq> CHR ''+'')"
  shows "stoi s = Exn (Invalid_argument ''stoi'')"
  using assms by (cases s) (auto simp: stoi_def Let_def)

lemma to_string_nonneg: "0 \<le> i \<Longrightarrow> to_string i = nat_digits (nat i)"
  by (simp add: to_string_def)

end
