(* ===== verification/Regex.thy ===== *)
theory Regex
  imports Cpp_Std
begin

text \<open>
  The part of \<open>std::regex\<close> (ECMAScript grammar) that the library's two patterns use: bracket
  expressions, read from the text of the pattern, literals, alternation, \<open>+\<close> on a bracket
  expression and capture groups; the matcher as the list of all matches in the order a
  backtracking matcher tries them; \<open>regex_search\<close>, which takes the first match at the leftmost
  position. Then the two patterns of \<open>sockaddr.hpp\<close> and \<open>socket.hpp\<close>, and the scanners they
  are equivalent to.
\<close>

section \<open>Bracket expressions\<close>

datatype class_tok = TChar char | TDash | TDigit

fun class_toks :: "string \<Rightarrow> class_tok list" where
  "class_toks [] = []"
| "class_toks [c] = [if c = CHR ''-'' then TDash else TChar c]"
| "class_toks (c # d # cs) =
    (if c = CHR 0x5C then (if d = CHR ''d'' then TDigit else TChar d) # class_toks cs
     else (if c = CHR ''-'' then TDash else TChar c) # class_toks (d # cs))"

datatype class_item = Single char | Span char char | Digits

fun tok_char :: "class_tok \<Rightarrow> char option" where
  "tok_char (TChar c) = Some c"
| "tok_char TDash = Some (CHR ''-'')"
| "tok_char TDigit = None"

text \<open>
  \<open>ClassAtom - ClassAtom\<close> is a range, whatever its two ends are; every other atom stands for
  itself. A range with a class escape at one end is an invalid pattern.
\<close>

fun class_items :: "class_tok list \<Rightarrow> class_item list option" where
  "class_items [] = Some []"
| "class_items (a # TDash # b # ts) =
    (case (tok_char a, tok_char b) of
       (Some x, Some y) \<Rightarrow> map_option ((#) (Span x y)) (class_items ts)
     | _ \<Rightarrow> None)"
| "class_items (a # ts) =
    map_option ((#) (case a of TChar c \<Rightarrow> Single c | TDash \<Rightarrow> Single (CHR ''-'') | TDigit \<Rightarrow> Digits))
      (class_items ts)"

definition parse_class :: "string \<Rightarrow> class_item list option" where
  "parse_class text = class_items (class_toks text)"

fun item_matches :: "class_item \<Rightarrow> char \<Rightarrow> bool" where
  "item_matches (Single d) c \<longleftrightarrow> c = d"
| "item_matches (Span lo hi) c \<longleftrightarrow> (of_char lo :: nat) \<le> of_char c \<and> (of_char c :: nat) \<le> of_char hi"
| "item_matches Digits c \<longleftrightarrow> is_digit c"

definition in_class :: "class_item list \<Rightarrow> char \<Rightarrow> bool" where
  "in_class items c \<longleftrightarrow> (\<exists>i \<in> set items. item_matches i c)"

section \<open>Regular expressions\<close>

datatype regex =
    Lit string
  | Plus "class_item list"
  | Alt regex regex
  | Conc regex regex
  | Group nat regex

type_synonym captures = "(nat \<times> string) list"

text \<open>
  All matches of a prefix of the input, the preferred one first, each with its captures and the
  input left: the first alternative before the second, longer runs of \<open>+\<close> before shorter ones.
\<close>

fun matches :: "regex \<Rightarrow> string \<Rightarrow> (captures \<times> string) list" where
  "matches (Lit w) s = (if take (length w) s = w then [([], drop (length w) s)] else [])"
| "matches (Plus cl) s =
    map (\<lambda>k. ([], drop k s)) (rev [1..<Suc (length (takeWhile (in_class cl) s))])"
| "matches (Alt r1 r2) s = matches r1 s @ matches r2 s"
| "matches (Conc r1 r2) s =
    concat (map (\<lambda>(c1, s1). map (\<lambda>(c2, s2). (c1 @ c2, s2)) (matches r2 s1)) (matches r1 s))"
| "matches (Group n r) s =
    map (\<lambda>(c, t). ((n, take (length s - length t) s) # c, t)) (matches r s)"

text \<open>
  \<open>regex_search\<close> on a pattern with two groups fills a \<open>std::smatch\<close>: empty when nothing
  matches, otherwise the whole match and the two groups.
\<close>

type_synonym smatch = "string list"

fun smatch_of :: "string \<Rightarrow> captures \<times> string \<Rightarrow> smatch" where
  "smatch_of s (caps, t) =
    [take (length s - length t) s,
     (case map_of caps 1 of Some w \<Rightarrow> w | None \<Rightarrow> []),
     (case map_of caps 2 of Some w \<Rightarrow> w | None \<Rightarrow> [])]"

fun regex_search :: "regex \<Rightarrow> string \<Rightarrow> smatch" where
  "regex_search r [] = (case matches r [] of [] \<Rightarrow> [] | m # _ \<Rightarrow> smatch_of [] m)"
| "regex_search r (c # s) =
    (case matches r (c # s) of [] \<Rightarrow> regex_search r s | m # _ \<Rightarrow> smatch_of (c # s) m)"

lemma regex_search_size: "length (regex_search r s) = 0 \<or> length (regex_search r s) = 3"
  by (induction s) (auto split: list.splits)

section \<open>The two patterns\<close>

text \<open>
  The bracket expressions as the sources write them (with \<open>CHR 0x5C\<close>, the backslash that the
  C++ literal spells twice).
\<close>

definition proto_class_text :: string where
  "proto_class_text =
    ''a-z,A-Z,'' @ [CHR 0x5C] @ ''d,'' @ [CHR 0x5C] @ ''/,.,*,_,-,:''"

definition ip_class_text :: string where
  "ip_class_text = ''a-z,A-Z,'' @ [CHR 0x5C] @ ''d,'' @ [CHR 0x5C] @ ''/,.,*''"

definition port_class_text :: string where
  "port_class_text = ''*,'' @ [CHR 0x5C] @ ''d''"

definition proto_class :: "class_item list" where
  "proto_class =
    [Span (CHR ''a'') (CHR ''z''), Single (CHR '',''), Span (CHR ''A'') (CHR ''Z''),
     Single (CHR '',''), Digits, Single (CHR '',''), Single (CHR ''/''), Single (CHR '',''),
     Single (CHR ''.''), Single (CHR '',''), Single (CHR ''*''), Single (CHR '',''),
     Single (CHR ''_''), Span (CHR '','') (CHR '',''), Single (CHR '':'')]"

definition ip_class :: "class_item list" where
  "ip_class =
    [Span (CHR ''a'') (CHR ''z''), Single (CHR '',''), Span (CHR ''A'') (CHR ''Z''),
     Single (CHR '',''), Digits, Single (CHR '',''), Single (CHR ''/''), Single (CHR '',''),
     Single (CHR ''.''), Single (CHR '',''), Single (CHR ''*'')]"

definition port_class :: "class_item list" where
  "port_class = [Single (CHR ''*''), Single (CHR '',''), Digits]"

definition proto :: regex where
  "proto = Conc (Group 1 (Alt (Lit ''udp'') (Alt (Lit ''tcp'') (Lit ''unix''))))
             (Conc (Lit ''://'') (Group 2 (Plus proto_class)))"

definition ipport :: regex where
  "ipport = Conc (Group 1 (Plus ip_class)) (Conc (Lit '':'') (Group 2 (Plus port_class)))"

lemma parse_proto_class: "parse_class proto_class_text = Some proto_class"
  by code_simp

lemma parse_ip_class: "parse_class ip_class_text = Some ip_class"
  by code_simp

lemma parse_port_class: "parse_class port_class_text = Some port_class"
  by code_simp

section \<open>Reference scanners\<close>

text \<open>
  What the first pattern finds at one position: a scheme, \<open>://\<close> and the longest run of
  characters of the class, which is not empty.
\<close>

definition scheme_at :: "string \<Rightarrow> (string \<times> string) option" where
  "scheme_at s =
    (if take 6 s = ''udp://'' then Some (''udp'', drop 6 s)
     else if take 6 s = ''tcp://'' then Some (''tcp'', drop 6 s)
     else if take 7 s = ''unix://'' then Some (''unix'', drop 7 s)
     else None)"

definition proto_at :: "string \<Rightarrow> (string \<times> string) option" where
  "proto_at s = (case scheme_at s of
      None \<Rightarrow> None
    | Some (sch, rest) \<Rightarrow>
        (let body = takeWhile (in_class proto_class) rest
         in if body = [] then None else Some (sch, body)))"

definition ipport_at :: "string \<Rightarrow> (string \<times> string) option" where
  "ipport_at s =
    (let ip = takeWhile (in_class ip_class) s; t = dropWhile (in_class ip_class) s;
         port = takeWhile (in_class port_class) (tl t)
     in if ip = [] \<or> t = [] \<or> hd t \<noteq> CHR '':'' \<or> port = [] then None else Some (ip, port))"

text \<open>The leftmost position at which a scanner finds something.\<close>

fun leftmost :: "(string \<Rightarrow> 'a option) \<Rightarrow> string \<Rightarrow> 'a option" where
  "leftmost f [] = f []"
| "leftmost f (c # s) = (case f (c # s) of None \<Rightarrow> leftmost f s | Some x \<Rightarrow> Some x)"

lemma leftmost_hit: "f s = Some x \<Longrightarrow> leftmost f s = Some x"
  by (cases s) simp_all

lemma leftmost_skip:
  "(\<And>q r. p = q @ r \<Longrightarrow> r \<noteq> [] \<Longrightarrow> f (r @ s) = None) \<Longrightarrow> leftmost f (p @ s) = leftmost f s"
proof (induction p)
  case Nil
  then show ?case by simp
next
  case (Cons c p)
  have "f (c # p @ s) = None" using Cons.prems [of "[]" "c # p"] by simp
  moreover have "leftmost f (p @ s) = leftmost f s"
  proof (rule Cons.IH)
    fix q r assume "p = q @ r" and "r \<noteq> []"
    then show "f (r @ s) = None" using Cons.prems [of "c # q" r] by simp
  qed
  ultimately show ?case by simp
qed

lemma leftmost_None: "leftmost f s = None \<longleftrightarrow> (\<forall>i \<le> length s. f (drop i s) = None)"
proof (induction s)
  case Nil
  then show ?case by simp
next
  case (Cons c s)
  have "(\<forall>i \<le> length (c # s). f (drop i (c # s)) = None) \<longleftrightarrow>
      f (c # s) = None \<and> (\<forall>i \<le> length s. f (drop i s) = None)"
    (is "?l \<longleftrightarrow> ?r")
  proof
    assume l: ?l
    have "f (drop i s) = None" if "i \<le> length s" for i
      using l [rule_format, of "Suc i"] that by simp
    with l [rule_format, of 0] show ?r by simp
  next
    assume ?r
    then show ?l by (auto simp: drop_Cons split: nat.split)
  qed
  with Cons show ?case by (simp split: option.split)
qed

section \<open>The matcher on the two patterns\<close>

lemma matches_Plus_unfold:
  "matches (Plus cl) s =
    (let n = length (takeWhile (in_class cl) s)
     in if n = 0 then [] else ([], drop n s) # map (\<lambda>k. ([], drop k s)) (rev [1..<n]))"
  by (cases "takeWhile (in_class cl) s") (simp_all add: Let_def)

lemma matches_Group_Plus:
  "matches (Group i (Plus cl)) s =
    (let body = takeWhile (in_class cl) s
     in if body = [] then []
        else ([(i, body)], dropWhile (in_class cl) s) #
          map (\<lambda>k. ([(i, take k s)], drop k s)) (rev [1..<length body]))"
proof (cases "takeWhile (in_class cl) s = []")
  case True
  then show ?thesis by (simp add: matches_Plus_unfold Let_def del: matches.simps(2))
next
  case False
  let ?n = "length (takeWhile (in_class cl) s)"
  have n: "?n \<le> length s" by (rule length_takeWhile_le)
  have tk: "take ?n s = takeWhile (in_class cl) s"
    by (rule takeWhile_eq_take [symmetric])
  have dr: "drop ?n s = dropWhile (in_class cl) s"
    by (rule dropWhile_eq_drop [symmetric])
  have len: "length s - length (dropWhile (in_class cl) s) = ?n"
    by (metis add_diff_cancel_right' length_append takeWhile_dropWhile_id)
  have "map (\<lambda>k. ([(i, take (length s - (length s - k)) s)], drop k s)) (rev [1..<?n]) =
      map (\<lambda>k. ([(i, take k s)], drop k s)) (rev [1..<?n])"
    using n by (intro map_cong) (auto simp: diff_diff_cancel)
  with False n tk dr len show ?thesis
    by (simp add: matches_Plus_unfold Let_def comp_def diff_diff_cancel del: matches.simps(2))
qed

lemma matches_Lit_Conc:
  "matches (Conc (Lit w) r) s = (if take (length w) s = w then matches r (drop (length w) s) else [])"
  by simp

declare matches.simps(2,5) [simp del]

text \<open>First pattern: at most one scheme fits, then the longest run comes first.\<close>

lemma take_eq_prefix: "take (length w) s = w \<longleftrightarrow> (\<exists>r. s = w @ r)"
  by (metis append_eq_conv_conj append_take_drop_id)

lemma matches_scheme_udp:
  "matches (Group 1 (Alt (Lit ''udp'') (Alt (Lit ''tcp'') (Lit ''unix'')))) (''udp'' @ r) =
    [([(1, ''udp'')], r)]"
  by (simp add: matches.simps)

lemma matches_scheme_tcp:
  "matches (Group 1 (Alt (Lit ''udp'') (Alt (Lit ''tcp'') (Lit ''unix'')))) (''tcp'' @ r) =
    [([(1, ''tcp'')], r)]"
  by (simp add: matches.simps)

lemma matches_scheme_unix:
  "matches (Group 1 (Alt (Lit ''udp'') (Alt (Lit ''tcp'') (Lit ''unix'')))) (''unix'' @ r) =
    [([(1, ''unix'')], r)]"
  by (simp add: matches.simps)

lemma matches_scheme_none:
  "\<nexists>r. s = ''udp'' @ r \<Longrightarrow> \<nexists>r. s = ''tcp'' @ r \<Longrightarrow> \<nexists>r. s = ''unix'' @ r \<Longrightarrow>
    matches (Group 1 (Alt (Lit ''udp'') (Alt (Lit ''tcp'') (Lit ''unix'')))) s = []"
  by (simp only: matches.simps take_eq_prefix) simp

lemma scheme_at_simps [simp]:
  "scheme_at (''udp'' @ r) = (if take 3 r = ''://'' then Some (''udp'', drop 3 r) else None)"
  "scheme_at (''tcp'' @ r) = (if take 3 r = ''://'' then Some (''tcp'', drop 3 r) else None)"
  "scheme_at (''unix'' @ r) = (if take 3 r = ''://'' then Some (''unix'', drop 3 r) else None)"
  by (simp_all add: scheme_at_def)

lemma scheme_at_Some:
  "scheme_at s = Some (sch, r) \<Longrightarrow>
    s = sch @ ''://'' @ r \<and> (sch = ''udp'' \<or> sch = ''tcp'' \<or> sch = ''unix'')"
  using append_take_drop_id [of 6 s, symmetric] append_take_drop_id [of 7 s, symmetric]
  by (auto simp only: scheme_at_def append_Cons append_Nil option.inject prod.inject option.distinct
      split: if_splits)

lemma proto_at_Some:
  assumes "proto_at s = Some (sch, body)"
  shows "(sch = ''udp'' \<or> sch = ''tcp'' \<or> sch = ''unix'') \<and> body \<noteq> [] \<and>
    (\<forall>c \<in> set body. in_class proto_class c) \<and> (\<exists>t. s = sch @ ''://'' @ body @ t)"
proof -
  obtain r where r: "scheme_at s = Some (sch, r)" and b: "body = takeWhile (in_class proto_class) r"
    and "body \<noteq> []"
    using assms by (auto simp: proto_at_def Let_def split: option.splits if_splits)
  have "r = body @ dropWhile (in_class proto_class) r" by (simp add: b)
  then obtain t where "r = body @ t" by blast
  moreover have "\<forall>c \<in> set body. in_class proto_class c" by (auto simp: b dest: takeWhile_sat)
  ultimately show ?thesis using scheme_at_Some [OF r] \<open>body \<noteq> []\<close> by blast
qed

lemma matches_proto_scheme:
  assumes "matches (Group 1 (Alt (Lit ''udp'') (Alt (Lit ''tcp'') (Lit ''unix'')))) s = [([(1, sch)], r)]"
    and "scheme_at s = (if take 3 r = ''://'' then Some (sch, drop 3 r) else None)"
  shows "proto_at s = None \<Longrightarrow> matches proto s = []"
    and "proto_at s = Some (sch', body) \<Longrightarrow> sch' = sch \<and>
      (\<exists>t more. s = sch @ ''://'' @ body @ t \<and> matches proto s = ([(1, sch), (2, body)], t) # more)"
proof -
  have m: "matches proto s =
      map (\<lambda>(c, t). ((1, sch) # c, t))
        (if take 3 r = ''://'' then matches (Group 2 (Plus proto_class)) (drop 3 r) else [])"
    using assms(1) by (simp add: proto_def eval_nat_numeral)
  show "proto_at s = None \<Longrightarrow> matches proto s = []"
    using assms(2) by (auto simp: proto_at_def Let_def m matches_Group_Plus split: if_splits)
  assume p: "proto_at s = Some (sch', body)"
  then have "take 3 r = ''://''" and [simp]: "sch' = sch"
    and b: "body = takeWhile (in_class proto_class) (drop 3 r)" and "body \<noteq> []"
    using assms(2) by (auto simp: proto_at_def Let_def split: if_splits)
  with assms(2) have "scheme_at s = Some (sch, drop 3 r)" by simp
  then have "s = sch @ ''://'' @ drop 3 r" using scheme_at_Some by blast
  also have "drop 3 r = body @ dropWhile (in_class proto_class) (drop 3 r)" by (simp add: b)
  finally have "s = sch @ ''://'' @ body @ dropWhile (in_class proto_class) (drop 3 r)" .
  moreover have "\<exists>more. matches proto s =
      ([(1, sch), (2, body)], dropWhile (in_class proto_class) (drop 3 r)) # more"
    using \<open>take 3 r = ''://''\<close> \<open>body \<noteq> []\<close> b by (simp add: m matches_Group_Plus Let_def)
  ultimately show "sch' = sch \<and>
      (\<exists>t more. s = sch @ ''://'' @ body @ t \<and> matches proto s = ([(1, sch), (2, body)], t) # more)"
    using \<open>sch' = sch\<close> by blast
qed

lemma matches_proto_no_scheme:
  assumes "\<nexists>r. s = ''udp'' @ r" "\<nexists>r. s = ''tcp'' @ r" "\<nexists>r. s = ''unix'' @ r"
  shows "proto_at s = None \<and> matches proto s = []"
proof -
  have "scheme_at s = None"
    using assms scheme_at_Some by (cases "scheme_at s") fastforce+
  then show ?thesis
    using matches_scheme_none [OF assms] by (simp add: proto_at_def proto_def)
qed

lemma matches_proto:
  "(proto_at s = None \<longrightarrow> matches proto s = []) \<and>
   (\<forall>sch body. proto_at s = Some (sch, body) \<longrightarrow>
     (\<exists>t more. s = sch @ ''://'' @ body @ t \<and> matches proto s = ([(1, sch), (2, body)], t) # more))"
proof -
  consider r where "s = ''udp'' @ r" | r where "s = ''tcp'' @ r" | r where "s = ''unix'' @ r"
    | "\<nexists>r. s = ''udp'' @ r" "\<nexists>r. s = ''tcp'' @ r" "\<nexists>r. s = ''unix'' @ r"
    by blast
  then show ?thesis
  proof cases
    case 1
    then show ?thesis
      using matches_proto_scheme [of s "''udp''" r] matches_scheme_udp [of r] scheme_at_simps(1) [of r]
      by blast
  next
    case 2
    then show ?thesis
      using matches_proto_scheme [of s "''tcp''" r] matches_scheme_tcp [of r] scheme_at_simps(2) [of r]
      by blast
  next
    case 3
    then show ?thesis
      using matches_proto_scheme [of s "''unix''" r] matches_scheme_unix [of r] scheme_at_simps(3) [of r]
      by blast
  next
    case 4
    then show ?thesis using matches_proto_no_scheme by simp
  qed
qed

text \<open>
  Second pattern: \<open>:\<close> is not in the class of the first group, so only its longest run can be
  followed by it.
\<close>

lemma colon_not_in_ip_class [simp]: "\<not> in_class ip_class (CHR '':'')"
  by code_simp

lemma matches_ipport_prefix:
  assumes "0 < k" "k < length (takeWhile (in_class ip_class) s)"
  shows "matches (Conc (Lit '':'') r) (drop k s) = []"
proof -
  let ?w = "takeWhile (in_class ip_class) s"
  have "k < length s" using assms(2) length_takeWhile_le [of "in_class ip_class" s] by simp
  then have hd: "drop k s = s ! k # drop (Suc k) s" by (simp add: Cons_nth_drop_Suc)
  have "s ! k = ?w ! k" using assms(2) by (simp add: takeWhile_nth)
  then have "in_class ip_class (s ! k)"
    using assms(2) by (metis nth_mem takeWhile_sat)
  then have "s ! k \<noteq> CHR '':''" by auto
  then show ?thesis by (simp add: hd)
qed

lemma matches_ipport:
  "(ipport_at s = None \<longrightarrow> matches ipport s = []) \<and>
   (\<forall>ip port. ipport_at s = Some (ip, port) \<longrightarrow>
     (\<exists>t more. s = ip @ '':'' @ port @ t \<and> matches ipport s = ([(1, ip), (2, port)], t) # more))"
proof -
  let ?w = "takeWhile (in_class ip_class) s" and ?d = "dropWhile (in_class ip_class) s"
  let ?rest = "Conc (Lit '':'') (Group 2 (Plus port_class))"
  have empty: "concat (map (\<lambda>k. map (\<lambda>(c, t). ((1, take k s) # c, t)) (matches ?rest (drop k s)))
      (rev [1..<length ?w])) = []"
    by (auto simp del: matches.simps simp: matches_ipport_prefix)
  have m: "matches ipport s =
      (if ?w = [] then [] else map (\<lambda>(c, t). ((1, ?w) # c, t)) (matches ?rest ?d))"
    using empty by (auto simp: ipport_def matches_Group_Plus Let_def comp_def matches.simps(4)
        simp del: matches.simps(1))
  have s: "s = ?w @ ?d" by simp
  show ?thesis
  proof (intro conjI impI allI)
    assume n: "ipport_at s = None"
    have "?w = [] \<or> matches ?rest ?d = []"
    proof (cases ?d)
      case Nil
      have "matches ?rest [] = []" by simp
      then show ?thesis by (simp only: Nil simp_thms)
    next
      case (Cons c u)
      with n show ?thesis by (auto simp: ipport_at_def Let_def matches_Group_Plus split: if_splits)
    qed
    then show "matches ipport s = []" by (auto simp: m simp del: matches.simps)
  next
    fix ip port assume p: "ipport_at s = Some (ip, port)"
    then have ip: "ip = ?w" "?w \<noteq> []" and d: "?d = CHR '':'' # tl ?d"
      and port: "port = takeWhile (in_class port_class) (tl ?d)" "port \<noteq> []"
      by (cases ?d; auto simp: ipport_at_def Let_def split: if_splits)+
    let ?t = "dropWhile (in_class port_class) (tl ?d)"
    have "s = ip @ '':'' @ port @ ?t"
      using s d by (simp add: ip(1) port(1))
    moreover have "\<exists>more. matches ?rest ?d = ([(2, port)], ?t) # more"
      by (subst d) (use port in \<open>simp add: matches_Group_Plus Let_def\<close>)
    ultimately show "\<exists>t more. s = ip @ '':'' @ port @ t \<and>
        matches ipport s = ([(1, ip), (2, port)], t) # more"
      using ip by (auto simp: m simp del: matches.simps)
  qed
qed

section \<open>The search equals the scanners\<close>

text \<open>
  If at every position the first match of a pattern is what a scanner finds there, the search is
  the leftmost hit of the scanner.
\<close>

lemma regex_search_leftmost:
  assumes at: "\<And>s. (f s = None \<longrightarrow> matches r s = []) \<and>
      (\<forall>a b. f s = Some (a, b) \<longrightarrow>
        (\<exists>t more. s = a @ sep @ b @ t \<and> matches r s = ([(1, a), (2, b)], t) # more))"
  shows "regex_search r s =
    (case leftmost f s of None \<Rightarrow> [] | Some (a, b) \<Rightarrow> [a @ sep @ b, a, b])"
proof (induction s)
  case Nil
  show ?case using at [of "[]"] by (cases "f []") auto
next
  case (Cons c s)
  show ?case
  proof (cases "f (c # s)")
    case None
    with at [of "c # s"] Cons.IH show ?thesis by simp
  next
    case (Some p)
    obtain a b where p: "p = (a, b)" by (cases p)
    with Some at [of "c # s"] obtain t more where
      s: "c # s = a @ sep @ b @ t" and m: "matches r (c # s) = ([(1, a), (2, b)], t) # more"
      by blast
    have "take (length (c # s) - length t) (c # s) = a @ sep @ b" by (simp only: s) simp
    with Some p m show ?thesis by simp
  qed
qed

lemma search_proto:
  "regex_search proto s =
    (case leftmost proto_at s of None \<Rightarrow> [] | Some (sch, body) \<Rightarrow> [sch @ ''://'' @ body, sch, body])"
  by (rule regex_search_leftmost [where f = proto_at]) (rule matches_proto)

lemma search_ipport:
  "regex_search ipport s =
    (case leftmost ipport_at s of None \<Rightarrow> [] | Some (ip, port) \<Rightarrow> [ip @ '':'' @ port, ip, port])"
  by (rule regex_search_leftmost [where f = ipport_at]) (rule matches_ipport)

section \<open>Properties\<close>

lemma leftmost_None_iff: "(\<forall>i. f (drop i s) = None) \<longleftrightarrow> leftmost f s = None"
proof
  assume "leftmost f s = None"
  then have "\<forall>i \<le> length s. f (drop i s) = None" by (simp add: leftmost_None)
  then show "\<forall>i. f (drop i s) = None" by (metis drop_all nle_le order_refl)
qed (simp add: leftmost_None)

text \<open>
  Searching for the first pattern finds what a reference scanner finds: at the leftmost position
  that has one, a scheme, \<open>://\<close> and the longest run of characters of the class, which is what the
  match and its groups are.
\<close>
lemma proto_search_scanner:
  "regex_search proto s =
    (case leftmost proto_at s of None \<Rightarrow> [] | Some (sch, body) \<Rightarrow> [sch @ ''://'' @ body, sch, body]) \<and>
   (regex_search proto s = [] \<longleftrightarrow> (\<forall>i. proto_at (drop i s) = None))"
  by (simp_all add: search_proto leftmost_None_iff split: option.splits)

text \<open>
  Searching for the second pattern, with its two greedy repetitions and their backtracking,
  finds what a scanner without backtracking finds: at the leftmost position that has one, the whole
  run of host characters, a colon and the whole run of port characters.
\<close>
lemma ipport_search_scanner:
  "regex_search ipport s =
    (case leftmost ipport_at s of None \<Rightarrow> [] | Some (ip, port) \<Rightarrow> [ip @ '':'' @ port, ip, port]) \<and>
   (regex_search ipport s = [] \<longleftrightarrow> (\<forall>i. ipport_at (drop i s) = None))"
  by (simp_all add: search_ipport leftmost_None_iff split: option.splits)

text \<open>
  The hyphen of the class text \<open>,_,-,:\<close> makes a range from comma to comma, so the class matches
  the comma but not the hyphen: the body of an address ends before its first hyphen.
\<close>
lemma proto_class_no_hyphen:
  assumes "proto_at s = Some (sch, body)"
  shows "parse_class proto_class_text = Some proto_class \<and>
    \<not> in_class proto_class (CHR ''-'') \<and> in_class proto_class (CHR '','') \<and>
    CHR ''-'' \<notin> set body"
proof (intro conjI)
  have h: "\<not> in_class proto_class (CHR ''-'')" by code_simp
  then show "\<not> in_class proto_class (CHR ''-'')" .
  show "in_class proto_class (CHR '','')" by code_simp
  show "parse_class proto_class_text = Some proto_class" by (rule parse_proto_class)
  show "CHR ''-'' \<notin> set body" using proto_at_Some [OF assms] h by blast
qed

lemma proto_class_no_hyphen_witness:
  "\<exists>body. proto_at ''unix:///tmp/a-b'' = Some (''unix'', body) \<and> CHR ''-'' \<notin> set body"
proof -
  have "proto_at ''unix:///tmp/a-b'' = Some (''unix'', ''/tmp/a'')" by code_simp
  from this proto_class_no_hyphen [OF this] show ?thesis by blast
qed

end
