(* ===== verification/Message.thy ===== *)
theory Message
  imports Cpp_Std
begin

text \<open>
  Component \<open>message.hpp\<close>: \<open>message_t\<close>, the templates \<open>pack\<close> and \<open>unpack\<close> over the object
  representation of a trivially copyable type, the packed struct \<open>subscription_t\<close> and
  \<open>msg2string\<close>.
\<close>

section \<open>Messages\<close>

type_synonym message_t = "byte list"

definition SUBSCRIBE :: byte where
  "SUBSCRIBE = 0xAA"

definition UNSUBSCRIBE :: byte where
  "UNSUBSCRIBE = 0x55"

text \<open>
  \<open>pack\<close>: a vector of \<open>sizeof(d)\<close> zero bytes, overwritten with the object representation of
  \<open>d\<close>. The type parameter is given by \<open>rep\<close>, which maps a value to its bytes.
\<close>

definition pack :: "('t \<Rightarrow> byte list) \<Rightarrow> 't \<Rightarrow> message_t" where
  "pack rep d = put_at 0 (rep d) (replicate (length (rep d)) 0)"

text \<open>
  \<open>unpack\<close> copies \<open>m.size()\<close> bytes over an uninitialised object of \<open>sizeof(T)\<close> bytes. More
  bytes than the object has is a buffer overflow; fewer leave the tail of the object
  indeterminate, so the object has a value only when every byte was written.
\<close>

datatype 't object = Determinate 't | Indeterminate "byte option list"

definition unpack :: "nat \<Rightarrow> (byte list \<Rightarrow> 't) \<Rightarrow> message_t \<Rightarrow> 't object outcome" where
  "unpack sizeof_T val_of m =
    (if sizeof_T < length m then Undef Buffer_overflow
     else let d = put_at 0 (map Some m) (replicate sizeof_T None)
          in Val (if None \<in> set d then Indeterminate d else Determinate (val_of (map the d))))"

lemma pack_eq_rep [simp]: "pack rep d = rep d"
  by (simp add: pack_def put_at_def)

lemma unpack_short:
  "length m < n \<Longrightarrow>
    unpack n val_of m = Val (Indeterminate (map Some m @ replicate (n - length m) None))"
  by (auto simp: unpack_def put_at_def)

lemma unpack_exact: "length m = n \<Longrightarrow> unpack n val_of m = Val (Determinate (val_of m))"
  by (auto simp: unpack_def put_at_def comp_def)

lemma unpack_long: "n < length m \<Longrightarrow> unpack n val_of m = Undef Buffer_overflow"
  by (simp add: unpack_def)

section \<open>The interface of the template parameter\<close>

text \<open>
  What \<open>pack\<close> and \<open>unpack\<close> rely on in \<open>T\<close>: every value has a representation of \<open>sizeof(T)\<close>
  bytes from which it can be read back.
\<close>

locale trivially_copyable =
  fixes sizeof_T :: nat
    and rep :: "'t \<Rightarrow> byte list"
    and val_of :: "byte list \<Rightarrow> 't"
  assumes rep_length: "length (rep d) = sizeof_T"
    and val_of_rep: "val_of (rep d) = d"
begin

lemma pack_length: "length (pack rep d) = sizeof_T"
  by (simp add: rep_length)

lemma unpack_pack: "unpack sizeof_T val_of (pack rep d) = Val (Determinate d)"
  by (simp add: unpack_exact rep_length val_of_rep)

lemma pack_inj: "pack rep d = pack rep e \<longleftrightarrow> d = e"
  by (metis pack_eq_rep val_of_rep)

lemma unpack_padded:
  "length m \<le> sizeof_T \<Longrightarrow>
    unpack sizeof_T val_of (m @ replicate (sizeof_T - length m) 0) =
      Val (Determinate (val_of (m @ replicate (sizeof_T - length m) 0)))"
  by (simp add: unpack_exact)

end

section \<open>The packed structs\<close>

record subscription_t =
  topic :: byte
  status :: byte

definition subscription_rep :: "subscription_t \<Rightarrow> byte list" where
  "subscription_rep d = [topic d, status d]"

definition subscription_val :: "byte list \<Rightarrow> subscription_t" where
  "subscription_val bs = \<lparr>topic = bs ! 0, status = bs ! 1\<rparr>"

interpretation sub: trivially_copyable 2 subscription_rep subscription_val
  by unfold_locales (simp_all add: subscription_rep_def subscription_val_def)

text \<open>
  Little-endian 16 and 32 bit integers, the representation of the integer fields of messages
  and of socket addresses.
\<close>

definition le16 :: "16 word \<Rightarrow> byte list" where
  "le16 w = [ucast w, ucast (drop_bit 8 w)]"

definition of_le16 :: "byte list \<Rightarrow> 16 word" where
  "of_le16 bs = ucast (bs ! 0) + push_bit 8 (ucast (bs ! 1))"

definition le32 :: "32 word \<Rightarrow> byte list" where
  "le32 w = [ucast w, ucast (drop_bit 8 w), ucast (drop_bit 16 w), ucast (drop_bit 24 w)]"

definition of_le32 :: "byte list \<Rightarrow> 32 word" where
  "of_le32 bs = ucast (bs ! 0) + push_bit 8 (ucast (bs ! 1)) +
     push_bit 16 (ucast (bs ! 2)) + push_bit 24 (ucast (bs ! 3))"

lemma length_le16 [simp]: "length (le16 w) = 2"
  by (simp add: le16_def)

lemma length_le32 [simp]: "length (le32 w) = 4"
  by (simp add: le32_def)

unbundle bit_operations_syntax

lemma of_le16_le16 [simp]: "of_le16 (le16 w) = w"
proof -
  have "ucast (ucast w :: byte) + push_bit 8 (ucast (ucast (drop_bit 8 w) :: byte)) =
      (ucast (ucast w :: byte) OR push_bit 8 (ucast (ucast (drop_bit 8 w) :: byte)) :: 16 word)"
    by (rule disjunctive_add) (auto simp: bit_simps)
  also have "\<dots> = w"
    by (rule bit_word_eqI) (auto simp: bit_simps)
  finally show ?thesis by (simp add: le16_def of_le16_def)
qed

lemma of_le32_le32 [simp]: "of_le32 (le32 w) = w"
proof -
  let ?b = "\<lambda>k. push_bit k (ucast (ucast (drop_bit k w) :: byte)) :: 32 word"
  have "of_le32 (le32 w) = ?b 0 + ?b 8 + ?b 16 + ?b 24"
    by (simp add: le32_def of_le32_def)
  also have "?b 0 + ?b 8 = ?b 0 OR ?b 8"
    by (rule disjunctive_add) (auto simp: bit_simps)
  also have "(?b 0 OR ?b 8) + ?b 16 = (?b 0 OR ?b 8) OR ?b 16"
    by (rule disjunctive_add) (auto simp: bit_simps)
  also have "((?b 0 OR ?b 8) OR ?b 16) + ?b 24 = ((?b 0 OR ?b 8) OR ?b 16) OR ?b 24"
    by (rule disjunctive_add) (auto simp: bit_simps)
  also have "\<dots> = w"
  proof (rule bit_word_eqI)
    fix n assume "n < LENGTH(32)"
    then show "bit (((?b 0 OR ?b 8) OR ?b 16) OR ?b 24) n = bit w n"
      by (cases "n < 24"; cases "n < 16") (auto simp: bit_simps)
  qed
  finally show ?thesis .
qed

interpretation int32: trivially_copyable 4 le32 of_le32
  by unfold_locales simp_all

text \<open>In the other direction: bytes that are read as an integer are written back the same.\<close>

lemma le16_word:
  fixes a b :: byte
  defines "w \<equiv> ucast a OR push_bit 8 (ucast b) :: 16 word"
  shows "ucast w = a" and "ucast (drop_bit 8 w) = b" and "ucast a + push_bit 8 (ucast b) = w"
proof -
  show "ucast w = a" "ucast (drop_bit 8 w) = b"
    unfolding w_def by (rule bit_word_eqI, auto simp: bit_simps dest: bit_imp_le_length)+
  show "ucast a + push_bit 8 (ucast b) = w"
    unfolding w_def by (rule disjunctive_add) (auto simp: bit_simps dest: bit_imp_le_length)
qed

lemma le32_word:
  fixes a b c d :: byte
  defines "w \<equiv> ucast a OR push_bit 8 (ucast b) OR push_bit 16 (ucast c) OR push_bit 24 (ucast d) :: 32 word"
  shows "ucast w = a" and "ucast (drop_bit 8 w) = b" and "ucast (drop_bit 16 w) = c"
    and "ucast (drop_bit 24 w) = d"
    and "ucast a + push_bit 8 (ucast b) + push_bit 16 (ucast c) + push_bit 24 (ucast d) = w"
proof -
  show "ucast w = a" "ucast (drop_bit 8 w) = b" "ucast (drop_bit 16 w) = c" "ucast (drop_bit 24 w) = d"
    unfolding w_def by (rule bit_word_eqI, auto simp: bit_simps dest: bit_imp_le_length)+
  have "ucast a + push_bit 8 (ucast b) = (ucast a OR push_bit 8 (ucast b) :: 32 word)"
    by (rule disjunctive_add) (auto simp: bit_simps dest: bit_imp_le_length)
  moreover have "\<dots> + push_bit 16 (ucast c) = ucast a OR push_bit 8 (ucast b) OR push_bit 16 (ucast c)"
    by (subst disjunctive_add) (auto simp: bit_simps or.assoc dest: bit_imp_le_length)
  moreover have "\<dots> + push_bit 24 (ucast d) = w"
    unfolding w_def
    by (subst disjunctive_add) (auto simp: bit_simps or.assoc dest: bit_imp_le_length)
  ultimately show "ucast a + push_bit 8 (ucast b) + push_bit 16 (ucast c) + push_bit 24 (ucast d) = w"
    by simp
qed

lemma le16_of_le16: "length bs = 2 \<Longrightarrow> le16 (of_le16 bs) = bs"
proof -
  assume "length bs = 2"
  then obtain a b where bs: "bs = [a, b]" by (auto simp: length_Suc_conv eval_nat_numeral)
  show ?thesis
    by (simp only: bs le16_def of_le16_def nth_Cons_0 nth_Cons_Suc One_nat_def le16_word)
qed

lemma le32_of_le32: "length bs = 4 \<Longrightarrow> le32 (of_le32 bs) = bs"
proof -
  assume "length bs = 4"
  then obtain a b c d where bs: "bs = [a, b, c, d]" by (auto simp: length_Suc_conv eval_nat_numeral)
  have "of_le32 bs = ucast a OR push_bit 8 (ucast b) OR push_bit 16 (ucast c) OR push_bit 24 (ucast d)"
    by (simp add: bs of_le32_def le32_word(5))
  then show ?thesis by (simp only: le32_def le32_word bs)
qed

section \<open>Printing a message\<close>

definition msg2string :: "message_t \<Rightarrow> string" where
  "msg2string msg =
    (if length msg = 0 then []
     else foldl (\<lambda>s m. (s @ to_string (uint m)) @ '','') ''['' msg @ '']'')"

lemma foldl_append_concat: "foldl (\<lambda>s m. s @ f m @ g) a xs = a @ concat (map (\<lambda>m. f m @ g) xs)"
  by (induction xs arbitrary: a) simp_all

lemma msg2string_concat:
  "msg \<noteq> [] \<Longrightarrow>
    msg2string msg = ''['' @ concat (map (\<lambda>m. nat_digits (unat m) @ '','') msg) @ '']''"
  by (simp add: msg2string_def foldl_append_concat to_string_def)

text \<open>A reader of the printed form, to state that printing loses nothing.\<close>

function read_items :: "string \<Rightarrow> message_t" where
  "read_items s =
    (if s = [] \<or> \<not> is_digit (hd s) then []
     else of_nat (digits_val (takeWhile is_digit s)) # read_items (tl (dropWhile is_digit s)))"
  by pat_completeness auto
termination
proof (relation "measure length")
  fix s :: string
  assume "\<not> (s = [] \<or> \<not> is_digit (hd s))"
  then have "length (dropWhile is_digit s) < length s"
    by (cases s) (auto intro: le_less_trans [OF length_dropWhile_le])
  then show "(tl (dropWhile is_digit s), s) \<in> measure length" by simp
qed simp

declare read_items.simps [simp del]

definition read_msg :: "string \<Rightarrow> message_t" where
  "read_msg s = read_items (tl s)"

lemma read_items_item:
  "read_items (nat_digits (unat m) @ CHR '','' # s) = m # read_items s"
proof -
  have d: "\<forall>c \<in> set (nat_digits (unat m)). is_digit c" by (auto dest: nat_digits_digits)
  have comma: "\<not> is_digit (CHR '','')" by (simp add: is_digit_def)
  have hd: "is_digit (hd (nat_digits (unat m) @ CHR '','' # s))"
    using d by (cases "nat_digits (unat m)") auto
  have "takeWhile is_digit (nat_digits (unat m) @ CHR '','' # s) = nat_digits (unat m)"
    using d comma by (simp add: takeWhile_append_stop)
  moreover have "dropWhile is_digit (nat_digits (unat m) @ CHR '','' # s) = CHR '','' # s"
    using d comma by (simp add: dropWhile_append)
  ultimately show ?thesis
    using hd by (subst read_items.simps) simp
qed

lemma read_items_concat:
  "read_items (concat (map (\<lambda>m. nat_digits (unat m) @ '','') msg) @ '']'') = msg"
proof (induction msg)
  case Nil
  then show ?case by (subst read_items.simps) (simp add: is_digit_def)
next
  case (Cons m msg)
  then show ?case by (simp add: read_items_item)
qed

lemma read_msg_msg2string: "read_msg (msg2string msg) = msg"
proof (cases "msg = []")
  case True
  then show ?thesis by (simp add: read_msg_def msg2string_def read_items.simps)
next
  case False
  then show ?thesis by (simp add: read_msg_def msg2string_concat read_items_concat [simplified])
qed

section \<open>Properties\<close>

text \<open>
  \<open>unpack<T>(pack(d))\<close> is \<open>d\<close>, for the packed struct of the library and for the integers, and
  two values have the same message only if they are equal.
\<close>
lemma unpack_pack_values:
  "unpack 2 subscription_val (pack subscription_rep d) = Val (Determinate d) \<and>
   unpack 4 of_le32 (pack le32 w) = Val (Determinate w) \<and>
   (pack subscription_rep d = pack subscription_rep e \<longleftrightarrow> d = e) \<and>
   (pack le32 w = pack le32 v \<longleftrightarrow> w = v)"
  by (intro conjI sub.unpack_pack int32.unpack_pack sub.pack_inj int32.pack_inj)

text \<open>
  \<open>unpack\<close> copies as many bytes as the message has, whatever the size of \<open>T\<close>: it yields a
  fully written object only for a message of exactly \<open>sizeof(T)\<close> bytes. A shorter one leaves the
  tail of the object indeterminate, a longer one writes past it.
\<close>
lemma unpack_sizes:
  "(unpack n val_of m = Undef Buffer_overflow \<longleftrightarrow> n < length m) \<and>
   ((\<exists>d. unpack n val_of m = Val (Determinate d)) \<longleftrightarrow> length m = n) \<and>
   ((\<exists>d. unpack n val_of m = Val (Indeterminate d) \<and> take (length m) d = map Some m \<and>
      drop (length m) d = replicate (n - length m) None) \<longleftrightarrow> length m < n)"
  by (cases "length m" n rule: linorder_cases)
    (simp_all add: unpack_short unpack_long unpack_exact)

text \<open>
  \<open>msg2string\<close> loses nothing: the printed form determines the message. The empty message
  prints as nothing, any other as its bytes in decimal, each followed by a comma, in brackets.
\<close>
lemma msg2string_faithful:
  "read_msg (msg2string msg) = msg \<and>
   (msg2string msg = msg2string msg' \<longleftrightarrow> msg = msg') \<and>
   msg2string (b # bs) = ''['' @ concat (map (\<lambda>m. to_string (uint m) @ '','') (b # bs)) @ '']''"
proof (intro conjI)
  show "read_msg (msg2string msg) = msg" by (rule read_msg_msg2string)
  show "msg2string msg = msg2string msg' \<longleftrightarrow> msg = msg'" by (metis read_msg_msg2string)
  show "msg2string (b # bs) =
      ''['' @ concat (map (\<lambda>m. to_string (uint m) @ '','') (b # bs)) @ '']''"
    by (simp add: msg2string_concat to_string_def)
qed

end
