(* ===== verification/Sock_Addr.thy ===== *)
theory Sock_Addr
  imports Regex Message
begin

text \<open>
  Component \<open>sockaddr.hpp\<close>: the socket address structures and their union, byte for byte; the
  parsing of an address string (\<open>filter\<close>), the two accessors, and the printing of addresses.
  Integers are stored little-endian, as on the platforms the library is built for; the ports are
  swapped by \<open>htons\<close>, so their bytes lie in network order.
\<close>

section \<open>What the code takes from the C library and the compiler\<close>

text \<open>
  Parameters of the model. \<open>inet_addr\<close>, \<open>inet_ntop\<close> and \<open>inet_ntoa\<close> convert IPv4 addresses (in
  network byte order) from and to text; \<open>strerror\<close> is the text of an error number. \<open>uninit\<close> is the content
  of uninitialised stack bytes. \<open>stale\<close> is what a read through a reference to the dead local of
  \<open>filter\<close> gives: \<open>None\<close> when the compiler made use of the undefined behaviour, otherwise the
  bytes found in the dead frame.
\<close>

record env =
  inet_addr :: "string \<Rightarrow> 32 word"
  inet_ntop :: "32 word \<Rightarrow> string"
  inet_ntoa :: "32 word \<Rightarrow> string"
  strerror :: "int \<Rightarrow> string"
  uninit :: "nat \<Rightarrow> byte"
  stale :: "byte list \<Rightarrow> byte list option"

text \<open>
  The dead frame still holds what \<open>filter\<close> left in it when the caller copies the address: what
  the callers, and the repository's tests, rely on.
\<close>

definition frame_intact :: "'x env_scheme \<Rightarrow> bool" where
  "frame_intact P \<longleftrightarrow> stale P = Some"

definition AF_UNIX :: "16 word" where "AF_UNIX = 1"

definition AF_INET :: "16 word" where "AF_INET = 2"

definition AF_ERROR :: "32 word" where "AF_ERROR = 100"

definition INADDR_ANY :: "32 word" where "INADDR_ANY = 0"

definition INADDR_BROADCAST :: "32 word" where "INADDR_BROADCAST = 0xFFFFFFFF"

lemmas af_defs = AF_UNIX_def AF_INET_def AF_ERROR_def

section \<open>Byte order\<close>

definition htons :: "16 word \<Rightarrow> 16 word" where
  "htons w = push_bit 8 w OR drop_bit 8 w"

definition ntohs :: "16 word \<Rightarrow> 16 word" where
  "ntohs w = push_bit 8 w OR drop_bit 8 w"

lemma ntohs_htons [simp]: "ntohs (htons w) = w"
  by (rule bit_word_eqI) (auto simp: ntohs_def htons_def bit_simps)

lemma le16_htons: "le16 (htons w) = rev (le16 w)"
proof -
  have "ucast (htons w) = (ucast (drop_bit 8 w) :: byte)"
    by (rule bit_word_eqI) (auto simp: htons_def bit_simps)
  moreover have "ucast (drop_bit 8 (htons w)) = (ucast w :: byte)"
    by (rule bit_word_eqI) (auto simp: htons_def bit_simps)
  ultimately show ?thesis by (simp add: le16_def)
qed

section \<open>The address structures and their union\<close>

record inetaddr_t =
  sin_family :: "16 word"
  sin_port :: "16 word"
  s_addr :: "32 word"
  sin_zero :: "byte list"

record unixaddr_t =
  sun_family :: "16 word"
  sun_path :: "byte list"

definition sizeof_inet :: nat where "sizeof_inet = 16"

definition sizeof_unix :: nat where "sizeof_unix = 110"

definition sizeof_union :: nat where "sizeof_union = 112"

definition sizeof_sun_path :: nat where "sizeof_sun_path = 108"

lemmas sizeof_defs = sizeof_inet_def sizeof_unix_def sizeof_union_def sizeof_sun_path_def

definition inet_bytes :: "inetaddr_t \<Rightarrow> byte list" where
  "inet_bytes a = le16 (sin_family a) @ le16 (sin_port a) @ le32 (s_addr a) @ sin_zero a"

definition unix_bytes :: "unixaddr_t \<Rightarrow> byte list" where
  "unix_bytes a = le16 (sun_family a) @ sun_path a"

text \<open>
  \<open>union SockAddr\<close> is the memory both members share; a member is read by decoding the bytes at
  its fields' offsets, whichever member was written last.
\<close>

type_synonym SockAddr = "byte list"

definition inet_view :: "SockAddr \<Rightarrow> inetaddr_t" where
  "inet_view u = \<lparr>sin_family = of_le16 (take 2 u), sin_port = of_le16 (take 2 (drop 2 u)),
     s_addr = of_le32 (take 4 (drop 4 u)), sin_zero = take 8 (drop 8 u)\<rparr>"

definition unix_view :: "SockAddr \<Rightarrow> unixaddr_t" where
  "unix_view u = \<lparr>sun_family = of_le16 (take 2 u), sun_path = take 108 (drop 2 u)\<rparr>"

text \<open>Assignments to the fields of the members.\<close>

definition set_family :: "16 word \<Rightarrow> SockAddr \<Rightarrow> SockAddr" where
  "set_family f u = put_at 0 (le16 f) u"

definition set_port :: "16 word \<Rightarrow> SockAddr \<Rightarrow> SockAddr" where
  "set_port p u = put_at 2 (le16 p) u"

definition set_addr :: "32 word \<Rightarrow> SockAddr \<Rightarrow> SockAddr" where
  "set_addr a u = put_at 4 (le32 a) u"

text \<open>
  \<open>strncpy\<close> with a length: the source up to its NUL, cut or padded with NULs to exactly \<open>n\<close>
  bytes; beyond the destination it overflows.
\<close>

definition strncpy_bytes :: "string \<Rightarrow> nat \<Rightarrow> byte list" where
  "strncpy_bytes src n = take n (map byte_of_char (c_str src) @ replicate n 0)"

definition set_path :: "string \<Rightarrow> nat \<Rightarrow> SockAddr \<Rightarrow> SockAddr outcome" where
  "set_path src n u =
    (if sizeof_sun_path < n then Undef Buffer_overflow
     else Val (put_at 2 (strncpy_bytes src n) u))"

text \<open>
  \<open>SockAddr ans{0}\<close> initialises the first member, the 16 bytes of \<open>inet\<close>; the bytes beyond it
  are not written.
\<close>

definition SockAddr_zero :: "'x env_scheme \<Rightarrow> SockAddr" where
  "SockAddr_zero P = replicate sizeof_inet 0 @ map (uninit P) [sizeof_inet..<sizeof_union]"

section \<open>Parsing\<close>

text \<open>
  \<open>filter\<close>: the value of its local \<open>ans\<close> when it returns, or what stops it. \<open>uint16_t port =
  stoi(..)\<close> keeps the low 16 bits.
\<close>

definition filter_addr :: "'x env_scheme \<Rightarrow> string \<Rightarrow> SockAddr outcome" where
  "filter_addr P address =
    (let m = regex_search proto address;
         ans = set_family (ucast AF_ERROR) (SockAddr_zero P)
     in if length m \<noteq> 3 then Val ans
        else if m ! 1 = ''unix'' then
          (let path = m ! 2; ans = set_family AF_UNIX ans
           in set_path path (length path) ans)
        else if m ! 1 = ''tcp'' \<or> m ! 1 = ''udp'' then
          (let ss = m ! 2; mm = regex_search ipport ss
           in if length mm \<noteq> 3 then Val ans
              else
                (let ip = (if mm ! 1 = ''*'' then INADDR_ANY
                           else if mm ! 1 = ''bc'' then INADDR_BROADCAST
                           else inet_addr P (c_str (mm ! 1)))
                 in bind_outcome (if mm ! 2 = ''*'' then Val 0 else stoi (mm ! 2))
                      (\<lambda>n. let port = word_of_int n :: 16 word
                           in Val (set_port (htons port)
                                (set_addr ip (set_family AF_INET ans))))))
        else Val ans)"

text \<open>
  \<open>filter\<close> returns a reference to \<open>ans\<close>, whose lifetime has ended by the time a caller copies
  from it; the copy reads the dead frame.
\<close>

definition read_filter :: "'x env_scheme \<Rightarrow> string \<Rightarrow> SockAddr outcome" where
  "read_filter P address =
    bind_outcome (filter_addr P address)
      (\<lambda>ans. case stale P ans of None \<Rightarrow> Undef Dangling_reference | Some u \<Rightarrow> Val u)"

definition inet_sockaddr :: "'x env_scheme \<Rightarrow> string \<Rightarrow> inetaddr_t outcome" where
  "inet_sockaddr P path = bind_outcome (read_filter P path) (\<lambda>u. Val (inet_view u))"

definition unix_sockaddr :: "'x env_scheme \<Rightarrow> string \<Rightarrow> unixaddr_t outcome" where
  "unix_sockaddr P path = bind_outcome (read_filter P path) (\<lambda>u. Val (unix_view u))"

section \<open>Printing\<close>

text \<open>
  \<open>::inet_ntop\<close> into a zeroed buffer of \<open>n\<close> bytes: an address text that does not fit leaves the
  buffer as it was. \<open>strlen(ip)\<close> is the length of the text.
\<close>

definition ntop_buf :: "'x env_scheme \<Rightarrow> 32 word \<Rightarrow> nat \<Rightarrow> string" where
  "ntop_buf P a n = (let t = c_str (inet_ntop P a) in if length t < n then t else [])"

definition inet2string :: "'x env_scheme \<Rightarrow> inetaddr_t \<Rightarrow> string" where
  "inet2string P addr =
    (if sin_family addr = AF_INET
     then ntop_buf P (s_addr addr) 32 @ '':'' @ to_string (uint (ntohs (sin_port addr)))
     else [])"

definition unix2string :: "unixaddr_t \<Rightarrow> string outcome" where
  "unix2string addr =
    (if sun_family addr = AF_UNIX then read_c_string (sun_path addr) else Val [])"

text \<open>The stream operators: for the union, and for each of its members.\<close>

definition show_SockAddr :: "'x env_scheme \<Rightarrow> SockAddr \<Rightarrow> string outcome" where
  "show_SockAddr P s =
    (let type = sin_family (inet_view s)
     in if type = AF_INET then Val (inet2string P (inet_view s))
        else if type = AF_UNIX then read_c_string (sun_path (unix_view s))
        else if ucast type = AF_ERROR then Val ''ERROR''
        else Val ''UNKNOWN'')"

definition show_unixaddr :: "unixaddr_t \<Rightarrow> string outcome" where
  "show_unixaddr s = bind_outcome (unix2string s) (\<lambda>p. Val (''path: '' @ p))"

definition show_inetaddr :: "'x env_scheme \<Rightarrow> inetaddr_t \<Rightarrow> string" where
  "show_inetaddr P s = inet2string P s"

section \<open>The union's memory\<close>

lemma length_sets [simp]:
  "length u = 112 \<Longrightarrow> length (set_family f u) = 112"
  "length u = 112 \<Longrightarrow> length (set_port p u) = 112"
  "length u = 112 \<Longrightarrow> length (set_addr a u) = 112"
  by (simp_all add: set_family_def set_port_def set_addr_def)

lemma length_SockAddr_zero [simp]: "length (SockAddr_zero P) = 112"
  by (simp add: SockAddr_zero_def sizeof_defs)

lemma family_set_family:
  "length u = 112 \<Longrightarrow> take 2 (set_family f u) = le16 f"
  by (simp add: set_family_def put_at_def)

lemma drop_set_family: "2 \<le> i \<Longrightarrow> length u = 112 \<Longrightarrow> drop i (set_family f u) = drop i u"
  by (simp add: set_family_def put_at_read_after)

lemma inet_view_sets:
  assumes "length u = 112"
  shows "inet_view (set_family f u) = (inet_view u)\<lparr>sin_family := f\<rparr>"
    and "inet_view (set_port p u) = (inet_view u)\<lparr>sin_port := p\<rparr>"
    and "inet_view (set_addr a u) = (inet_view u)\<lparr>s_addr := a\<rparr>"
  using assms
  by (simp_all add: inet_view_def set_family_def set_port_def set_addr_def put_at_def
      drop_take min_def eval_nat_numeral)

lemma sin_zero_SockAddr_zero: "sin_zero (inet_view (SockAddr_zero P)) = replicate 8 0"
  by (simp add: inet_view_def SockAddr_zero_def sizeof_defs)

lemma unix_view_family: "length u = 112 \<Longrightarrow> sun_family (unix_view (set_family f u)) = f"
  by (simp add: unix_view_def family_set_family)

lemma same_family: "sun_family (unix_view u) = sin_family (inet_view u)"
  by (simp add: unix_view_def inet_view_def)

text \<open>\<open>inet\<close> decodes what \<open>inet_bytes\<close> writes, so a structure survives the way to the kernel.\<close>

lemma inet_view_bytes:
  "length (sin_zero a) = 8 \<Longrightarrow> inet_view (inet_bytes a @ rest) = a"
  by (simp add: inet_view_def inet_bytes_def)

text \<open>The bytes of an address the kernel wrote go back to the kernel unchanged.\<close>

lemma inet_bytes_view:
  assumes "length u = 16"
  shows "inet_bytes (inet_view u) = u"
proof -
  have "take 2 u @ take 2 (drop 2 u) @ take 4 (drop 4 u) @ take 8 (drop 8 u) =
      take 2 u @ take 2 (drop 2 u) @ drop 4 u"
    using assms append_take_drop_id [of 4 "drop 4 u"] by simp
  also have "\<dots> = u"
    using append_take_drop_id [of 2 u] append_take_drop_id [of 2 "drop 2 u"] by simp
  finally show ?thesis
    using assms by (simp add: inet_bytes_def inet_view_def le16_of_le16 le32_of_le32)
qed

lemma unix_bytes_view: "length u = 110 \<Longrightarrow> unix_bytes (unix_view u) = u"
  using append_take_drop_id [of 2 u] by (simp add: unix_bytes_def unix_view_def le16_of_le16)

lemma unix_view_bytes:
  "length (sun_path a) = 108 \<Longrightarrow> unix_view (unix_bytes a @ rest) = a"
  by (simp add: unix_view_def unix_bytes_def)

section \<open>Addresses that match the patterns\<close>

lemma leftmost_proto_at:
  assumes "sch \<in> {''udp'', ''tcp'', ''unix''}" and "body \<noteq> []"
    and "\<forall>c \<in> set body. in_class proto_class c"
    and "t = [] \<or> \<not> in_class proto_class (hd t)"
  shows "leftmost proto_at (sch @ ''://'' @ body @ t) = Some (sch, body)"
proof -
  have tw: "takeWhile (in_class proto_class) (body @ t) = body"
    using assms(3,4) by (cases t) (simp_all add: takeWhile_append_stop)
  have "scheme_at (sch @ ''://'' @ body @ t) = Some (sch, body @ t)"
    using assms(1) by (auto simp: scheme_at_def)
  with tw assms(2) have "proto_at (sch @ ''://'' @ body @ t) = Some (sch, body)"
    by (simp add: proto_at_def Let_def del: takeWhile_append)
  then show ?thesis by (rule leftmost_hit)
qed

lemma digit_in_classes:
  "is_digit c \<Longrightarrow> in_class proto_class c" "is_digit c \<Longrightarrow> in_class port_class c"
  by (simp_all add: in_class_def proto_class_def port_class_def)

lemma colon_in_proto_class: "in_class proto_class (CHR '':'')"
  by code_simp

lemma ip_class_proto_class: "in_class ip_class c \<Longrightarrow> in_class proto_class c"
  by (auto simp: in_class_def proto_class_def ip_class_def)

lemma leftmost_ipport_at:
  assumes "ip \<noteq> []" and "\<forall>c \<in> set ip. in_class ip_class c"
    and "port \<noteq> []" and "\<forall>c \<in> set port. in_class port_class c"
  shows "leftmost ipport_at (ip @ '':'' @ port) = Some (ip, port)"
proof -
  have "takeWhile (in_class ip_class) (ip @ '':'' @ port) = ip"
    using assms(2) by (simp add: takeWhile_append_stop)
  moreover have "dropWhile (in_class ip_class) (ip @ '':'' @ port) = '':'' @ port"
    using assms(2) by (simp add: dropWhile_append)
  ultimately have "ipport_at (ip @ '':'' @ port) = Some (ip, port)"
    using assms(1,3,4) by (simp add: ipport_at_def Let_def)
  then show ?thesis by (rule leftmost_hit)
qed

section \<open>What filter computes\<close>

lemma filter_no_match:
  "leftmost proto_at address = None \<Longrightarrow>
    filter_addr P address = Val (set_family (ucast AF_ERROR) (SockAddr_zero P))"
  by (simp add: filter_addr_def search_proto Let_def)

lemma filter_unix:
  "leftmost proto_at address = Some (''unix'', path) \<Longrightarrow>
    filter_addr P address =
      set_path path (length path)
        (set_family AF_UNIX (set_family (ucast AF_ERROR) (SockAddr_zero P)))"
  by (simp add: filter_addr_def search_proto Let_def)

lemma filter_inet:
  assumes "leftmost proto_at address = Some (sch, ss)" and "sch = ''udp'' \<or> sch = ''tcp''"
    and "leftmost ipport_at ss = Some (ip, port)"
  shows "filter_addr P address =
    bind_outcome (if port = ''*'' then Val 0 else stoi port)
      (\<lambda>n. Val (set_port (htons (word_of_int n))
         (set_addr (if ip = ''*'' then INADDR_ANY else if ip = ''bc'' then INADDR_BROADCAST
                    else inet_addr P (c_str ip))
           (set_family AF_INET (set_family (ucast AF_ERROR) (SockAddr_zero P))))))"
  using assms by (auto simp: filter_addr_def search_proto search_ipport Let_def)

lemma filter_inet_no_port:
  assumes "leftmost proto_at address = Some (sch, ss)" and "sch = ''udp'' \<or> sch = ''tcp''"
    and "leftmost ipport_at ss = None"
  shows "filter_addr P address = Val (set_family (ucast AF_ERROR) (SockAddr_zero P))"
  using assms by (auto simp: filter_addr_def search_proto search_ipport Let_def)

definition inet_of :: "32 word \<Rightarrow> 16 word \<Rightarrow> inetaddr_t" where
  "inet_of ip port =
    \<lparr>sin_family = AF_INET, sin_port = htons port, s_addr = ip, sin_zero = replicate 8 0\<rparr>"

lemma inet_view_filter:
  "inet_view (set_port (htons p) (set_addr a (set_family AF_INET (set_family f (SockAddr_zero P)))))
    = inet_of a p"
  by (simp add: inet_view_sets inet_of_def sin_zero_SockAddr_zero)

lemma ip_class_not_nul: "in_class ip_class c \<Longrightarrow> c \<noteq> CHR 0x00"
  by (auto simp: in_class_def ip_class_def is_digit_def)

lemma proto_class_not_nul: "in_class proto_class c \<Longrightarrow> c \<noteq> CHR 0x00"
  by (auto simp: in_class_def proto_class_def is_digit_def)

text \<open>The value the host part of an address stands for.\<close>

definition host_addr :: "'x env_scheme \<Rightarrow> string \<Rightarrow> 32 word" where
  "host_addr P ip =
    (if ip = ''*'' then INADDR_ANY else if ip = ''bc'' then INADDR_BROADCAST else inet_addr P ip)"

definition ip_text :: "string \<Rightarrow> bool" where
  "ip_text ip \<longleftrightarrow> ip \<noteq> [] \<and> (\<forall>c \<in> set ip. in_class ip_class c)"

lemma nat_digits_not_star: "nat_digits n \<noteq> ''*''"
proof
  assume "nat_digits n = ''*''"
  then have "is_digit (CHR ''*'')" using nat_digits_digits [of "CHR ''*''" n] by simp
  then show False by (simp add: is_digit_def)
qed

lemma inet_matches:
  assumes "sch = ''udp'' \<or> sch = ''tcp''" and "ip_text ip"
    and "port \<noteq> []" and "\<forall>c \<in> set port. in_class port_class c"
  shows "leftmost proto_at (sch @ ''://'' @ ip @ '':'' @ port) = Some (sch, ip @ '':'' @ port)"
proof -
  have port: "\<forall>c \<in> set port. in_class proto_class c"
    using assms(4) by (auto simp: in_class_def port_class_def proto_class_def)
  have "\<forall>c \<in> set (ip @ '':'' @ port). in_class proto_class c"
    using port assms(2) by (auto simp: colon_in_proto_class ip_class_proto_class ip_text_def)
  then show ?thesis
    using assms(1) leftmost_proto_at [of sch "ip @ '':'' @ port" "[]"] by auto
qed

lemma filter_host_port:
  assumes "sch = ''udp'' \<or> sch = ''tcp''" and "ip_text ip"
    and "port \<noteq> []" and "\<forall>c \<in> set port. in_class port_class c"
  shows "filter_addr P (sch @ ''://'' @ ip @ '':'' @ port) =
    bind_outcome (if port = ''*'' then Val 0 else stoi port)
      (\<lambda>n. Val (set_port (htons (word_of_int n)) (set_addr (host_addr P ip)
           (set_family AF_INET (set_family (ucast AF_ERROR) (SockAddr_zero P))))))"
proof -
  have c: "c_str ip = ip"
    using assms(2) by (auto simp: ip_text_def dest: ip_class_not_nul intro: c_str_id)
  have "leftmost ipport_at (ip @ '':'' @ port) = Some (ip, port)"
    using assms(2-4) by (intro leftmost_ipport_at) (auto simp: ip_text_def)
  note filter_inet [OF inet_matches [OF assms] assms(1) this, of P]
  then show ?thesis by (simp only: c host_addr_def)
qed

lemma filter_host_number:
  assumes "sch = ''udp'' \<or> sch = ''tcp''" and "ip_text ip"
  shows "filter_addr P (sch @ ''://'' @ ip @ '':'' @ nat_digits n) =
    (if int n \<le> INT_MAX
     then Val (set_port (htons (of_nat n)) (set_addr (host_addr P ip)
           (set_family AF_INET (set_family (ucast AF_ERROR) (SockAddr_zero P)))))
     else Exn (Out_of_range ''stoi''))"
proof -
  have d: "\<forall>c \<in> set (nat_digits n). is_digit c" by (auto dest: nat_digits_digits)
  have "\<forall>c \<in> set (nat_digits n). in_class port_class c"
    using d by (simp add: digit_in_classes)
  moreover have "stoi (nat_digits n) =
      (if int n \<le> INT_MAX then Val (int n) else Exn (Out_of_range ''stoi''))"
    using stoi_digits [OF nat_digits_nonempty d, of "[]"] by simp
  ultimately show ?thesis
    using filter_host_port [OF assms nat_digits_nonempty, of n P]
    by (simp add: nat_digits_not_star)
qed

lemma read_filter_intact: "frame_intact P \<Longrightarrow> read_filter P a = filter_addr P a"
  by (cases "filter_addr P a") (simp_all add: read_filter_def frame_intact_def)

lemma inet_sockaddr_host_port:
  assumes "frame_intact P" and "sch = ''udp'' \<or> sch = ''tcp''" and "ip_text ip" and "int n \<le> INT_MAX"
  shows "inet_sockaddr P (sch @ ''://'' @ ip @ '':'' @ nat_digits n) =
    Val (inet_of (host_addr P ip) (of_nat n))"
  using assms(4)
  by (simp only: inet_sockaddr_def read_filter_intact [OF assms(1)]
      filter_host_number [OF assms(2,3)] if_True bind_outcome.simps inet_view_filter)

lemma inet_sockaddr_any_port:
  assumes "frame_intact P" and "sch = ''udp'' \<or> sch = ''tcp''" and "ip_text ip"
  shows "inet_sockaddr P (sch @ ''://'' @ ip @ '':*'') = Val (inet_of (host_addr P ip) 0)"
proof -
  have "\<forall>c \<in> set ''*''. in_class port_class c" by (simp add: in_class_def port_class_def)
  then have "filter_addr P (sch @ ''://'' @ ip @ '':'' @ ''*'') =
      Val (set_port (htons 0) (set_addr (host_addr P ip)
           (set_family AF_INET (set_family (ucast AF_ERROR) (SockAddr_zero P)))))"
    using filter_host_port [OF assms(2,3), of "''*''" P] by simp
  then show ?thesis
    by (simp add: inet_sockaddr_def read_filter_intact [OF assms(1)] inet_view_filter)
qed

section \<open>Unix paths\<close>

definition unix_text :: "string \<Rightarrow> bool" where
  "unix_text path \<longleftrightarrow> path \<noteq> [] \<and> (\<forall>c \<in> set path. in_class proto_class c)"

lemma unix_text_not_nul: "unix_text path \<Longrightarrow> CHR 0x00 \<notin> set path"
  by (auto simp: unix_text_def dest: proto_class_not_nul)

lemma strncpy_path:
  "CHR 0x00 \<notin> set path \<Longrightarrow> strncpy_bytes path (length path) = map byte_of_char path"
  by (simp add: strncpy_bytes_def c_str_id)

lemma filter_unix_path:
  assumes "unix_text path"
  shows "filter_addr P (''unix://'' @ path) =
    (if length path \<le> 108
     then Val (put_at 2 (map byte_of_char path)
       (set_family AF_UNIX (set_family (ucast AF_ERROR) (SockAddr_zero P))))
     else Undef Buffer_overflow)"
proof -
  have "leftmost proto_at (''unix'' @ ''://'' @ path @ []) = Some (''unix'', path)"
    using assms by (intro leftmost_proto_at) (auto simp: unix_text_def)
  then have "filter_addr P (''unix://'' @ path) = set_path path (length path)
      (set_family AF_UNIX (set_family (ucast AF_ERROR) (SockAddr_zero P)))"
    by (intro filter_unix) simp
  then show ?thesis
    using strncpy_path [OF unix_text_not_nul [OF assms]] by (simp add: set_path_def sizeof_defs)
qed

text \<open>The bytes of the path array behind a path: those of \<open>inet\<close> are zero, the rest untouched.\<close>

definition path_tail :: "'x env_scheme \<Rightarrow> nat \<Rightarrow> byte list" where
  "path_tail P n = drop n (replicate 14 0 @ map (uninit P) [16..<110])"

lemma sun_path_filter:
  assumes "length bs \<le> 108"
  shows "unix_view (put_at 2 bs (set_family AF_UNIX (set_family f (SockAddr_zero P)))) =
    \<lparr>sun_family = AF_UNIX, sun_path = bs @ path_tail P (length bs)\<rparr>"
proof -
  let ?u = "set_family AF_UNIX (set_family f (SockAddr_zero P))"
  have fam: "take 2 (put_at 2 bs ?u) = le16 AF_UNIX"
    by (simp add: put_at_def family_set_family)
  have "drop 2 (put_at 2 bs ?u) = bs @ drop (2 + length bs) ?u"
    by (simp add: put_at_def)
  moreover have "take (108 - length bs) (drop (2 + length bs) ?u) = path_tail P (length bs)"
  proof -
    have "take (108 - length bs) (drop (2 + length bs) ?u) =
        drop (length bs) (take 108 (drop 2 (SockAddr_zero P)))"
      by (simp add: drop_set_family drop_take)
    also have "take 108 (drop 2 (SockAddr_zero P)) = replicate 14 0 @ map (uninit P) [16..<110]"
      by (simp add: SockAddr_zero_def sizeof_defs take_map)
    finally show ?thesis by (simp add: path_tail_def)
  qed
  ultimately show ?thesis
    using assms fam by (simp add: unix_view_def)
qed

lemma unix_sockaddr_path:
  assumes "frame_intact P" and "unix_text path" and "length path \<le> 108"
  shows "unix_sockaddr P (''unix://'' @ path) =
    Val \<lparr>sun_family = AF_UNIX, sun_path = map byte_of_char path @ path_tail P (length path)\<rparr>"
  using assms(3) sun_path_filter [of "map byte_of_char path" "ucast AF_ERROR" P]
  by (simp only: unix_sockaddr_def read_filter_intact [OF assms(1)] filter_unix_path [OF assms(2)]
      if_True bind_outcome.simps length_map simp_thms)

lemma path_tail_zero:
  "n < 108 \<Longrightarrow> n < 14 \<or> uninit P (n + 2) = 0 \<Longrightarrow> \<exists>rest. path_tail P n = 0 # rest"
proof -
  assume n: "n < 108" and z: "n < 14 \<or> uninit P (n + 2) = 0"
  let ?l = "replicate 14 0 @ map (uninit P) [16..<110]"
  have "path_tail P n = ?l ! n # drop (Suc n) ?l"
    using n by (simp add: path_tail_def Cons_nth_drop_Suc del: drop_append)
  moreover have "?l ! n = 0"
    using n z by (auto simp: nth_append simp del: upt_rec_numeral)
  ultimately show ?thesis by auto
qed

lemma unix2string_path:
  assumes "unix_text path" and "length path < 14 \<or> (length path < 108 \<and> uninit P (length path + 2) = 0)"
  shows "unix2string \<lparr>sun_family = AF_UNIX, sun_path = map byte_of_char path @ path_tail P (length path)\<rparr>
    = Val path"
proof -
  obtain rest where "path_tail P (length path) = 0 # rest"
    using path_tail_zero [of "length path" P] assms(2) by auto
  then show ?thesis
    using read_c_string_terminated [OF unix_text_not_nul [OF assms(1)]]
    by (simp add: unix2string_def)
qed

text \<open>
  Without a terminator behind the path, printing it either runs into the next zero byte or past the
  end of the array: it never gives the path.
\<close>

lemma unix2string_unterminated:
  assumes "unix_text path" and "length path < 108" and "14 \<le> length path"
    and "uninit P (length path + 2) \<noteq> 0"
  shows "unix2string \<lparr>sun_family = AF_UNIX, sun_path = map byte_of_char path @ path_tail P (length path)\<rparr>
    \<noteq> Val path"
proof -
  let ?l = "replicate 14 0 @ map (uninit P) [16..<110]"
  have "path_tail P (length path) = ?l ! length path # drop (Suc (length path)) ?l"
    using assms(2) by (simp add: path_tail_def Cons_nth_drop_Suc del: drop_append)
  moreover have "?l ! length path = uninit P (length path + 2)"
    using assms(2,3) by (simp add: nth_append del: upt_rec_numeral)
  ultimately show ?thesis
    using assms(4) read_c_string_longer [OF unix_text_not_nul [OF assms(1)]]
    by (simp add: unix2string_def)
qed

lemma leftmost_Some: "leftmost f s = Some x \<Longrightarrow> \<exists>i. f (drop i s) = Some x"
proof (induction s)
  case Nil
  then show ?case by (metis drop0 leftmost.simps(1))
next
  case (Cons c s)
  show ?case
  proof (cases "f (c # s)")
    case None
    with Cons obtain i where "f (drop i s) = Some x" by auto
    then show ?thesis by (intro exI [of _ "Suc i"]) simp
  next
    case (Some y)
    with Cons.prems show ?thesis by (intro exI [of _ 0]) simp
  qed
qed

lemma leftmost_proto_scheme:
  "leftmost proto_at s = Some (sch, body) \<Longrightarrow> sch = ''udp'' \<or> sch = ''tcp'' \<or> sch = ''unix''"
  by (auto dest!: leftmost_Some dest: proto_at_Some)

end
