(* ===== verification/Time_Val.thy ===== *)
theory Time_Val
  imports Prelude "HOL-Library.Signed_Division"
begin

text \<open>
  Component \<open>time.hpp\<close>: \<open>timeval_t\<close>, \<open>get_time\<close> and the durations the sleep functions ask for.
  \<open>long\<close> division truncates towards zero, which \<open>sdiv\<close> and \<open>smod\<close> on \<open>int\<close> do.
\<close>

datatype timeval_t = Timeval (tv_sec: int) (tv_usec: int)

definition get_time :: "int \<Rightarrow> timeval_t" where
  "get_time timeout_msec =
    (let sec = timeout_msec sdiv 1000
     in Timeval sec ((timeout_msec - sec * 1000) smod 1000))"

text \<open>The duration a \<open>timeval\<close> stands for, in microseconds.\<close>

definition usecs :: "timeval_t \<Rightarrow> int" where
  "usecs tv = 1000000 * tv_sec tv + tv_usec tv"

text \<open>Time values are ordered by their seconds, then by their microseconds.\<close>

instantiation timeval_t :: linorder
begin

definition less_eq_timeval_t :: "timeval_t \<Rightarrow> timeval_t \<Rightarrow> bool" where
  "s \<le> t \<longleftrightarrow> tv_sec s < tv_sec t \<or> (tv_sec s = tv_sec t \<and> tv_usec s \<le> tv_usec t)"

definition less_timeval_t :: "timeval_t \<Rightarrow> timeval_t \<Rightarrow> bool" where
  "s < t \<longleftrightarrow> tv_sec s < tv_sec t \<or> (tv_sec s = tv_sec t \<and> tv_usec s < tv_usec t)"

instance
  by standard (auto simp: less_eq_timeval_t_def less_timeval_t_def intro: timeval_t.expand)

end

lemma sdiv_nonneg: "0 \<le> (a :: int) \<Longrightarrow> a sdiv 1000 = a div 1000"
  by (cases "a = 0") (simp_all add: signed_divide_int_def)

lemma smod_nonneg: "0 \<le> (a :: int) \<Longrightarrow> a smod 1000 = a mod 1000"
  by (cases "a = 0") (simp_all add: signed_modulo_int_def)

lemma get_time_eq: "get_time ms = Timeval (ms sdiv 1000) (ms smod 1000)"
proof -
  have "ms - ms sdiv 1000 * 1000 = ms smod 1000" by (rule minus_sdiv_mult_eq_smod)
  moreover have "(ms smod 1000) smod 1000 = ms smod 1000"
    using pos_mod_sign [of 1000 "\<bar>ms\<bar>"] by (auto simp: signed_modulo_int_def abs_mult sgn_if)
  ultimately show ?thesis by (simp add: get_time_def Let_def)
qed

lemma get_time_nonneg: "0 \<le> ms \<Longrightarrow> get_time ms = Timeval (ms div 1000) (ms mod 1000)"
  by (simp add: get_time_eq sdiv_nonneg smod_nonneg)

section \<open>The sleep functions\<close>

text \<open>
  \<open>sleep_for\<close> returns at once for a duration that is not positive; otherwise it asks for the
  duration in nanoseconds. \<open>None\<close> is the early return.
\<close>

definition sleep_for :: "int \<Rightarrow> int option" where
  "sleep_for ns = (if ns \<le> 0 then None else Some ns)"

definition msleep :: "int \<Rightarrow> int option" where
  "msleep msec = sleep_for (1000000 * msec)"

definition usleep :: "int \<Rightarrow> int option" where
  "usleep usec = sleep_for (1000 * usec)"

definition sleep :: "int \<Rightarrow> int option" where
  "sleep sec = sleep_for (1000000000 * sec)"

text \<open>The seconds and the rest make up the timeout, with its sign.\<close>

lemma get_time_parts:
  "1000 * tv_sec (get_time ms) + tv_usec (get_time ms) = ms \<and>
   (0 \<le> ms \<longrightarrow> 0 \<le> tv_sec (get_time ms) \<and> 0 \<le> tv_usec (get_time ms) \<and> tv_usec (get_time ms) < 1000) \<and>
   (ms < 0 \<longrightarrow> tv_sec (get_time ms) \<le> 0 \<and> - 1000 < tv_usec (get_time ms) \<and> tv_usec (get_time ms) \<le> 0)"
proof (cases "0 \<le> ms")
  case True
  then show ?thesis by (simp add: get_time_nonneg)
next
  case False
  then have g: "get_time ms = Timeval (- (- ms div 1000)) (- (- ms mod 1000))"
    by (simp add: get_time_eq signed_divide_int_def signed_modulo_int_def)
  have "1000 * (- ms div 1000) + - ms mod 1000 = - ms" by (rule mult_div_mod_eq)
  moreover have "0 \<le> - ms div 1000" "- ms mod 1000 < 1000" using False by (simp_all add: pos_imp_zdiv_nonneg_iff)
  ultimately show ?thesis using False unfolding g timeval_t.sel by linarith
qed

section \<open>Properties\<close>

text \<open>
  C35: for a timeout that is not negative, \<open>get_time\<close> is a normal \<open>timeval\<close>, but its \<open>tv_usec\<close>
  holds the remaining milliseconds, not microseconds: the timeout it stands for is the one asked
  for exactly when that is a whole number of seconds, and too short otherwise.
\<close>
theorem get_time_duration:
  assumes "0 \<le> ms"
  shows "0 \<le> tv_usec (get_time ms) \<and> tv_usec (get_time ms) < 1000 \<and>
    usecs (get_time ms) = 1000 * ms - 999 * (ms mod 1000) \<and>
    (usecs (get_time ms) = 1000 * ms \<longleftrightarrow> 1000 dvd ms) \<and>
    0 \<le> usecs (get_time ms) \<and> usecs (get_time ms) \<le> 1000 * ms"
proof -
  have r: "ms mod 1000 = tv_usec (get_time ms)" using assms by (simp add: get_time_nonneg)
  show ?thesis
    using get_time_parts [of ms] assms unfolding usecs_def dvd_eq_mod_eq_0 r by linarith
qed

theorem get_time_duration_witness:
  "usecs (get_time 1500) = 1000500 \<and> usecs (get_time 2000) = 2000000"
  using get_time_duration [of 1500] get_time_duration [of 2000] by simp

text \<open>
  A longer timeout never gives a smaller time value, negative timeouts included, and different
  timeouts give different time values.
\<close>
lemma get_time_mono:
  assumes "a < b"
  shows "get_time a < get_time b"
  using get_time_parts [of a] get_time_parts [of b] assms
  unfolding less_timeval_t_def by linarith

end
