(* ===== verification/Platform.thy ===== *)
theory Platform
  imports Sock_Addr Time_Val "HOL-Library.Multiset"
begin

text \<open>
  The operating system as the library sees it: the system calls it makes, the kernel that answers
  them (a parameter), the machine a member function runs on (the object, the outside world,
  \<open>errno\<close>, the trace of system calls and the lines printed), and the bookkeeping of file
  descriptors over a trace.
\<close>

section \<open>System calls\<close>

datatype optval = Opt_int int | Opt_time timeval_t

datatype syscall =
    Sys_socket int int int
  | Sys_close int
  | Sys_setsockopt int int int optval
  | Sys_getsockopt int int int nat
  | Sys_fionbio int int
  | Sys_getsockname int nat
  | Sys_select int "int list" "int list" timeval_t
  | Sys_bind int "byte list"
  | Sys_connect int "byte list"
  | Sys_unlink string
  | Sys_recvfrom int nat int bool
  | Sys_recv int nat int
  | Sys_sendto int "byte list" int "byte list"
  | Sys_getnameinfo "byte list" nat
  | Sys_sigaction int int

text \<open>
  A reply: the return value, \<open>errno\<close> where the call failed, the bytes written to the caller's
  data buffer and to its address buffer, and the descriptors \<open>select\<close> leaves in its sets.
\<close>

record reply =
  r_ret :: int
  r_errno :: int
  r_data :: "byte list"
  r_addr :: "byte list"
  r_fds :: "int list"

record 'w platform = env +
  kernel :: "syscall \<Rightarrow> 'w \<Rightarrow> reply \<times> 'w"

text \<open>\<open>socket(2)\<close> returns a descriptor, or \<open>-1\<close> when it fails.\<close>

definition socket_law :: "('w, 'x) platform_scheme \<Rightarrow> bool" where
  "socket_law P \<longleftrightarrow> (\<forall>f t p w. - 1 \<le> r_ret (fst (kernel P (Sys_socket f t p) w)))"

section \<open>The machine\<close>

record ('o, 'w) mach =
  self :: 'o
  world :: 'w
  errno :: int
  trace :: "(syscall \<times> int) list"
  cout :: "string list"

definition sys :: "('w, 'x) platform_scheme \<Rightarrow> syscall \<Rightarrow> (('o, 'w) mach, reply) act" where
  "sys P c s =
    (let (r, w) = kernel P c (world s)
     in (Val r, s\<lparr>world := w, errno := (if r_ret r < 0 then r_errno r else errno s),
                  trace := trace s @ [(c, r_ret r)]\<rparr>))"

definition print :: "string \<Rightarrow> (('o, 'w) mach, unit) act" where
  "print line = modify (\<lambda>s. s\<lparr>cout := cout s @ [line]\<rparr>)"

text \<open>
  The machine of a member function of another object of the program, and an action on such an
  object: the world, \<open>errno\<close>, the trace and the output are shared.
\<close>

definition with_self :: "'o \<Rightarrow> ('q, 'w) mach \<Rightarrow> ('o, 'w) mach" where
  "with_self obj s = \<lparr>self = obj, world = world s, errno = errno s, trace = trace s, cout = cout s\<rparr>"

definition on_object :: "'q \<Rightarrow> (('q, 'w) mach, 'a) act \<Rightarrow> (('o, 'w) mach, 'a) act" where
  "on_object obj m s = (let (r, t) = m (with_self obj s) in (r, with_self (self s) t))"

lemma with_self_simps [simp]:
  "self (with_self obj s) = obj" "world (with_self obj s) = world s" "trace (with_self obj s) = trace s"
  "errno (with_self obj s) = errno s" "cout (with_self obj s) = cout s"
  "with_self obj (with_self obj' s) = with_self obj s" "with_self (self u) u = u"
  by (simp_all add: with_self_def)

lemma on_object_eq:
  "on_object obj m s = (fst (m (with_self obj s)), with_self (self s) (snd (m (with_self obj s))))"
  by (simp add: on_object_def split: prod.split)

text \<open>Bytes the kernel writes into a buffer of the caller, which keeps its length.\<close>

definition overwrite :: "'a list \<Rightarrow> 'a list \<Rightarrow> 'a list" where
  "overwrite buf bs = take (length buf) bs @ drop (length bs) buf"

lemma length_overwrite [simp]: "length (overwrite buf bs) = length buf"
  by (simp add: overwrite_def)

lemma overwrite_Nil [simp]: "overwrite buf [] = buf"
  by (simp add: overwrite_def)

lemma overwrite_full: "length bs = length buf \<Longrightarrow> overwrite buf bs = bs"
  by (simp add: overwrite_def)

lemma sys_Val [act_simps]:
  "sys P c s =
    (Val (fst (kernel P c (world s))),
     s\<lparr>world := snd (kernel P c (world s)),
       errno := (if r_ret (fst (kernel P c (world s))) < 0
                 then r_errno (fst (kernel P c (world s))) else errno s),
       trace := trace s @ [(c, r_ret (fst (kernel P c (world s))))]\<rparr>)"
  by (simp add: sys_def split: prod.splits)

lemma print_apply [act_simps]: "print line s = (Val (), s\<lparr>cout := cout s @ [line]\<rparr>)"
  by (simp add: print_def modify_def)

section \<open>Descriptors over a trace\<close>

text \<open>The descriptors that a trace leaves open: created by \<open>socket\<close> and not closed since.\<close>

fun live_step :: "int multiset \<Rightarrow> syscall \<times> int \<Rightarrow> int multiset" where
  "live_step M (Sys_socket f t p, r) = (if 0 \<le> r then add_mset r M else M)"
| "live_step M (Sys_close fd, r) = M - {#fd#}"
| "live_step M (c, r) = M"

definition live :: "(syscall \<times> int) list \<Rightarrow> int multiset" where
  "live tr = foldl live_step {#} tr"

text \<open>The descriptor a call works on.\<close>

fun call_fd :: "syscall \<Rightarrow> int option" where
  "call_fd (Sys_close fd) = Some fd"
| "call_fd (Sys_setsockopt fd l n v) = Some fd"
| "call_fd (Sys_getsockopt fd l n k) = Some fd"
| "call_fd (Sys_fionbio fd v) = Some fd"
| "call_fd (Sys_getsockname fd k) = Some fd"
| "call_fd (Sys_bind fd a) = Some fd"
| "call_fd (Sys_connect fd a) = Some fd"
| "call_fd (Sys_recvfrom fd n f b) = Some fd"
| "call_fd (Sys_recv fd n f) = Some fd"
| "call_fd (Sys_sendto fd m f a) = Some fd"
| "call_fd _ = None"

text \<open>
  A trace uses its descriptors properly: each call works on a descriptor that is open at that
  point, or on \<open>-1\<close>, which the kernel rejects; \<open>-1\<close> is never closed.
\<close>

definition fd_use_ok :: "int multiset \<Rightarrow> syscall \<Rightarrow> bool" where
  "fd_use_ok M c \<longleftrightarrow> (case call_fd c of
      None \<Rightarrow> True
    | Some fd \<Rightarrow> fd \<in># M \<or> (fd = - 1 \<and> c \<noteq> Sys_close fd))"

fun trace_ok_from :: "int multiset \<Rightarrow> (syscall \<times> int) list \<Rightarrow> bool" where
  "trace_ok_from M [] \<longleftrightarrow> True"
| "trace_ok_from M (e # tr) \<longleftrightarrow> fd_use_ok M (fst e) \<and> trace_ok_from (live_step M e) tr"

definition trace_ok :: "(syscall \<times> int) list \<Rightarrow> bool" where
  "trace_ok tr \<longleftrightarrow> trace_ok_from {#} tr"

lemma live_Nil [simp]: "live [] = {#}"
  by (simp add: live_def)

lemma live_snoc [simp]: "live (tr @ [e]) = live_step (live tr) e"
  by (simp add: live_def)

lemma live_append: "live (tr @ es) = foldl live_step (live tr) es"
  by (simp add: live_def)

lemma trace_ok_Nil [simp]: "trace_ok []"
  by (simp add: trace_ok_def)

lemma trace_ok_from_snoc:
  "trace_ok_from M (tr @ [e]) \<longleftrightarrow> trace_ok_from M tr \<and> fd_use_ok (foldl live_step M tr) (fst e)"
  by (induction tr arbitrary: M) auto

lemma trace_ok_snoc [simp]: "trace_ok (tr @ [e]) \<longleftrightarrow> trace_ok tr \<and> fd_use_ok (live tr) (fst e)"
  by (simp add: trace_ok_def live_def trace_ok_from_snoc)

text \<open>Calls that neither create nor close a descriptor.\<close>

fun plain_call :: "syscall \<Rightarrow> bool" where
  "plain_call (Sys_socket f t p) = False"
| "plain_call (Sys_close fd) = False"
| "plain_call _ = True"

lemma live_step_plain [simp]: "plain_call c \<Longrightarrow> live_step M (c, r) = M"
  by (cases c) simp_all

end
