(* ===== verification/Socket_Base.thy ===== *)
theory Socket_Base
  imports Platform
begin

text \<open>
  Component \<open>socket.hpp\<close>: the class \<open>Socket\<close>, which owns a file descriptor. A derived class is
  an extension of the record, so every member function works on it too.
\<close>

record Socket =
  socket_fd :: int

definition SOCKET_ERR :: int where "SOCKET_ERR = - 1"

definition SOCKET_TIMEOUT :: int where "SOCKET_TIMEOUT = - 1"

definition SOL_SOCKET :: int where "SOL_SOCKET = 1"

definition SO_REUSEADDR :: int where "SO_REUSEADDR = 2"

definition SO_TYPE :: int where "SO_TYPE = 3"

definition SO_BROADCAST :: int where "SO_BROADCAST = 6"

definition SO_REUSEPORT :: int where "SO_REUSEPORT = 15"

definition SO_RCVTIMEO :: int where "SO_RCVTIMEO = 20"

definition SOCK_STREAM :: int where "SOCK_STREAM = 1"

definition SOCK_DGRAM :: int where "SOCK_DGRAM = 2"

definition IPPROTO_IP :: int where "IPPROTO_IP = 0"

definition IP_MULTICAST_LOOP :: int where "IP_MULTICAST_LOOP = 34"

definition FD_SETSIZE :: int where "FD_SETSIZE = 1024"

type_synonym ('x, 'w, 'a) sock_act = "(('x Socket_scheme, 'w) mach, 'a) act"

definition get_fd :: "('x, 'w, int) sock_act" where
  "get_fd = gets (\<lambda>s. socket_fd (self s))"

definition set_fd :: "int \<Rightarrow> ('x, 'w, unit) sock_act" where
  "set_fd fd = modify (\<lambda>s. s\<lparr>self := (self s)\<lparr>socket_fd := fd\<rparr>\<rparr>)"

lemma get_fd_apply [act_simps]: "get_fd s = (Val (socket_fd (self s)), s)"
  by (simp add: get_fd_def gets_def)

lemma set_fd_apply [act_simps]: "set_fd fd s = (Val (), s\<lparr>self := (self s)\<lparr>socket_fd := fd\<rparr>\<rparr>)"
  by (simp add: set_fd_def modify_def)

section \<open>Construction, closing, errors\<close>

definition Socket_ctor :: "('x, 'w, unit) sock_act" where
  "Socket_ctor = set_fd SOCKET_ERR"

definition Socket_close :: "('w, 'p) platform_scheme \<Rightarrow> ('x, 'w, unit) sock_act" where
  "Socket_close P = bnd get_fd (\<lambda>fd.
     if fd \<noteq> SOCKET_ERR then bnd (sys P (Sys_close fd)) (\<lambda>_. set_fd SOCKET_ERR) else ret ())"

definition Socket_dtor :: "('w, 'p) platform_scheme \<Rightarrow> ('x, 'w, unit) sock_act" where
  "Socket_dtor P = Socket_close P"

definition getSocketFD :: "('x, 'w, int) sock_act" where
  "getSocketFD = get_fd"

text \<open>\<open>guard\<close>: close first, then print and throw the message with the text of \<open>errno\<close>.\<close>

definition guard :: "('w, 'p) platform_scheme \<Rightarrow> int \<Rightarrow> string \<Rightarrow> ('x, 'w, unit) sock_act" where
  "guard P err msg =
    (if err < 0 then
       bnd (Socket_close P) (\<lambda>_.
       bnd (gets (\<lambda>s. msg @ strerror P (errno s))) (\<lambda>text.
       bnd (print text) (\<lambda>_. throw (Runtime_error text))))
     else ret ())"

definition makeSocket ::
  "('w, 'p) platform_scheme \<Rightarrow> int \<Rightarrow> int \<Rightarrow> int \<Rightarrow> ('x, 'w, unit) sock_act" where
  "makeSocket P family type protocol =
    bnd (sys P (Sys_socket family type protocol)) (\<lambda>r.
    bnd (set_fd (r_ret r)) (\<lambda>_.
    guard P (r_ret r) ''Socket::makeSocket() failed: ''))"

section \<open>Options and state of the socket\<close>

definition settimeout :: "('w, 'p) platform_scheme \<Rightarrow> int \<Rightarrow> ('x, 'w, unit) sock_act" where
  "settimeout P timeout_msec = bnd get_fd (\<lambda>fd.
     bnd (sys P (Sys_setsockopt fd SOL_SOCKET SO_RCVTIMEO (Opt_time (get_time timeout_msec)))) (\<lambda>r.
     guard P (r_ret r) ''settimeout(): ''))"

definition setnonblocking :: "('w, 'p) platform_scheme \<Rightarrow> bool \<Rightarrow> ('x, 'w, unit) sock_act" where
  "setnonblocking P val = bnd get_fd (\<lambda>fd.
     bnd (sys P (Sys_fionbio fd (if val then 1 else 0))) (\<lambda>r.
     guard P (r_ret r) ''setnonblocking(): ''))"

definition setsockopt ::
  "('w, 'p) platform_scheme \<Rightarrow> int \<Rightarrow> int \<Rightarrow> int \<Rightarrow> ('x, 'w, unit) sock_act" where
  "setsockopt P level name val = bnd get_fd (\<lambda>fd.
     bnd (sys P (Sys_setsockopt fd level name (Opt_int val))) (\<lambda>r.
     guard P (r_ret r) ''setsockopt(): ''))"

definition getsockname :: "('w, 'p) platform_scheme \<Rightarrow> ('x, 'w, string) sock_act" where
  "getsockname P = bnd get_fd (\<lambda>fd.
     bnd (sys P (Sys_getsockname fd sizeof_inet)) (\<lambda>r.
     bnd (guard P (r_ret r) ''getsockname(): '') (\<lambda>_.
     ret (inet2string P (inet_view (overwrite (replicate sizeof_inet 0) (r_addr r)))))))"

text \<open>
  \<open>FD_SET\<close> writes bit \<open>fd\<close> of a set of \<open>FD_SETSIZE\<close> bits; outside it the behaviour is undefined,
  which includes the \<open>-1\<close> of a closed socket.
\<close>

definition FD_SET :: "int \<Rightarrow> int list \<Rightarrow> int list outcome" where
  "FD_SET fd fds = (if 0 \<le> fd \<and> fd < FD_SETSIZE then Val (fd # fds) else Undef Bad_fd_set)"

definition available :: "('w, 'p) platform_scheme \<Rightarrow> ('x, 'w, bool) sock_act" where
  "available P = bnd get_fd (\<lambda>fd.
     bnd (lift_outcome (FD_SET fd [])) (\<lambda>readfds.
     bnd (sys P (Sys_select (fd + 1) readfds [] (Timeval 0 1000))) (\<lambda>r.
     bnd (guard P (r_ret r) ''Socket::available select issue'') (\<lambda>_.
     ret (fd \<in> set (r_fds r))))))"

definition availableForWrite :: "('w, 'p) platform_scheme \<Rightarrow> ('x, 'w, bool) sock_act" where
  "availableForWrite P = bnd get_fd (\<lambda>fd.
     bnd (lift_outcome (FD_SET fd [])) (\<lambda>writefds.
     bnd (sys P (Sys_select (fd + 1) [] writefds (Timeval 0 1000))) (\<lambda>r.
     bnd (guard P (r_ret r) ''Socket::availableForWrite select issue'') (\<lambda>_.
     ret (fd \<in> set (r_fds r))))))"

definition reuseSocket :: "('w, 'p) platform_scheme \<Rightarrow> bool \<Rightarrow> ('x, 'w, unit) sock_act" where
  "reuseSocket P enable =
    (if enable then
       bnd (setsockopt P SOL_SOCKET SO_REUSEPORT 1) (\<lambda>_. setsockopt P SOL_SOCKET SO_REUSEADDR 1)
     else
       bnd (setsockopt P SOL_SOCKET SO_REUSEPORT 0) (\<lambda>_. setsockopt P SOL_SOCKET SO_REUSEADDR 0))"

section \<open>bind and connect\<close>

text \<open>\<open>enum ConType: uint8_t\<close>: the underlying type has values beyond the two enumerators.\<close>

type_synonym ConType = "8 word"

definition CONNECT :: ConType where "CONNECT = 0"

definition BIND :: ConType where "BIND = 1"

definition setSocket ::
  "('w, 'p) platform_scheme \<Rightarrow> string \<Rightarrow> ConType \<Rightarrow> ('x, 'w, unit) sock_act" where
  "setSocket P address type =
    (let m = regex_search proto address
     in if length m = 0 then guard P (- 1) (''Socket UDS address invalide: '' @ address)
        else if m ! 1 = ''unix'' then
          bnd (lift_outcome (unix_sockaddr P address)) (\<lambda>addr.
          let path = m ! 2
          in bnd (sys P (Sys_unlink (c_str path))) (\<lambda>_.
             bnd get_fd (\<lambda>fd.
             if type = CONNECT then
               bnd (sys P (Sys_connect fd (unix_bytes addr))) (\<lambda>r.
               guard P (r_ret r) ''Socket UDS couldn't connect: '')
             else if type = BIND then
               bnd (sys P (Sys_bind fd (unix_bytes addr))) (\<lambda>r.
               guard P (r_ret r) ''Socket UDS couldn't bind: '')
             else guard P (- 1) ''Socket UDS neither connect or bind'')))
        else if m ! 1 = ''tcp'' \<or> m ! 1 = ''udp'' then
          bnd (lift_outcome (inet_sockaddr P address)) (\<lambda>addr.
          bnd get_fd (\<lambda>fd.
          bnd (if type = CONNECT then
                 bnd (sys P (Sys_connect fd (inet_bytes addr))) (\<lambda>r. ret (r_ret r))
               else if type = BIND then
                 bnd (sys P (Sys_bind fd (inet_bytes addr))) (\<lambda>r. ret (r_ret r))
               else ret (- 1)) (\<lambda>err.
          guard P err ''Socket::bind() failed: '')))
        else ret ())"

definition Socket_bind :: "('w, 'p) platform_scheme \<Rightarrow> string \<Rightarrow> ('x, 'w, unit) sock_act" where
  "Socket_bind P address = setSocket P address BIND"

definition Socket_connect :: "('w, 'p) platform_scheme \<Rightarrow> string \<Rightarrow> ('x, 'w, unit) sock_act" where
  "Socket_connect P address = setSocket P address CONNECT"

section \<open>Closing and guarding\<close>

lemma Socket_close_closed: "socket_fd (self s) = - 1 \<Longrightarrow> Socket_close P s = (Val (), s)"
  by (simp add: Socket_close_def bnd_def get_fd_def gets_def ret_def SOCKET_ERR_def)

lemma Socket_close_open:
  "socket_fd (self s) \<noteq> - 1 \<Longrightarrow>
    Socket_close P s =
      (Val (), (snd (sys P (Sys_close (socket_fd (self s))) s))
         \<lparr>self := (self s)\<lparr>socket_fd := - 1\<rparr>\<rparr>)"
  by (simp add: Socket_close_def bnd_def get_fd_def gets_def sys_Val set_fd_def modify_def
      SOCKET_ERR_def)

lemma Socket_close_Val: "fst (Socket_close P s) = Val ()"
  by (cases "socket_fd (self s) = - 1") (simp_all add: Socket_close_closed Socket_close_open)

lemma Socket_close_fd: "socket_fd (self (snd (Socket_close P s))) = - 1"
  by (cases "socket_fd (self s) = - 1") (simp_all add: Socket_close_closed Socket_close_open)

lemma guard_ok [simp]: "0 \<le> err \<Longrightarrow> guard P err msg = ret ()"
  by (simp add: guard_def)

text \<open>The text of a failure is that of \<open>errno\<close> as the closing left it.\<close>

definition failure :: "('w, 'p) platform_scheme \<Rightarrow> string \<Rightarrow> ('x Socket_scheme, 'w) mach \<Rightarrow> string" where
  "failure P msg s = msg @ strerror P (errno (snd (Socket_close P s)))"

lemma guard_fail:
  "err < 0 \<Longrightarrow>
    guard P err msg s =
      (Exn (Runtime_error (failure P msg s)),
       (snd (Socket_close P s))\<lparr>cout := cout (snd (Socket_close P s)) @ [failure P msg s]\<rparr>)"
  by (simp add: guard_def bnd_case Socket_close_Val gets_def print_apply throw_def failure_def)

lemma guard_cases:
  "(0 \<le> err \<and> guard P err msg s = (Val (), s)) \<or>
   (err < 0 \<and> (\<exists>text t. guard P err msg s = (Exn (Runtime_error text), t) \<and> socket_fd (self t) = - 1))"
  by (cases "0 \<le> err") (simp_all add: ret_def guard_fail Socket_close_fd)

section \<open>The life of the descriptor\<close>

text \<open>
  What an operation does to its object: a run-time error of the library closes the descriptor;
  in every other case, an address that is refused by \<open>stoi\<close> included, the object is as it was.
\<close>

definition after_result :: "'a outcome \<Rightarrow> 'x Socket_scheme \<Rightarrow> 'x Socket_scheme" where
  "after_result r obj = (case r of
      Exn (Runtime_error text) \<Rightarrow> obj\<lparr>socket_fd := - 1\<rparr>
    | _ \<Rightarrow> obj)"

definition only_failure_closes :: "(('x Socket_scheme, 'w) mach, 'a) act \<Rightarrow> bool" where
  "only_failure_closes m \<longleftrightarrow> (\<forall>s. self (snd (m s)) = after_result (fst (m s)) (self s))"

named_theorems closes_intros \<open>rules for operations that close the socket exactly when they fail\<close>

lemma only_failure_closesD:
  "only_failure_closes m \<Longrightarrow> self (snd (m s)) = after_result (fst (m s)) (self s)"
  by (simp add: only_failure_closes_def)

lemma after_result_simps [simp]:
  "after_result (Val x) obj = obj" "after_result (Undef u) obj = obj"
  "after_result (Exn (Runtime_error text)) obj = obj\<lparr>socket_fd := - 1\<rparr>"
  "after_result (Exn (Invalid_argument text)) obj = obj"
  "after_result (Exn (Out_of_range text)) obj = obj"
  "after_result (Exn Bad_function_call) obj = obj"
  by (simp_all add: after_result_def)

lemma closes_ret [closes_intros]: "only_failure_closes (ret x)"
  by (simp add: only_failure_closes_def ret_def)

lemma closes_gets [closes_intros]: "only_failure_closes (gets f)"
  by (simp add: only_failure_closes_def gets_def)

lemma closes_sys [closes_intros]: "only_failure_closes (sys P c)"
  by (simp add: only_failure_closes_def sys_Val)

lemma closes_get_fd [closes_intros]: "only_failure_closes get_fd"
  by (simp add: get_fd_def closes_gets)

lemma self_close: "self (snd (Socket_close P s)) = (self s)\<lparr>socket_fd := - 1\<rparr>"
proof (cases "socket_fd (self s) = - 1")
  case True
  then have "(self s)\<lparr>socket_fd := - 1\<rparr> = self s" by (cases "self s") simp
  with True show ?thesis by (simp add: Socket_close_closed)
qed (simp add: Socket_close_open)

lemma closes_guard [closes_intros]: "only_failure_closes (guard P err msg)"
  unfolding only_failure_closes_def
  by (cases "0 \<le> err") (simp_all add: ret_def guard_fail self_close)

lemma closes_bnd [closes_intros]:
  "only_failure_closes m \<Longrightarrow> (\<And>x. only_failure_closes (f x)) \<Longrightarrow> only_failure_closes (bnd m f)"
proof -
  assume m: "only_failure_closes m" and f: "\<And>x. only_failure_closes (f x)"
  have "self (snd (bnd m f s)) = after_result (fst (bnd m f s)) (self s)" for s
    using only_failure_closesD [OF m, of s] only_failure_closesD [OF f, of _ "snd (m s)"]
    by (cases "fst (m s)") (simp_all add: bnd_case after_result_def)
  then show ?thesis by (simp add: only_failure_closes_def)
qed

lemma closes_if [closes_intros]:
  "(b \<Longrightarrow> only_failure_closes m) \<Longrightarrow> (\<not> b \<Longrightarrow> only_failure_closes n) \<Longrightarrow>
    only_failure_closes (if b then m else n)"
  by simp

lemma closes_lift:
  "(\<And>text. r \<noteq> Exn (Runtime_error text)) \<Longrightarrow> only_failure_closes (lift_outcome r)"
  by (cases r) (auto simp: only_failure_closes_def lift_outcome_apply after_result_def split: exn.split)

lemma stoi_not_runtime: "stoi s \<noteq> Exn (Runtime_error text)"
  by (simp add: stoi_def Let_def)

lemma filter_not_runtime: "filter_addr P a \<noteq> Exn (Runtime_error text)"
  by (simp add: filter_addr_def Let_def set_path_def bind_outcome_Exn_iff stoi_not_runtime)

lemma read_filter_not_runtime: "read_filter P a \<noteq> Exn (Runtime_error text)"
  using filter_not_runtime [of P a]
  by (cases "filter_addr P a") (auto simp: read_filter_def split: option.split)

lemma closes_address [closes_intros]:
  "only_failure_closes (lift_outcome (unix_sockaddr P a))"
  "only_failure_closes (lift_outcome (inet_sockaddr P a))"
  by (rule closes_lift, simp add: unix_sockaddr_def inet_sockaddr_def bind_outcome_Exn_iff
      read_filter_not_runtime)+

lemma closes_FD_SET [closes_intros]: "only_failure_closes (lift_outcome (FD_SET fd fds))"
  by (rule closes_lift) (simp add: FD_SET_def)

lemma closes_settimeout [closes_intros]: "only_failure_closes (settimeout P ms)"
  unfolding settimeout_def by (intro closes_intros)

lemma closes_setnonblocking [closes_intros]: "only_failure_closes (setnonblocking P v)"
  unfolding setnonblocking_def by (intro closes_intros)

lemma closes_setsockopt [closes_intros]: "only_failure_closes (setsockopt P l n v)"
  unfolding setsockopt_def by (intro closes_intros)

lemma closes_getsockname [closes_intros]: "only_failure_closes (getsockname P)"
  unfolding getsockname_def by (intro closes_intros)

lemma closes_available [closes_intros]: "only_failure_closes (available P)"
  unfolding available_def by (intro closes_intros)

lemma closes_availableForWrite [closes_intros]: "only_failure_closes (availableForWrite P)"
  unfolding availableForWrite_def by (intro closes_intros)

lemma closes_reuseSocket [closes_intros]: "only_failure_closes (reuseSocket P e)"
  unfolding reuseSocket_def by (intro closes_intros)

lemma closes_setSocket [closes_intros]: "only_failure_closes (setSocket P a type)"
  unfolding setSocket_def Let_def by (intro closes_intros)

text \<open>
  So the object is as it was or closed: no operation opens a descriptor, changes to another one
  or touches a field of a derived class.
\<close>

definition same_or_closed :: "'x Socket_scheme \<Rightarrow> ('x Socket_scheme, 'w) mach \<Rightarrow> bool" where
  "same_or_closed obj s \<longleftrightarrow> self s = obj \<or> self s = obj\<lparr>socket_fd := - 1\<rparr>"

lemma closes_same_or_closed: "only_failure_closes m \<Longrightarrow> keeps (same_or_closed obj) m"
  by (auto simp: keeps_def same_or_closed_def only_failure_closes_def after_result_def
      split: outcome.split exn.split)

lemma keeps_get_fd [keeps_intros]: "keeps I get_fd"
  by (simp add: get_fd_def keeps_gets)

section \<open>Descriptors are neither leaked nor reused\<close>

text \<open>
  What a trace leaves open is what the object owns and, beside it, the descriptors \<open>M\<close> of the
  rest of the process, which the operations of the object leave alone; and the trace works only
  on descriptors that were open.
\<close>

definition own_fds :: "'x Socket_scheme \<Rightarrow> int multiset" where
  "own_fds obj = (if socket_fd obj = - 1 then {#} else {#socket_fd obj#})"

definition sock_frame :: "int multiset \<Rightarrow> ('x Socket_scheme, 'w) mach \<Rightarrow> bool" where
  "sock_frame M s \<longleftrightarrow> trace_ok (trace s) \<and> live (trace s) = M + own_fds (self s)"

text \<open>A process with this object only.\<close>

abbreviation sock_inv :: "('x Socket_scheme, 'w) mach \<Rightarrow> bool" where
  "sock_inv \<equiv> sock_frame {#}"

definition own_call :: "int \<Rightarrow> syscall \<Rightarrow> bool" where
  "own_call fd c \<longleftrightarrow> plain_call c \<and> (call_fd c = None \<or> call_fd c = Some fd)"

lemma own_call_simps [simp]:
  "own_call fd (Sys_setsockopt fd l n v)" "own_call fd (Sys_fionbio fd i)"
  "own_call fd (Sys_getsockname fd k)" "own_call fd (Sys_bind fd a)" "own_call fd (Sys_connect fd a)"
  "own_call fd (Sys_recvfrom fd k f b)" "own_call fd (Sys_recv fd k f)" "own_call fd (Sys_sendto fd m f a)"
  "own_call fd (Sys_unlink path)" "own_call fd (Sys_select hi rs ws tv)"
  by (simp_all add: own_call_def)

lemma sock_inv_sys:
  assumes "sock_frame M s" and "own_call (socket_fd (self s)) c"
  shows "sock_frame M (snd (sys P c s))"
  using assms by (cases c) (auto simp: sock_frame_def own_fds_def own_call_def sys_Val fd_use_ok_def)

lemma sock_inv_bnd_sys:
  assumes "sock_frame M s" and "own_call (socket_fd (self s)) c" and "\<And>r. keeps (sock_frame M) (k r)"
  shows "sock_frame M (snd (bnd (sys P c) k s))"
proof -
  obtain r where "fst (sys P c s) = Val r" by (simp add: sys_Val)
  then show ?thesis
    using keepsD [OF assms(3) sock_inv_sys [OF assms(1,2)]] by (simp add: bnd_case)
qed

lemma sock_inv_get_fd:
  assumes "\<And>s. sock_frame M s \<Longrightarrow> sock_frame M (snd (f (socket_fd (self s)) s))"
  shows "keeps (sock_frame M) (bnd get_fd f)"
  using assms by (auto simp: keeps_def bnd_case get_fd_apply)

lemma sock_inv_fd_call [keeps_intros]:
  assumes "\<And>fd. own_call fd (c fd)" and "\<And>fd r. keeps (sock_frame M) (k fd r)"
  shows "keeps (sock_frame M) (bnd get_fd (\<lambda>fd. bnd (sys P (c fd)) (k fd)))"
  using assms by (intro sock_inv_get_fd sock_inv_bnd_sys) auto

lemma sock_inv_print [keeps_intros]: "keeps (sock_frame M) (print line)"
  by (simp add: keeps_def sock_frame_def own_fds_def print_apply)

lemma sock_inv_close_state: "sock_frame M s \<Longrightarrow> sock_frame M (snd (Socket_close P s))"
  by (cases "socket_fd (self s) = - 1")
    (simp_all add: Socket_close_closed Socket_close_open sock_frame_def own_fds_def sys_Val fd_use_ok_def)

lemma sock_inv_close [keeps_intros]: "keeps (sock_frame M) (Socket_close P)"
  by (intro keepsI sock_inv_close_state)

lemma sock_inv_guard [keeps_intros]: "keeps (sock_frame M) (guard P err msg)"
  unfolding guard_def by (intro keeps_intros)

lemma sock_inv_settimeout [keeps_intros]: "keeps (sock_frame M) (settimeout P ms)"
  unfolding settimeout_def by (intro keeps_intros own_call_simps)

lemma sock_inv_setnonblocking [keeps_intros]: "keeps (sock_frame M) (setnonblocking P v)"
  unfolding setnonblocking_def by (intro keeps_intros own_call_simps)

lemma sock_inv_setsockopt [keeps_intros]: "keeps (sock_frame M) (setsockopt P l n v)"
  unfolding setsockopt_def by (intro keeps_intros own_call_simps)

lemma sock_inv_getsockname [keeps_intros]: "keeps (sock_frame M) (getsockname P)"
  unfolding getsockname_def by (intro keeps_intros own_call_simps)

lemma sock_inv_reuseSocket [keeps_intros]: "keeps (sock_frame M) (reuseSocket P e)"
  unfolding reuseSocket_def by (intro keeps_intros)

lemma sock_inv_select_state:
  assumes "sock_frame M s" and "\<And>fds r. keeps (sock_frame M) (k fds r)"
  shows "sock_frame M (snd (bnd (lift_outcome (FD_SET fd [])) (\<lambda>fds.
    bnd (sys P (Sys_select (fd + 1) (f fds) (g fds) tv)) (k fds)) s))"
  using assms by (auto simp: bnd_case [of "lift_outcome r" for r] lift_outcome_apply FD_SET_def
      intro: sock_inv_bnd_sys)

lemma sock_inv_select:
  assumes "\<And>fd fds r. keeps (sock_frame M) (k fd fds r)"
  shows "keeps (sock_frame M) (bnd get_fd (\<lambda>fd. bnd (lift_outcome (FD_SET fd [])) (\<lambda>fds.
    bnd (sys P (Sys_select (fd + 1) (f fds) (g fds) tv)) (k fd fds))))"
  using assms by (intro sock_inv_get_fd sock_inv_select_state)

lemma sock_inv_available [keeps_intros]: "keeps (sock_frame M) (available P)"
  unfolding available_def by (intro sock_inv_select keeps_intros)

lemma sock_inv_availableForWrite [keeps_intros]: "keeps (sock_frame M) (availableForWrite P)"
  unfolding availableForWrite_def by (intro sock_inv_select keeps_intros)

lemma sock_inv_unlink [keeps_intros]: "keeps (sock_frame M) (sys P (Sys_unlink path))"
  by (intro keepsI sock_inv_sys) simp_all

lemma sock_inv_setSocket [keeps_intros]: "keeps (sock_frame M) (setSocket P a type)"
  unfolding setSocket_def Let_def
  by (intro keeps_intros sock_inv_get_fd)
    (auto simp: bnd_assoc intro!: sock_inv_bnd_sys keeps_intros keepsD [OF sock_inv_guard])

lemma makeSocket_inv:
  assumes "socket_law P" and "trace_ok (trace s)" and "live (trace s) = M"
  shows "sock_frame M (snd (makeSocket P f t p s))"
proof -
  let ?r = "r_ret (fst (kernel P (Sys_socket f t p) (world s)))"
  have r: "- 1 \<le> ?r" using assms(1) by (simp add: socket_law_def)
  let ?s = "snd (set_fd ?r (snd (sys P (Sys_socket f t p) s)))"
  have inv: "sock_frame M ?s"
    using r assms(2,3) by (auto simp: sock_frame_def own_fds_def set_fd_apply sys_Val fd_use_ok_def)
  have "snd (makeSocket P f t p s) = snd (guard P ?r ''Socket::makeSocket() failed: '' ?s)"
    by (simp add: makeSocket_def bnd_case sys_Val set_fd_apply)
  then show ?thesis using keepsD [OF sock_inv_guard inv] by simp
qed

section \<open>What setSocket does with an address\<close>

lemma ConType_distinct [simp]: "BIND \<noteq> CONNECT" "CONNECT \<noteq> BIND"
  by (simp_all add: BIND_def CONNECT_def)

lemma setSocket_none:
  "leftmost proto_at address = None \<Longrightarrow>
    setSocket P address type = guard P (- 1) (''Socket UDS address invalide: '' @ address)"
  by (simp add: setSocket_def search_proto Let_def)

lemma setSocket_inet:
  assumes "leftmost proto_at address = Some (sch, body)" and "sch = ''udp'' \<or> sch = ''tcp''"
    and "inet_sockaddr P address = Val addr"
    and "type = CONNECT \<and> c = Sys_connect (socket_fd (self s)) (inet_bytes addr) \<or>
      type = BIND \<and> c = Sys_bind (socket_fd (self s)) (inet_bytes addr)"
  shows "setSocket P address type s =
    guard P (r_ret (fst (kernel P c (world s)))) ''Socket::bind() failed: '' (snd (sys P c s))"
  using assms
  by (auto simp: setSocket_def search_proto Let_def bnd_case lift_outcome_apply get_fd_apply sys_Val
      ret_apply)

lemma setSocket_unix:
  assumes "leftmost proto_at address = Some (''unix'', path)" and "unix_sockaddr P address = Val addr"
    and "type = CONNECT \<and> c = Sys_connect (socket_fd (self s)) (unix_bytes addr) \<and>
        msg = ''Socket UDS couldn't connect: '' \<or>
      type = BIND \<and> c = Sys_bind (socket_fd (self s)) (unix_bytes addr) \<and>
        msg = ''Socket UDS couldn't bind: ''"
  shows "setSocket P address type s =
    (let u = snd (sys P (Sys_unlink (c_str path)) s)
     in guard P (r_ret (fst (kernel P c (world u)))) msg (snd (sys P c u)))"
  using assms
  by (auto simp: setSocket_def search_proto Let_def bnd_case lift_outcome_apply get_fd_apply sys_Val
      ret_apply)

lemma calls_close:
  "map fst (trace (snd (Socket_close P s))) = map fst (trace s) @
    (if socket_fd (self s) = - 1 then [] else [Sys_close (socket_fd (self s))])"
  by (simp add: Socket_close_closed Socket_close_open sys_Val)

text \<open>A call followed by a guard on its result.\<close>

lemma guarded_call:
  "\<exists>r t. guard P (r_ret (fst (kernel P c (world s)))) msg (snd (sys P c s)) = (r, t) \<and>
    (if 0 \<le> r_ret (fst (kernel P c (world s)))
     then r = Val () \<and> self t = self s \<and> map fst (trace t) = map fst (trace s) @ [c]
     else (\<exists>text. r = Exn (Runtime_error text)) \<and> self t = (self s)\<lparr>socket_fd := - 1\<rparr> \<and>
       map fst (trace t) = map fst (trace s) @
         c # (if socket_fd (self s) = - 1 then [] else [Sys_close (socket_fd (self s))]))"
  by (auto simp: guard_fail ret_apply self_close sys_Val calls_close)

end
