(* ===== verification/Dgram_Socket.thy ===== *)
theory Dgram_Socket
  imports Socket_Base
begin

text \<open>
  The interface of a datagram socket, as the templates \<open>Subscriber\<close>, \<open>Publisher\<close>, \<open>Reply\<close> and
  \<open>Request\<close> use it of their parameter \<open>SOCKET\<close>, and its two implementations: \<open>SocketUDP\<close> of
  \<open>socket_udp.hpp\<close> and \<open>SocketUnix\<close> of \<open>socket_uds.hpp\<close>.
\<close>

section \<open>SocketUDP\<close>

definition SocketUDP_ctor :: "('w, 'p) platform_scheme \<Rightarrow> ('x, 'w, unit) sock_act" where
  "SocketUDP_ctor P = bnd Socket_ctor (\<lambda>_.
     on_throw (makeSocket P (uint AF_INET) SOCK_DGRAM 0) (Socket_dtor P))"

text \<open>
  \<open>from_addr\<close> is \<open>None\<close> for a null pointer; otherwise the structure it points to, which is
  zeroed and then written by the kernel, is returned with the message. A message that is neither
  a timeout nor empty keeps the size asked for, whatever number of bytes came in.
\<close>

definition SocketUDP_recvfrom ::
  "('w, 'p) platform_scheme \<Rightarrow> nat \<Rightarrow> inetaddr_t option \<Rightarrow> int \<Rightarrow>
    ('x, 'w, message_t \<times> inetaddr_t option) sock_act" where
  "SocketUDP_recvfrom P msg_size from_addr flags =
    bnd get_fd (\<lambda>fd.
    bnd (sys P (Sys_recvfrom fd msg_size flags (from_addr \<noteq> None))) (\<lambda>r.
    let dst = overwrite (replicate msg_size 0) (r_data r);
        from = (case from_addr of
                  None \<Rightarrow> None
                | Some a \<Rightarrow> Some (inet_view (overwrite (replicate sizeof_inet 0) (r_addr r))))
    in ret (if r_ret r = SOCKET_TIMEOUT \<or> r_ret r = 0 then [] else dst, from)))"

definition SocketUDP_recv ::
  "('w, 'p) platform_scheme \<Rightarrow> nat \<Rightarrow> int \<Rightarrow> ('x, 'w, message_t) sock_act" where
  "SocketUDP_recv P msg_size flags =
    bnd (SocketUDP_recvfrom P msg_size None flags) (\<lambda>(m, from). ret m)"

text \<open>The argument of \<open>guard\<close> is the truth value of a comparison, which is never negative.\<close>

definition SocketUDP_sendto ::
  "('w, 'p) platform_scheme \<Rightarrow> message_t \<Rightarrow> inetaddr_t \<Rightarrow> int \<Rightarrow> ('x, 'w, int) sock_act" where
  "SocketUDP_sendto P msg addr flags =
    bnd get_fd (\<lambda>fd.
    bnd (sys P (Sys_sendto fd msg flags (inet_bytes addr))) (\<lambda>r.
    bnd (guard P (of_bool (int (length msg) \<noteq> r_ret r)) ''sendto() sent incorrect number of bytes'') (\<lambda>_.
    ret (r_ret r))))"

section \<open>SocketUnix\<close>

definition SocketUnix_ctor :: "('w, 'p) platform_scheme \<Rightarrow> ('x, 'w, unit) sock_act" where
  "SocketUnix_ctor P = bnd Socket_ctor (\<lambda>_.
     on_throw (makeSocket P (uint AF_UNIX) SOCK_DGRAM 0) (Socket_dtor P))"

definition SocketUnix_recvfrom ::
  "('w, 'p) platform_scheme \<Rightarrow> nat \<Rightarrow> unixaddr_t option \<Rightarrow> int \<Rightarrow>
    ('x, 'w, message_t \<times> unixaddr_t option) sock_act" where
  "SocketUnix_recvfrom P msg_size from_addr flags = (case from_addr of
      None \<Rightarrow> ret ([], None)
    | Some a \<Rightarrow>
        bnd get_fd (\<lambda>fd.
        bnd (sys P (Sys_recvfrom fd msg_size flags True)) (\<lambda>r.
        let dst = overwrite (replicate msg_size 0) (r_data r);
            from = unix_view (overwrite (replicate sizeof_unix 0) (r_addr r))
        in ret (if r_ret r = SOCKET_TIMEOUT \<or> r_ret r = 0 then [] else dst, Some from))))"

definition SocketUnix_recv ::
  "('w, 'p) platform_scheme \<Rightarrow> nat \<Rightarrow> int \<Rightarrow> ('x, 'w, message_t) sock_act" where
  "SocketUnix_recv P msg_size flags =
    bnd get_fd (\<lambda>fd.
    bnd (sys P (Sys_recv fd msg_size flags)) (\<lambda>r.
    bnd (guard P (r_ret r) ''Unix recv: '') (\<lambda>_.
    ret (if r_ret r = SOCKET_TIMEOUT \<or> r_ret r = 0 then []
         else overwrite (replicate msg_size 0) (r_data r)))))"

definition SocketUnix_sendto ::
  "('w, 'p) platform_scheme \<Rightarrow> message_t \<Rightarrow> unixaddr_t \<Rightarrow> int \<Rightarrow> ('x, 'w, int) sock_act" where
  "SocketUnix_sendto P msg addr flags =
    bnd get_fd (\<lambda>fd.
    bnd (sys P (Sys_sendto fd msg flags (unix_bytes addr))) (\<lambda>r.
    bnd (guard P (of_bool (int (length msg) \<noteq> r_ret r)) ''sendto() sent incorrect number of bytes'') (\<lambda>_.
    ret (r_ret r))))"

section \<open>The interface\<close>

text \<open>
  What a client of either socket may rely on. Receiving with an address never throws and gives
  nothing or a message of the size asked for; sending never throws, is one system call on the
  object's descriptor and leaves the object alone; \<open>recv\<close> may throw, but what it returns has the
  size asked for. Every operation keeps the descriptor invariant.
\<close>

locale dgram_socket =
  fixes recv :: "nat \<Rightarrow> ('x, 'w, message_t) sock_act"
    and recvfrom :: "nat \<Rightarrow> 'addr option \<Rightarrow> ('x, 'w, message_t \<times> 'addr option) sock_act"
    and sendto :: "message_t \<Rightarrow> 'addr \<Rightarrow> ('x, 'w, int) sock_act"
    and addr_bytes :: "'addr \<Rightarrow> byte list"
  assumes recv_size: "fst (recv n s) = Val m \<Longrightarrow> m = [] \<or> length m = n"
    and recv_inv: "keeps (sock_frame M) (recv n)"
    and recv_obj: "keeps (same_or_closed obj) (recv n)"
    and recvfrom_total: "\<exists>m b t. recvfrom n (Some a) s = (Val (m, Some b), t) \<and>
      (m = [] \<or> length m = n) \<and> self t = self s"
    and recvfrom_inv: "keeps (sock_frame M) (recvfrom n from)"
    and sendto_total: "\<exists>num t. sendto m a s = (Val num, t) \<and> self t = self s \<and>
      trace t = trace s @ [(Sys_sendto (socket_fd (self s)) m 0 (addr_bytes a), num)]"
    and sendto_inv: "keeps (sock_frame M) (sendto m a)"
begin

lemma sendto_obj: "keeps (same_or_closed obj) (sendto m a)"
  by (rule keepsI) (metis sendto_total same_or_closed_def snd_conv)

lemma sendto_never_throws: "fst (sendto m a s) \<noteq> Exn e"
proof -
  obtain num t where "sendto m a s = (Val num, t)" using sendto_total [of m a s] by blast
  then show ?thesis by simp
qed

text \<open>Sending one message to several addresses, in order.\<close>

lemma send_all:
  "\<exists>nums t. for_each addrs (\<lambda>a. bnd (sendto m a) (\<lambda>_. ret ())) s = (Val (), t) \<and> self t = self s \<and>
    length nums = length addrs \<and>
    trace t = trace s @ map (\<lambda>(a, num). (Sys_sendto (socket_fd (self s)) m 0 (addr_bytes a), num))
      (zip addrs nums)"
proof (induction addrs arbitrary: s)
  case Nil
  show ?case by (simp add: ret_def)
next
  case (Cons a addrs)
  obtain num t where t: "sendto m a s = (Val num, t)" "self t = self s"
    "trace t = trace s @ [(Sys_sendto (socket_fd (self s)) m 0 (addr_bytes a), num)]"
    using sendto_total [of m a s] by blast
  obtain nums u where u: "for_each addrs (\<lambda>a. bnd (sendto m a) (\<lambda>_. ret ())) t = (Val (), u)"
    "self u = self t" "length nums = length addrs"
    "trace u = trace t @ map (\<lambda>(a, num). (Sys_sendto (socket_fd (self t)) m 0 (addr_bytes a), num))
      (zip addrs nums)"
    using Cons.IH [of t] by blast
  have "for_each (a # addrs) (\<lambda>a. bnd (sendto m a) (\<lambda>_. ret ())) s = (Val (), u)"
    using t(1) u(1) by (simp add: bnd_case ret_def)
  moreover have "trace u = trace s @
      map (\<lambda>(a, num). (Sys_sendto (socket_fd (self s)) m 0 (addr_bytes a), num))
        (zip (a # addrs) (num # nums))"
    using t(2,3) u(4) by simp
  ultimately show ?case using t(2) u(2,3) by (metis length_Cons)
qed

end

text \<open>A socket whose \<open>recv\<close> reports a timeout as an empty message, never by an exception.\<close>

locale quiet_socket = dgram_socket recv recvfrom sendto addr_bytes
  for recv :: "nat \<Rightarrow> ('x, 'w, message_t) sock_act"
    and recvfrom :: "nat \<Rightarrow> 'addr option \<Rightarrow> ('x, 'w, message_t \<times> 'addr option) sock_act"
    and sendto :: "message_t \<Rightarrow> 'addr \<Rightarrow> ('x, 'w, int) sock_act"
    and addr_bytes :: "'addr \<Rightarrow> byte list" +
  assumes recv_total: "\<exists>m t. recv n s = (Val m, t) \<and> self t = self s"
begin

lemma recv_cases: "\<exists>m t. recv n s = (Val m, t) \<and> self t = self s \<and> (m = [] \<or> length m = n)"
  using recv_total [of n s] recv_size [of n s] by fastforce

end

section \<open>SocketUDP implements the interface\<close>

lemma length_dst [simp]: "length (overwrite (replicate n (0 :: byte)) d) = n"
  by simp

lemma SocketUDP_recvfrom_eq:
  "SocketUDP_recvfrom P n from flags s =
    (let r = fst (kernel P (Sys_recvfrom (socket_fd (self s)) n flags (from \<noteq> None)) (world s))
     in (Val (if r_ret r = - 1 \<or> r_ret r = 0 then [] else overwrite (replicate n 0) (r_data r),
              map_option (\<lambda>_. inet_view (overwrite (replicate 16 0) (r_addr r))) from),
         snd (sys P (Sys_recvfrom (socket_fd (self s)) n flags (from \<noteq> None)) s)))"
  by (cases "from")
    (simp_all add: SocketUDP_recvfrom_def bnd_case get_fd_apply sys_Val ret_def Let_def
      SOCKET_TIMEOUT_def sizeof_inet_def)

lemma SocketUDP_recv_eq:
  "SocketUDP_recv P n flags s =
    (let r = fst (kernel P (Sys_recvfrom (socket_fd (self s)) n flags False) (world s))
     in (Val (if r_ret r = - 1 \<or> r_ret r = 0 then [] else overwrite (replicate n 0) (r_data r)),
         snd (sys P (Sys_recvfrom (socket_fd (self s)) n flags False) s)))"
  by (simp add: SocketUDP_recv_def bnd_case SocketUDP_recvfrom_eq Let_def ret_def)

lemma SocketUDP_sendto_eq:
  "SocketUDP_sendto P m a flags s =
    (let c = Sys_sendto (socket_fd (self s)) m flags (inet_bytes a)
     in (Val (r_ret (fst (kernel P c (world s)))), snd (sys P c s)))"
  by (simp add: SocketUDP_sendto_def bnd_case get_fd_apply sys_Val ret_def Let_def)

lemma self_sys [simp]: "self (snd (sys P c s)) = self s"
  by (simp add: sys_Val)

lemma trace_sys [simp]:
  "trace (snd (sys P c s)) = trace s @ [(c, r_ret (fst (kernel P c (world s))))]"
  by (simp add: sys_Val)

lemma SocketUDP_inv [keeps_intros]:
  "keeps (sock_frame M) (SocketUDP_recvfrom P n from flags)" "keeps (sock_frame M) (SocketUDP_recv P n flags)"
  "keeps (sock_frame M) (SocketUDP_sendto P m a flags)"
  by (auto intro!: keepsI sock_inv_sys
      simp: SocketUDP_recvfrom_eq SocketUDP_recv_eq SocketUDP_sendto_eq Let_def)

interpretation udp: quiet_socket
  "\<lambda>n. SocketUDP_recv P n 0" "\<lambda>n from. SocketUDP_recvfrom P n from 0"
  "\<lambda>m a. SocketUDP_sendto P m a 0" inet_bytes for P
  by unfold_locales
    (auto simp: SocketUDP_recvfrom_eq SocketUDP_recv_eq SocketUDP_sendto_eq Let_def keeps_def
      same_or_closed_def dest: keepsD [OF SocketUDP_inv(1)] keepsD [OF SocketUDP_inv(2)]
      keepsD [OF SocketUDP_inv(3)])

section \<open>SocketUnix implements the interface\<close>

lemma SocketUnix_recvfrom_None: "SocketUnix_recvfrom P n None flags s = (Val ([], None), s)"
  by (simp add: SocketUnix_recvfrom_def ret_def)

lemma SocketUnix_recvfrom_Some:
  "SocketUnix_recvfrom P n (Some a) flags s =
    (let r = fst (kernel P (Sys_recvfrom (socket_fd (self s)) n flags True) (world s))
     in (Val (if r_ret r = - 1 \<or> r_ret r = 0 then [] else overwrite (replicate n 0) (r_data r),
              Some (unix_view (overwrite (replicate 110 0) (r_addr r)))),
         snd (sys P (Sys_recvfrom (socket_fd (self s)) n flags True) s)))"
  by (simp add: SocketUnix_recvfrom_def bnd_case get_fd_apply sys_Val ret_def Let_def
      SOCKET_TIMEOUT_def sizeof_unix_def)

text \<open>\<open>SocketUnix::recv\<close> guards the number of bytes, so a timeout closes the socket and throws.\<close>

lemma SocketUnix_recv_fail:
  assumes "r_ret (fst (kernel P (Sys_recv (socket_fd (self s)) n flags) (world s))) < 0"
  shows "SocketUnix_recv P n flags s =
    (let t = snd (sys P (Sys_recv (socket_fd (self s)) n flags) s); msg = failure P ''Unix recv: '' t
     in (Exn (Runtime_error msg),
         (snd (Socket_close P t))\<lparr>cout := cout (snd (Socket_close P t)) @ [msg]\<rparr>))"
  using assms by (simp add: SocketUnix_recv_def bnd_case get_fd_apply sys_Val guard_fail Let_def)

lemma SocketUnix_recv_ok:
  assumes "0 \<le> r_ret (fst (kernel P (Sys_recv (socket_fd (self s)) n flags) (world s)))"
  shows "SocketUnix_recv P n flags s =
    (let r = fst (kernel P (Sys_recv (socket_fd (self s)) n flags) (world s))
     in (Val (if r_ret r = 0 then [] else overwrite (replicate n 0) (r_data r)),
         snd (sys P (Sys_recv (socket_fd (self s)) n flags) s)))"
  using assms by (simp add: SocketUnix_recv_def bnd_case get_fd_apply sys_Val ret_def Let_def
      SOCKET_TIMEOUT_def)

lemma SocketUnix_sendto_eq:
  "SocketUnix_sendto P m a flags s =
    (let c = Sys_sendto (socket_fd (self s)) m flags (unix_bytes a)
     in (Val (r_ret (fst (kernel P c (world s)))), snd (sys P c s)))"
  by (simp add: SocketUnix_sendto_def bnd_case get_fd_apply sys_Val ret_def Let_def)

lemma SocketUnix_recv_size: "fst (SocketUnix_recv P n flags s) = Val m \<Longrightarrow> m = [] \<or> length m = n"
  by (cases "r_ret (fst (kernel P (Sys_recv (socket_fd (self s)) n flags) (world s))) < 0")
    (auto simp: SocketUnix_recv_fail SocketUnix_recv_ok guard_fail Let_def)

lemma SocketUnix_inv [keeps_intros]:
  "keeps (sock_frame M) (SocketUnix_recv P n flags)" "keeps (sock_frame M) (SocketUnix_recvfrom P n from flags)"
  "keeps (sock_frame M) (SocketUnix_sendto P m a flags)"
proof -
  show "keeps (sock_frame M) (SocketUnix_recv P n flags)"
    unfolding SocketUnix_recv_def by (intro keeps_intros own_call_simps)
  show "keeps (sock_frame M) (SocketUnix_recvfrom P n from flags)"
    by (cases "from") (auto intro!: keepsI sock_inv_sys
        simp: SocketUnix_recvfrom_None SocketUnix_recvfrom_Some Let_def)
  show "keeps (sock_frame M) (SocketUnix_sendto P m a flags)"
    by (auto intro!: keepsI sock_inv_sys simp: SocketUnix_sendto_eq Let_def)
qed

lemma closes_SocketUDP [closes_intros]:
  "only_failure_closes (SocketUDP_recvfrom P n from flags)"
  "only_failure_closes (SocketUDP_recv P n flags)"
  "only_failure_closes (SocketUDP_sendto P m a flags)"
  by (simp_all add: only_failure_closes_def SocketUDP_recvfrom_eq SocketUDP_recv_eq
      SocketUDP_sendto_eq Let_def)

lemma closes_SocketUnix [closes_intros]:
  "only_failure_closes (SocketUnix_recv P n flags)"
  "only_failure_closes (SocketUnix_recvfrom P n from flags')"
  "only_failure_closes (SocketUnix_sendto P m b flags')"
proof -
  show "only_failure_closes (SocketUnix_recv P n flags)"
    unfolding SocketUnix_recv_def by (intro closes_intros)
  show "only_failure_closes (SocketUnix_recvfrom P n from flags')"
    by (cases "from") (simp_all add: only_failure_closes_def SocketUnix_recvfrom_None
        SocketUnix_recvfrom_Some Let_def)
  show "only_failure_closes (SocketUnix_sendto P m b flags')"
    by (simp add: only_failure_closes_def SocketUnix_sendto_eq Let_def)
qed

interpretation uds: dgram_socket
  "\<lambda>n. SocketUnix_recv P n 0" "\<lambda>n from. SocketUnix_recvfrom P n from 0"
  "\<lambda>m a. SocketUnix_sendto P m a 0" unix_bytes for P
  by unfold_locales
    (auto simp: SocketUnix_recvfrom_Some SocketUnix_sendto_eq Let_def
      dest: SocketUnix_recv_size intro!: SocketUnix_inv closes_same_or_closed closes_SocketUnix)

end
