(* ===== verification/Socket_BC.thy ===== *)
theory Socket_BC
  imports Dgram_Socket
begin

text \<open>
  Component \<open>socket_bc.hpp\<close>: \<open>SocketBC\<close>, a UDP socket that sends to the broadcast address of
  one port.
\<close>

record SocketBC = Socket +
  bc_addr :: inetaddr_t

text \<open>
  The constructor: the base first; if the body throws, the destructors of the bases run, which
  close the descriptor.
\<close>

definition SocketBC_ctor ::
  "('w, 'p) platform_scheme \<Rightarrow> 16 word \<Rightarrow> (('y SocketBC_scheme, 'w) mach, unit) act" where
  "SocketBC_ctor P port =
    bnd (SocketUDP_ctor P) (\<lambda>_.
    on_throw
      (bnd (setsockopt P SOL_SOCKET SO_BROADCAST 1) (\<lambda>_.
       bnd (setsockopt P IPPROTO_IP IP_MULTICAST_LOOP 1) (\<lambda>_.
       bnd (lift_outcome (inet_sockaddr P (''udp://bc:'' @ to_string (uint port)))) (\<lambda>addr.
       modify (\<lambda>s. s\<lparr>self := (self s)\<lparr>bc_addr := addr\<rparr>\<rparr>)))))
      (Socket_dtor P))"

definition SocketBC_cast ::
  "('w, 'p) platform_scheme \<Rightarrow> message_t \<Rightarrow> (('y SocketBC_scheme, 'w) mach, int) act" where
  "SocketBC_cast P msg =
    bnd (gets (\<lambda>s. bc_addr (self s))) (\<lambda>addr. SocketUDP_sendto P msg addr 0)"

section \<open>The broadcast address\<close>

lemma bc_address:
  assumes "frame_intact P"
  shows "inet_sockaddr P (''udp://bc:'' @ to_string (uint (port :: 16 word))) =
    Val (inet_of INADDR_BROADCAST port)"
proof -
  have ip: "ip_text ''bc''" by (simp add: ip_text_def in_class_def ip_class_def)
  have "uint port < 2 ^ 16" using unsigned_less [of port, where 'a = int] by simp
  then have "int (unat port) \<le> INT_MAX" by (simp add: INT_MAX_def)
  from inet_sockaddr_host_port [OF assms _ ip this, of "''udp''"]
  show ?thesis by (simp add: to_string_def host_addr_def)
qed

text \<open>
  The bytes of a broadcast address on the wire: the family, the port in network order, the
  address 255.255.255.255.
\<close>

lemma bc_bytes:
  "inet_bytes (inet_of INADDR_BROADCAST port) =
    le16 AF_INET @ rev (le16 port) @ [255, 255, 255, 255] @ replicate 8 0"
  by (simp add: inet_bytes_def inet_of_def le16_htons INADDR_BROADCAST_def le32_def)

lemma cast_eq:
  "SocketBC_cast P msg s = SocketUDP_sendto P msg (bc_addr (self s)) 0 s"
  by (simp add: SocketBC_cast_def bnd_case gets_apply)

section \<open>The constructor\<close>

text \<open>The guarded calls of a constructor: each goes on only if the kernel accepted it.\<close>

lemma setsockopt_eq:
  "setsockopt P l n v s =
    (let c = Sys_setsockopt (socket_fd (self s)) l n (Opt_int v)
     in guard P (r_ret (fst (kernel P c (world s)))) ''setsockopt(): '' (snd (sys P c s)))"
  by (simp add: setsockopt_def bnd_case get_fd_apply sys_Val Let_def)

lemma guard_Val_iff: "guard P err msg s = (Val (), t) \<longleftrightarrow> 0 \<le> err \<and> t = s"
  by (cases "0 \<le> err") (auto simp: ret_apply guard_fail)

lemma setsockopt_Val:
  "setsockopt P l n v s = (Val (), t) \<Longrightarrow>
    self t = self s \<and>
    map fst (trace t) = map fst (trace s) @ [Sys_setsockopt (socket_fd (self s)) l n (Opt_int v)]"
  by (auto simp: setsockopt_eq Let_def guard_Val_iff)

lemma on_throw_Val: "on_throw m c s = (Val x, t) \<longleftrightarrow> m s = (Val x, t)"
  by (cases "m s"; cases "fst (m s)") (auto simp: on_throw_def)

lemma SocketUDP_ctor_Val:
  assumes "SocketUDP_ctor P s = (Val (), t)"
  shows "0 \<le> socket_fd (self t) \<and> map fst (trace t) = map fst (trace s) @ [Sys_socket 2 2 0]"
  using assms
  by (auto simp: SocketUDP_ctor_def Socket_ctor_def makeSocket_def bnd_Val_iff on_throw_Val set_fd_apply
      sys_Val guard_Val_iff AF_INET_def SOCK_DGRAM_def)

lemma SocketBC_ctor_built:
  assumes "frame_intact P" and "SocketBC_ctor P port s = (Val (), t)"
  shows "0 \<le> socket_fd (self t) \<and> bc_addr (self t) = inet_of INADDR_BROADCAST port \<and>
    map fst (trace t) = map fst (trace s) @
      [Sys_socket 2 2 0, Sys_setsockopt (socket_fd (self t)) 1 6 (Opt_int 1),
       Sys_setsockopt (socket_fd (self t)) 0 34 (Opt_int 1)]"
proof -
  from assms(2) obtain u v w where u: "SocketUDP_ctor P s = (Val (), u)"
    and v: "setsockopt P SOL_SOCKET SO_BROADCAST 1 u = (Val (), v)"
    and w: "setsockopt P IPPROTO_IP IP_MULTICAST_LOOP 1 v = (Val (), w)"
    and t: "t = w\<lparr>self := (self w)\<lparr>bc_addr := inet_of INADDR_BROADCAST port\<rparr>\<rparr>"
    using bc_address [OF assms(1), of port]
    by (auto simp: SocketBC_ctor_def bnd_Val_iff on_throw_Val lift_outcome_apply modify_apply)
  from SocketUDP_ctor_Val [OF u] setsockopt_Val [OF v] setsockopt_Val [OF w] show ?thesis
    by (simp add: t SOL_SOCKET_def SO_BROADCAST_def IPPROTO_IP_def IP_MULTICAST_LOOP_def)
qed

end
