(* ===== verification/Lifetime.thy ===== *)
theory Lifetime
  imports Socket_BC
begin

text \<open>
  The whole life of a socket object, as an application sees it: construction, any sequence of
  member calls whose exceptions it catches, destruction. The life cycle of the descriptor is the
  abstract specification, and the sockets of the library implement it.
\<close>

section \<open>Member calls\<close>

text \<open>The public member functions of \<open>Socket\<close>, and what the two sockets add to them.\<close>

datatype base_call =
    Call_close
  | Call_getSocketFD
  | Call_settimeout int
  | Call_setnonblocking bool
  | Call_setsockopt int int int
  | Call_getsockname
  | Call_available
  | Call_availableForWrite
  | Call_reuseSocket bool
  | Call_bind string
  | Call_connect string

datatype 'addr member_call =
    Base base_call
  | Call_recv nat int
  | Call_recvfrom nat "'addr option" int
  | Call_sendto message_t 'addr int

definition ignore :: "('s, 'a) act \<Rightarrow> ('s, unit) act" where
  "ignore m = bnd m (\<lambda>_. ret ())"

fun run_base :: "('w, 'p) platform_scheme \<Rightarrow> base_call \<Rightarrow> ('x, 'w, unit) sock_act" where
  "run_base P Call_close = Socket_close P"
| "run_base P Call_getSocketFD = ignore getSocketFD"
| "run_base P (Call_settimeout ms) = settimeout P ms"
| "run_base P (Call_setnonblocking v) = setnonblocking P v"
| "run_base P (Call_setsockopt l n v) = setsockopt P l n v"
| "run_base P Call_getsockname = ignore (getsockname P)"
| "run_base P Call_available = ignore (available P)"
| "run_base P Call_availableForWrite = ignore (availableForWrite P)"
| "run_base P (Call_reuseSocket e) = reuseSocket P e"
| "run_base P (Call_bind a) = Socket_bind P a"
| "run_base P (Call_connect a) = Socket_connect P a"

fun run_udp ::
  "('w, 'p) platform_scheme \<Rightarrow> inetaddr_t member_call \<Rightarrow> ('x, 'w, unit) sock_act" where
  "run_udp P (Base c) = run_base P c"
| "run_udp P (Call_recv n flags) = ignore (SocketUDP_recv P n flags)"
| "run_udp P (Call_recvfrom n from flags) = ignore (SocketUDP_recvfrom P n from flags)"
| "run_udp P (Call_sendto m a flags) = ignore (SocketUDP_sendto P m a flags)"

fun run_unix ::
  "('w, 'p) platform_scheme \<Rightarrow> unixaddr_t member_call \<Rightarrow> ('x, 'w, unit) sock_act" where
  "run_unix P (Base c) = run_base P c"
| "run_unix P (Call_recv n flags) = ignore (SocketUnix_recv P n flags)"
| "run_unix P (Call_recvfrom n from flags) = ignore (SocketUnix_recvfrom P n from flags)"
| "run_unix P (Call_sendto m a flags) = ignore (SocketUnix_sendto P m a flags)"

text \<open>
  \<open>SocketBC\<close> adds \<open>cast\<close>. It deletes \<open>bind\<close> and \<open>connect\<close>, and the two sockets delete \<open>connect\<close>; these can
  still be called through a reference to \<open>Socket\<close>, so they stay in the list.
\<close>

datatype bc_call = Udp "inetaddr_t member_call" | Call_cast message_t

fun run_bc :: "('w, 'p) platform_scheme \<Rightarrow> bc_call \<Rightarrow> (('y SocketBC_scheme, 'w) mach, unit) act" where
  "run_bc P (Udp c) = run_udp P c"
| "run_bc P (Call_cast m) = ignore (SocketBC_cast P m)"

section \<open>The life cycle\<close>

datatype life = Open int | Closed

definition life_of :: "'x Socket_scheme \<Rightarrow> life" where
  "life_of obj = (if socket_fd obj = - 1 then Closed else Open (socket_fd obj))"

text \<open>
  The specification of one member call: \<open>close\<close> closes, a run-time error closes, anything else
  leaves the life cycle where it is. No call leaves \<open>Closed\<close>.
\<close>

fun life_step :: "bool \<Rightarrow> 'a outcome \<Rightarrow> life \<Rightarrow> life" where
  "life_step is_close (Exn (Runtime_error text)) l = Closed"
| "life_step is_close r l = (if is_close then Closed else l)"

lemma life_of_closed [simp]: "life_of (obj\<lparr>socket_fd := - 1\<rparr>) = Closed"
  by (simp add: life_of_def)

lemma life_step_refines:
  "only_failure_closes m \<Longrightarrow> life_of (self (snd (m s))) = life_step False (fst (m s)) (life_of (self s))"
  by (simp add: only_failure_closes_def after_result_def split: outcome.split exn.split)

lemma closes_ignore [closes_intros]: "only_failure_closes m \<Longrightarrow> only_failure_closes (ignore m)"
  unfolding ignore_def by (intro closes_intros)

lemma keeps_ignore [keeps_intros]: "keeps I m \<Longrightarrow> keeps I (ignore m)"
  unfolding ignore_def by (intro keeps_intros)

lemma closes_base: "c \<noteq> Call_close \<Longrightarrow> only_failure_closes (run_base P c)"
  by (cases c) (auto simp: Socket_bind_def Socket_connect_def getSocketFD_def intro!: closes_intros)

lemma run_base_inv [keeps_intros]: "keeps (sock_frame M) (run_base P c)"
  by (cases c) (auto simp: Socket_bind_def Socket_connect_def getSocketFD_def intro!: keeps_intros)

lemma base_refines:
  "life_of (self (snd (run_base P c s))) =
    life_step (c = Call_close) (fst (run_base P c s)) (life_of (self s))"
proof (cases "c = Call_close")
  case True
  then show ?thesis by (simp add: self_close Socket_close_Val)
qed (simp add: life_step_refines closes_base)

lemma bind_Val_self: "Socket_bind P a s = (Val (), t) \<Longrightarrow> self t = self s"
  using only_failure_closesD [OF closes_base, of "Call_bind a" P s] by simp

lemma run_udp_inv [keeps_intros]: "keeps (sock_frame M) (run_udp P c)"
  by (cases c) (auto intro!: keeps_intros)

lemma run_unix_inv [keeps_intros]: "keeps (sock_frame M) (run_unix P c)"
  by (cases c) (auto intro!: keeps_intros)

lemma run_bc_inv [keeps_intros]: "keeps (sock_frame M) (run_bc P c)"
  by (cases c) (auto simp: SocketBC_cast_def intro!: keeps_intros)

section \<open>Construction\<close>

lemma Socket_ctor_start:
  "trace_ok (trace s) \<Longrightarrow> live (trace s) = M \<Longrightarrow> sock_frame M (snd (Socket_ctor s))"
  by (simp add: Socket_ctor_def set_fd_apply sock_frame_def own_fds_def SOCKET_ERR_def)

lemma on_throw_inv:
  "sock_frame M (snd (m s)) \<Longrightarrow> sock_frame M (snd (on_throw m (Socket_dtor P) s))"
  by (cases "m s"; cases "fst (m s)") (simp_all add: on_throw_def Socket_dtor_def sock_inv_close_state)

lemma make_start:
  assumes "socket_law P" and "trace_ok (trace s)" and "live (trace s) = M"
  shows "sock_frame M (snd (bnd Socket_ctor (\<lambda>_. on_throw (makeSocket P f t p) (Socket_dtor P)) s))"
  using makeSocket_inv [OF assms(1), of "snd (Socket_ctor s)"] assms(2,3)
  by (auto simp: bnd_case Socket_ctor_def set_fd_apply intro!: on_throw_inv)

lemma on_throw_closed:
  "fst (on_throw m (Socket_dtor P) s) = Exn e \<Longrightarrow>
    socket_fd (self (snd (on_throw m (Socket_dtor P) s))) = - 1"
  by (cases "m s"; cases "fst (m s)") (simp_all add: on_throw_def Socket_dtor_def Socket_close_fd)

lemma make_throws_closed:
  "fst (bnd Socket_ctor (\<lambda>_. on_throw m (Socket_dtor P)) s) = Exn e \<Longrightarrow>
    socket_fd (self (snd (bnd Socket_ctor (\<lambda>_. on_throw m (Socket_dtor P)) s))) = - 1"
  using on_throw_closed [of m P] by (simp add: bnd_case Socket_ctor_def set_fd_apply)

lemma sock_inv_set_bc [keeps_intros]:
  "keeps (sock_frame M) (modify (\<lambda>s. s\<lparr>self := (self s)\<lparr>bc_addr := a\<rparr>\<rparr>))"
  by (simp add: keeps_def modify_apply sock_frame_def own_fds_def)

lemma SocketBC_ctor_body_inv:
  assumes "keeps (sock_frame M) body" and "sock_frame M (snd (SocketUDP_ctor P s))"
  shows "sock_frame M (snd (bnd (SocketUDP_ctor P) (\<lambda>_. on_throw body (Socket_dtor P)) s))"
proof -
  have "sock_frame M (snd (on_throw body (Socket_dtor P) (snd (SocketUDP_ctor P s))))"
    by (rule on_throw_inv) (rule keepsD [OF assms])
  then show ?thesis using assms(2) by (simp add: bnd_case split: outcome.split)
qed

section \<open>A life\<close>

text \<open>
  The exceptions of the calls are caught; undefined behaviour ends the program, and with it the
  claim.
\<close>

fun run_calls :: "('c \<Rightarrow> ('x, 'w, unit) sock_act) \<Rightarrow> 'c list \<Rightarrow> ('x, 'w, unit) sock_act" where
  "run_calls run [] s = (Val (), s)"
| "run_calls run (c # cs) s = (case run c s of
      (Undef u, t) \<Rightarrow> (Undef u, t)
    | (Val x, t) \<Rightarrow> run_calls run cs t
    | (Exn e, t) \<Rightarrow> run_calls run cs t)"

definition lifetime ::
  "('w, 'p) platform_scheme \<Rightarrow> ('x, 'w, unit) sock_act \<Rightarrow> ('c \<Rightarrow> ('x, 'w, unit) sock_act) \<Rightarrow>
    'c list \<Rightarrow> ('x, 'w, unit) sock_act" where
  "lifetime P ctor run cs = bnd ctor (\<lambda>_. bnd (run_calls run cs) (\<lambda>_. Socket_dtor P))"

lemma run_calls_keeps: "(\<And>c. c \<in> set cs \<Longrightarrow> keeps I (run c)) \<Longrightarrow> keeps I (run_calls run cs)"
proof (induction cs)
  case Nil
  then show ?case by (simp add: keeps_def)
next
  case (Cons c cs)
  then have tail: "keeps I (run_calls run cs)" and head: "keeps I (run c)" by simp_all
  have "I (snd (run_calls run (c # cs) s))" if "I s" for s
    using keepsD [OF tail keepsD [OF head that]] keepsD [OF head that]
    by (cases "run c s"; cases "fst (run c s)") simp_all
  then show ?case by (rule keepsI)
qed

lemma run_calls_no_throw: "fst (run_calls run cs s) \<noteq> Exn e"
proof (induction cs arbitrary: s)
  case (Cons c cs)
  then show ?case by (cases "run c s"; cases "fst (run c s)") simp_all
qed simp

text \<open>A socket class as its owner sees it.\<close>

locale owned_socket =
  fixes P :: "('w, 'p) platform_scheme"
    and ctor :: "('x, 'w, unit) sock_act"
    and run :: "'c \<Rightarrow> ('x, 'w, unit) sock_act"
  assumes ctor_inv: "socket_law P \<Longrightarrow> trace_ok (trace s) \<Longrightarrow> live (trace s) = M \<Longrightarrow>
      sock_frame M (snd (ctor s))"
    and ctor_throws: "fst (ctor s) = Exn e \<Longrightarrow> socket_fd (self (snd (ctor s))) = - 1"
    and run_inv: "keeps (sock_frame M) (run c)"
begin

lemma lifetime_ok:
  assumes "socket_law P" and "trace_ok (trace s)" and "live (trace s) = M"
  shows "sock_frame M (snd (lifetime P ctor run cs s))"
proof (cases "fst (ctor s)")
  case (Val u)
  have "sock_frame M (snd (ctor s))" by (rule ctor_inv [OF assms])
  moreover have "keeps (sock_frame M) (bnd (run_calls run cs) (\<lambda>_. Socket_dtor P))"
    unfolding Socket_dtor_def by (intro keeps_intros run_calls_keeps run_inv)
  ultimately show ?thesis using Val by (simp add: lifetime_def bnd_case keeps_def)
qed (use ctor_inv [OF assms] in \<open>simp_all add: lifetime_def bnd_case\<close>)

lemma lifetime_released:
  assumes "socket_law P" and "trace_ok (trace s)" and "live (trace s) = M"
    and "\<And>u. fst (lifetime P ctor run cs s) \<noteq> Undef u"
  shows "live (trace (snd (lifetime P ctor run cs s))) = M"
proof -
  have "socket_fd (self (snd (lifetime P ctor run cs s))) = - 1"
  proof (cases "fst (ctor s)")
    case (Val u)
    have "fst (run_calls run cs (snd (ctor s))) \<noteq> Undef b" for b
      using assms(4) [of b] Val by (auto simp: lifetime_def bnd_case)
    then obtain v where "fst (run_calls run cs (snd (ctor s))) = Val v"
      using run_calls_no_throw by (metis outcome.exhaust)
    with Val show ?thesis by (simp add: lifetime_def bnd_case Socket_dtor_def Socket_close_fd)
  next
    case (Exn e)
    then show ?thesis using ctor_throws by (simp add: lifetime_def bnd_case)
  next
    case (Undef u)
    then show ?thesis using assms(4) [of u] by (simp add: lifetime_def bnd_case)
  qed
  with lifetime_ok [OF assms(1-3)] show ?thesis by (simp add: sock_frame_def own_fds_def)
qed

end

interpretation owned_udp: owned_socket P "SocketUDP_ctor P" "run_udp P" for P
  by unfold_locales
    (auto simp: SocketUDP_ctor_def intro: make_start make_throws_closed run_udp_inv)

interpretation owned_unix: owned_socket P "SocketUnix_ctor P" "run_unix P" for P
  by unfold_locales
    (auto simp: SocketUnix_ctor_def intro: make_start make_throws_closed run_unix_inv)

lemma SocketBC_ctor_inv:
  assumes "socket_law P" and "trace_ok (trace s)" and "live (trace s) = M"
  shows "sock_frame M (snd (SocketBC_ctor P port s))"
  unfolding SocketBC_ctor_def
  by (rule SocketBC_ctor_body_inv [OF _ owned_udp.ctor_inv [OF assms]]) (intro keeps_intros)

lemma SocketBC_ctor_throws:
  assumes "fst (SocketBC_ctor P port s) = Exn e"
  shows "socket_fd (self (snd (SocketBC_ctor P port s))) = - 1"
proof (cases "fst (SocketUDP_ctor P s)")
  case (Exn e')
  then show ?thesis using owned_udp.ctor_throws [OF Exn] by (simp add: SocketBC_ctor_def bnd_case)
next
  case (Val u)
  then show ?thesis
    using assms by (auto simp: SocketBC_ctor_def bnd_case [of "SocketUDP_ctor P"] intro: on_throw_closed)
next
  case (Undef u)
  then show ?thesis using assms by (simp add: SocketBC_ctor_def bnd_case)
qed

interpretation owned_bc: owned_socket P "SocketBC_ctor P port" "run_bc P" for P port
  by unfold_locales (auto intro: SocketBC_ctor_inv SocketBC_ctor_throws run_bc_inv)

end
