(* ===== verification/Loops.thy ===== *)
theory Loops
  imports Prelude
begin

text \<open>
  The two loops every endpoint has: \<open>while (true) once();\<close> and
  \<open>while (event.is_set()) once();\<close>. Both may run for ever, so not returning is the value
  \<open>None\<close>. The flag of the event is changed by other threads: \<open>is_set i\<close> is what the loop's
  \<open>i\<close>-th test of it reads.
\<close>

partial_function (option) loop_forever ::
  "('s, unit) act \<Rightarrow> 's \<Rightarrow> (unit outcome \<times> 's) option" where
  "loop_forever once s = (case once s of
      (Val u, t) \<Rightarrow> loop_forever once t
    | (Exn e, t) \<Rightarrow> Some (Exn e, t)
    | (Undef b, t) \<Rightarrow> Some (Undef b, t))"

partial_function (option) loop_event ::
  "(nat \<Rightarrow> bool) \<Rightarrow> ('s, unit) act \<Rightarrow> nat \<Rightarrow> 's \<Rightarrow> (unit outcome \<times> 's) option" where
  "loop_event is_set once i s =
    (if is_set i then
       (case once s of
          (Val u, t) \<Rightarrow> loop_event is_set once (Suc i) t
        | (Exn e, t) \<Rightarrow> Some (Exn e, t)
        | (Undef b, t) \<Rightarrow> Some (Undef b, t))
     else Some (Val (), s))"

text \<open>A number of iterations.\<close>

fun iterate :: "nat \<Rightarrow> ('s, unit) act \<Rightarrow> ('s, unit) act" where
  "iterate 0 once = ret ()"
| "iterate (Suc n) once = bnd once (\<lambda>_. iterate n once)"

lemma iterate_0 [act_simps]: "iterate 0 once s = (Val (), s)"
  by (simp add: ret_def)

lemma iterate_Suc_Val:
  "iterate (Suc n) once s = (Val (), u) \<longleftrightarrow> (\<exists>t. once s = (Val (), t) \<and> iterate n once t = (Val (), u))"
  by (simp add: bnd_Val_iff)

lemma keeps_iterate [keeps_intros]: "keeps I once \<Longrightarrow> keeps I (iterate n once)"
  by (induction n) (auto intro: keeps_intros)

declare iterate.simps(2) [simp del]

lemma loop_forever_iterate:
  "iterate n once s = (Val (), t) \<Longrightarrow> loop_forever once s = loop_forever once t"
proof (induction n arbitrary: s)
  case 0
  then show ?case by (simp add: ret_def)
next
  case (Suc n)
  then obtain s' where "once s = (Val (), s')" and "iterate n once s' = (Val (), t)"
    by (auto simp: iterate_Suc_Val)
  with Suc.IH show ?case by (simp add: loop_forever.simps [of once s])
qed

lemma loop_forever_throws:
  assumes "iterate n once s = (Val (), t)" and "once t = (Exn e, u)"
  shows "loop_forever once s = Some (Exn e, u)"
  using assms(2) by (simp add: loop_forever_iterate [OF assms(1)] loop_forever.simps [of once t])

lemma loop_forever_abnormal:
  fixes once :: "('s, unit) act"
  assumes ret: "loop_forever once s = Some r"
  shows "fst r \<noteq> Val ()"
proof (rule loop_forever.raw_induct [where P = "\<lambda>once s r. fst r \<noteq> Val ()", OF _ ret])
  fix f :: "('s, unit) act \<Rightarrow> 's \<Rightarrow> (unit outcome \<times> 's) option" and once s r
  assume IH: "\<And>once s r. f once s = Some r \<Longrightarrow> fst r \<noteq> Val ()"
    and "(case once s of (Val u, t) \<Rightarrow> f once t | (Exn e, t) \<Rightarrow> Some (Exn e, t)
      | (Undef b, t) \<Rightarrow> Some (Undef b, t)) = Some r"
  then show "fst r \<noteq> Val ()" by (cases "once s"; cases "fst (once s)") auto
qed

text \<open>If every iteration from a state of an invariant returns into it, the loop never ends.\<close>

lemma loop_forever_diverges:
  fixes once :: "('s, unit) act"
  assumes step: "\<And>s. I s \<Longrightarrow> \<exists>t. once s = (Val (), t) \<and> I t" and "I s"
  shows "loop_forever once s = None"
proof -
  have "loop_forever c s = Some r \<Longrightarrow> c = once \<longrightarrow> \<not> I s" for c r
  proof (rule loop_forever.raw_induct [where P = "\<lambda>c s r. c = once \<longrightarrow> \<not> I s"])
    fix f :: "('s, unit) act \<Rightarrow> 's \<Rightarrow> (unit outcome \<times> 's) option" and c s r
    assume IH: "\<And>c s r. f c s = Some r \<Longrightarrow> c = once \<longrightarrow> \<not> I s"
      and eq: "(case c s of (Val u, t) \<Rightarrow> f c t | (Exn e, t) \<Rightarrow> Some (Exn e, t)
        | (Undef b, t) \<Rightarrow> Some (Undef b, t)) = Some r"
    show "c = once \<longrightarrow> \<not> I s"
    proof (intro impI notI)
      assume "c = once" and "I s"
      then obtain t where "once s = (Val (), t)" and "I t" using step by blast
      with eq \<open>c = once\<close> IH show False by auto
    qed
  qed
  with assms(2) show ?thesis by (cases "loop_forever once s") auto
qed

lemma loop_event_stops:
  "\<not> is_set i \<Longrightarrow> loop_event is_set once i s = Some (Val (), s)"
  by (simp add: loop_event.simps)

lemma loop_event_returns:
  assumes "\<forall>k < n. is_set (i + k)" and "\<not> is_set (i + n)" and "iterate n once s = (Val (), t)"
  shows "loop_event is_set once i s = Some (Val (), t)"
  using assms
proof (induction n arbitrary: i s)
  case 0
  then show ?case by (simp add: loop_event_stops ret_def)
next
  case (Suc n)
  then obtain s' where "once s = (Val (), s')" and "iterate n once s' = (Val (), t)"
    by (auto simp: iterate_Suc_Val)
  moreover have "is_set i" using Suc.prems(1) by (metis add.right_neutral zero_less_Suc)
  moreover have "loop_event is_set once (Suc i) s' = Some (Val (), t)"
    using Suc.prems calculation(2) by (intro Suc.IH) auto
  ultimately show ?case by (simp add: loop_event.simps [of is_set once i])
qed

lemma loop_event_throws:
  assumes "\<forall>k \<le> n. is_set (i + k)" and "iterate n once s = (Val (), t)" and "once t = (Exn e, u)"
  shows "loop_event is_set once i s = Some (Exn e, u)"
  using assms
proof (induction n arbitrary: i s)
  case 0
  then show ?case by (simp add: loop_event.simps [of is_set once i] ret_def)
next
  case (Suc n)
  then obtain s' where "once s = (Val (), s')" and "iterate n once s' = (Val (), t)"
    by (auto simp: iterate_Suc_Val)
  moreover have "is_set i" using Suc.prems(1) by (metis add.right_neutral zero_le)
  moreover have "loop_event is_set once (Suc i) s' = Some (Exn e, u)"
    using Suc.prems calculation(2) by (intro Suc.IH) auto
  ultimately show ?case by (simp add: loop_event.simps [of is_set once i])
qed

end
