(* ===== verification/Event_Flag.thy ===== *)
theory Event_Flag
  imports Prelude
begin

text \<open>
  Component \<open>event.hpp\<close>: the class \<open>Event\<close>, an \<open>std::atomic_flag\<close>, with the threads that block
  in \<open>wait\<close> as a step relation.
\<close>

record Event =
  flag :: bool

definition Event_ctor :: Event where
  "Event_ctor = \<lparr>flag = False\<rparr>"

definition Event_set :: "Event \<Rightarrow> Event" where
  "Event_set e = e\<lparr>flag := True\<rparr>"

definition Event_clear :: "Event \<Rightarrow> Event" where
  "Event_clear e = e\<lparr>flag := False\<rparr>"

definition Event_is_set :: "Event \<Rightarrow> bool" where
  "Event_is_set e = flag e"

section \<open>Threads that wait\<close>

text \<open>
  \<open>flag.wait(val)\<close> of C++20: it compares the flag with \<open>val\<close> and returns at once if they differ;
  otherwise the thread blocks until it is woken, by an atomic notifying operation or spuriously,
  and compares again. The class calls no notifying operation, so the only wake-ups are spurious;
  \<open>spurious\<close> says whether the implementation has them.
\<close>

datatype waiter = Running | Blocked bool | Returned bool

record event_system =
  event :: Event
  threads :: "nat \<Rightarrow> waiter"

definition event_init :: event_system where
  "event_init = \<lparr>event = Event_ctor, threads = (\<lambda>_. Running)\<rparr>"

definition Event_wait :: "Event \<Rightarrow> bool \<Rightarrow> waiter" where
  "Event_wait e val = (if Event_is_set e = val then Blocked val else Returned val)"

inductive event_step :: "bool \<Rightarrow> event_system \<Rightarrow> event_system \<Rightarrow> bool" for spurious where
  set: "event_step spurious s (s\<lparr>event := Event_set (event s)\<rparr>)"
| clear: "event_step spurious s (s\<lparr>event := Event_clear (event s)\<rparr>)"
| wait: "threads s i = Running \<or> threads s i = Returned v \<Longrightarrow>
    event_step spurious s (s\<lparr>threads := (threads s)(i := Event_wait (event s) val)\<rparr>)"
| wake: "spurious \<Longrightarrow> threads s i = Blocked val \<Longrightarrow>
    event_step spurious s (s\<lparr>threads := (threads s)(i := Event_wait (event s) val)\<rparr>)"

inductive_cases event_stepE: "event_step spurious s t"

text \<open>A run is a sequence of steps.\<close>

inductive event_run :: "bool \<Rightarrow> event_system \<Rightarrow> event_system \<Rightarrow> bool" for spurious where
  start: "event_run spurious s s"
| more: "event_run spurious s t \<Longrightarrow> event_step spurious t u \<Longrightarrow> event_run spurious s u"

lemma Event_simps [simp]:
  "Event_is_set (Event_set e)" "\<not> Event_is_set (Event_clear e)" "\<not> Event_is_set Event_ctor"
  by (simp_all add: Event_is_set_def Event_set_def Event_clear_def Event_ctor_def)

lemma event_step_return:
  assumes "event_step spurious s t" and "threads s i \<noteq> Returned v" and "threads t i = Returned v"
  shows "Event_is_set (event t) \<noteq> v \<and> event t = event s"
  using assms by (auto elim!: event_stepE simp: Event_wait_def split: if_splits)

lemma event_step_blocked:
  "event_step False s t \<Longrightarrow> threads s i = Blocked v \<Longrightarrow> threads t i = Blocked v"
  by (auto elim!: event_stepE)

lemma event_run_blocked:
  "event_run False s t \<Longrightarrow> threads s i = Blocked v \<Longrightarrow> threads t i = Blocked v"
  by (induction rule: event_run.induct) (auto dest: event_step_blocked)

section \<open>Properties\<close>

text \<open>
  Whatever other threads do, a thread that leaves \<open>wait(val)\<close> does so in a step in which the
  flag differs from \<open>val\<close>: \<open>wait\<close> blocks while the flag has the value, not until it has it, as its
  comment says.
\<close>
lemma wait_returns_on_difference:
  assumes "event_step spurious s t" and "threads s i \<noteq> Returned val" and "threads t i = Returned val"
  shows "Event_is_set (event t) \<noteq> val \<and> event t = event s"
  by (rule event_step_return [OF assms])

lemma wait_returns_on_difference_witness:
  "Event_is_set (event (event_init\<lparr>threads := (threads event_init)(0 := Returned True)\<rparr>)) \<noteq> True"
proof -
  have "event_step False event_init
      (event_init\<lparr>threads := (threads event_init)(0 := Event_wait (event event_init) True)\<rparr>)"
    by (rule event_step.wait) (simp add: event_init_def)
  then have "event_step False event_init
      (event_init\<lparr>threads := (threads event_init)(0 := Returned True)\<rparr>)"
    by (simp add: Event_wait_def event_init_def)
  from wait_returns_on_difference [OF this, of 0 True] show ?thesis by (simp add: event_init_def)
qed



end
