(* ===== verification/Pub_Sub.thy ===== *)
theory Pub_Sub
  imports Dgram_Socket Loops Event_Flag
begin

text \<open>
  Component \<open>pub_sub.hpp\<close>: the templates \<open>Subscriber\<close> and \<open>Publisher\<close>, over the operations of
  their socket, and their instances for UDP and Unix sockets.
\<close>

section \<open>Callbacks\<close>

text \<open>
  A callback is code of the application: it gets the message and may change the world, print
  lines, return, throw or misbehave. It cannot reach the socket object.
\<close>

type_synonym ('w, 'a) callback = "message_t \<Rightarrow> 'w \<Rightarrow> 'a outcome \<times> 'w \<times> string list"

definition call :: "('w, 'a) callback \<Rightarrow> message_t \<Rightarrow> (('o, 'w) mach, 'a) act" where
  "call cb msg s = (let (r, w, out) = cb msg (world s) in (r, s\<lparr>world := w, cout := cout s @ out\<rparr>))"

text \<open>What a callback does to the machine beside the object.\<close>

abbreviation after_callback :: "('b \<times> 'w \<times> string list) \<Rightarrow> ('o, 'w) mach \<Rightarrow> ('o, 'w) mach" where
  "after_callback res s \<equiv> s\<lparr>world := fst (snd res), cout := cout s @ snd (snd res)\<rparr>"

lemma call_eq: "call cb msg s = (fst (cb msg (world s)), after_callback (cb msg (world s)) s)"
  by (simp add: call_def split: prod.splits)

lemma call_inv [keeps_intros]: "keeps (sock_frame M) (call cb msg)"
  "keeps (same_or_closed obj) (call cb msg)"
  by (auto simp: keeps_def call_eq sock_frame_def own_fds_def same_or_closed_def)

section \<open>Subscriber\<close>

record 'w Subscriber = Socket +
  callbacks :: "('w, unit) callback list"
  data_size :: nat

text \<open>A constructor of a template: the socket first, then the members.\<close>

definition Subscriber_ctor ::
  "((('w, 'y) Subscriber_scheme, 'w) mach, unit) act \<Rightarrow> nat \<Rightarrow>
    ((('w, 'y) Subscriber_scheme, 'w) mach, unit) act" where
  "Subscriber_ctor SOCKET sz =
    bnd SOCKET (\<lambda>_. modify (\<lambda>s. s\<lparr>self := (self s)\<lparr>callbacks := [], data_size := sz\<rparr>\<rparr>))"

definition Subscriber_register_cb ::
  "('w, unit) callback \<Rightarrow> (('w, 'y) Subscriber_scheme, 'w) mach \<Rightarrow>
    unit outcome \<times> (('w, 'y) Subscriber_scheme, 'w) mach" where
  "Subscriber_register_cb func =
    modify (\<lambda>s. s\<lparr>self := (self s)\<lparr>callbacks := callbacks (self s) @ [func]\<rparr>\<rparr>)"

definition Subscriber_once ::
  "(nat \<Rightarrow> ((('w, 'y) Subscriber_scheme, 'w) mach, message_t) act) \<Rightarrow>
    ((('w, 'y) Subscriber_scheme, 'w) mach, unit) act" where
  "Subscriber_once recv =
    bnd (gets (\<lambda>s. data_size (self s))) (\<lambda>n.
    bnd (recv n) (\<lambda>msg.
    if length msg = 0 then ret ()
    else bnd (gets (\<lambda>s. callbacks (self s))) (\<lambda>cbs. for_each cbs (\<lambda>cb. call cb msg))))"

definition Subscriber_loop ::
  "(nat \<Rightarrow> ((('w, 'y) Subscriber_scheme, 'w) mach, message_t) act) \<Rightarrow>
    (('w, 'y) Subscriber_scheme, 'w) mach \<Rightarrow>
    (unit outcome \<times> (('w, 'y) Subscriber_scheme, 'w) mach) option" where
  "Subscriber_loop recv = loop_forever (Subscriber_once recv)"

definition Subscriber_loop_event ::
  "(nat \<Rightarrow> ((('w, 'y) Subscriber_scheme, 'w) mach, message_t) act) \<Rightarrow> (nat \<Rightarrow> Event) \<Rightarrow>
    (('w, 'y) Subscriber_scheme, 'w) mach \<Rightarrow>
    (unit outcome \<times> (('w, 'y) Subscriber_scheme, 'w) mach) option" where
  "Subscriber_loop_event recv ev =
    loop_event (\<lambda>i. Event_is_set (ev i)) (Subscriber_once recv) 0"

text \<open>Running callbacks over the world, in order, up to the first that does not return.\<close>

fun run_callbacks ::
  "('w, unit) callback list \<Rightarrow> message_t \<Rightarrow> 'w \<Rightarrow> unit outcome \<times> 'w \<times> string list" where
  "run_callbacks [] msg w = (Val (), w, [])"
| "run_callbacks (cb # cbs) msg w = (case cb msg w of
      (Val u, w', out) \<Rightarrow> (let (r, w'', out') = run_callbacks cbs msg w' in (r, w'', out @ out'))
    | (Exn e, w', out) \<Rightarrow> (Exn e, w', out)
    | (Undef b, w', out) \<Rightarrow> (Undef b, w', out))"

lemma for_each_call:
  "for_each cbs (\<lambda>cb. call cb msg) s =
    (fst (run_callbacks cbs msg (world s)), after_callback (run_callbacks cbs msg (world s)) s)"
proof (induction cbs arbitrary: s)
  case Nil
  then show ?case by (simp add: ret_def)
next
  case (Cons cb cbs)
  show ?case
    by (cases "cb msg (world s)"; cases "fst (cb msg (world s))")
      (simp_all add: bnd_case call_eq [of cb msg s] Cons.IH split: prod.splits)
qed

text \<open>Callbacks that always return.\<close>

definition callbacks_return :: "('w, unit) callback list \<Rightarrow> bool" where
  "callbacks_return cbs \<longleftrightarrow> (\<forall>cb \<in> set cbs. \<forall>msg w. fst (cb msg w) = Val ())"

lemma run_callbacks_return: "callbacks_return cbs \<Longrightarrow> fst (run_callbacks cbs msg w) = Val ()"
proof (induction cbs arbitrary: w)
  case (Cons cb cbs)
  then have "fst (cb msg w) = Val ()" "callbacks_return cbs" by (simp_all add: callbacks_return_def)
  with Cons.IH [of "fst (snd (cb msg w))"] show ?case by (cases "cb msg w") (auto split: prod.split)
qed simp

subsection \<open>Subscribers over any datagram socket\<close>

locale subscriber = dgram_socket recv recvfrom sendto addr_bytes
  for recv :: "nat \<Rightarrow> ((('w, 'y) Subscriber_scheme, 'w) mach, message_t) act"
    and recvfrom :: "nat \<Rightarrow> 'addr option \<Rightarrow>
      ((('w, 'y) Subscriber_scheme, 'w) mach, message_t \<times> 'addr option) act"
    and sendto :: "message_t \<Rightarrow> 'addr \<Rightarrow> ((('w, 'y) Subscriber_scheme, 'w) mach, int) act"
    and addr_bytes :: "'addr \<Rightarrow> byte list"
begin

lemma once_inv: "keeps (sock_frame M) (Subscriber_once recv)"
  unfolding Subscriber_once_def by (intro keeps_intros recv_inv)

lemma once_obj: "keeps (same_or_closed obj) (Subscriber_once recv)"
  unfolding Subscriber_once_def by (intro keeps_intros recv_obj)

text \<open>
  One turn of a subscriber: an exception of \<open>recv\<close> is passed on; an empty message is dropped;
  any other message has the size asked for and goes to every callback in registration order.
\<close>

lemma once_received:
  assumes "recv (data_size (self s)) s = (Val msg, t)"
  shows "Subscriber_once recv s =
    (if msg = [] then (Val (), t)
     else (fst (run_callbacks (callbacks (self t)) msg (world t)),
           after_callback (run_callbacks (callbacks (self t)) msg (world t)) t))"
    and "msg \<noteq> [] \<Longrightarrow> length msg = data_size (self s)"
  using assms recv_size [of "data_size (self s)" s msg]
  by (auto simp: Subscriber_once_def bnd_case gets_apply for_each_call ret_def)

lemma once_recv_throws:
  "recv (data_size (self s)) s = (Exn e, t) \<Longrightarrow> Subscriber_once recv s = (Exn e, t)"
  by (simp add: Subscriber_once_def bnd_case gets_apply)

lemma loop_never_returns: "Subscriber_loop recv s \<noteq> Some (Val (), t)"
  using loop_forever_abnormal [of "Subscriber_once recv" s] by (auto simp: Subscriber_loop_def)

end

text \<open>Over a quiet socket a turn always returns if the callbacks do, so the loop never ends.\<close>

locale quiet_subscriber = quiet_socket recv recvfrom sendto addr_bytes
  for recv :: "nat \<Rightarrow> ((('w, 'y) Subscriber_scheme, 'w) mach, message_t) act"
    and recvfrom :: "nat \<Rightarrow> 'addr option \<Rightarrow>
      ((('w, 'y) Subscriber_scheme, 'w) mach, message_t \<times> 'addr option) act"
    and sendto :: "message_t \<Rightarrow> 'addr \<Rightarrow> ((('w, 'y) Subscriber_scheme, 'w) mach, int) act"
    and addr_bytes :: "'addr \<Rightarrow> byte list"
begin

sublocale subscriber recv recvfrom sendto addr_bytes ..

lemma once_returns:
  assumes "callbacks_return (callbacks (self s))"
  shows "\<exists>t. Subscriber_once recv s = (Val (), t) \<and> self t = self s"
proof -
  obtain m t where t: "recv (data_size (self s)) s = (Val m, t)" "self t = self s"
    using recv_total by blast
  show ?thesis
    using t assms run_callbacks_return [of "callbacks (self s)" m "world t"]
    by (simp add: once_received(1) [OF t(1)])
qed

lemma loop_diverges:
  assumes "callbacks_return (callbacks (self s))"
  shows "Subscriber_loop recv s = None"
  unfolding Subscriber_loop_def
proof (rule loop_forever_diverges [where I = "\<lambda>s. callbacks_return (callbacks (self s))"])
  show "\<exists>t. Subscriber_once recv u = (Val (), t) \<and> callbacks_return (callbacks (self t))"
    if "callbacks_return (callbacks (self u))" for u
    using once_returns [OF that] that by metis
qed (rule assms)

lemma iterate_once_returns:
  "callbacks_return (callbacks (self s)) \<Longrightarrow>
    \<exists>t. iterate n (Subscriber_once recv) s = (Val (), t) \<and> self t = self s"
proof (induction n arbitrary: s)
  case 0
  then show ?case by (simp add: ret_def)
next
  case (Suc n)
  obtain u where u: "Subscriber_once recv s = (Val (), u)" "self u = self s"
    using once_returns [OF Suc.prems] by blast
  then have "callbacks_return (callbacks (self u))" using Suc.prems by simp
  then obtain t where "iterate n (Subscriber_once recv) u = (Val (), t)" "self t = self u"
    using Suc.IH by blast
  with u show ?case by (auto simp: iterate_Suc_Val)
qed

lemma loop_event_ends:
  assumes "callbacks_return (callbacks (self s))"
    and "\<forall>k < n. Event_is_set (ev k)" and "\<not> Event_is_set (ev n)"
  shows "\<exists>t. iterate n (Subscriber_once recv) s = (Val (), t) \<and>
    Subscriber_loop_event recv ev s = Some (Val (), t)"
proof -
  obtain t where "iterate n (Subscriber_once recv) s = (Val (), t)"
    using iterate_once_returns [OF assms(1)] by blast
  moreover from this have "Subscriber_loop_event recv ev s = Some (Val (), t)"
    unfolding Subscriber_loop_event_def using assms(2,3) by (intro loop_event_returns) auto
  ultimately show ?thesis by blast
qed

end

section \<open>Publisher\<close>

record 'a Publisher = Socket +
  clientaddrs :: "'a list"

definition Publisher_ctor ::
  "((('a, 'y) Publisher_scheme, 'w) mach, unit) act \<Rightarrow> ((('a, 'y) Publisher_scheme, 'w) mach, unit) act" where
  "Publisher_ctor SOCKET = bnd SOCKET (\<lambda>_. modify (\<lambda>s. s\<lparr>self := (self s)\<lparr>clientaddrs := []\<rparr>\<rparr>))"

definition Publisher_register_addr ::
  "'a \<Rightarrow> (('a, 'y) Publisher_scheme, 'w) mach \<Rightarrow> unit outcome \<times> (('a, 'y) Publisher_scheme, 'w) mach" where
  "Publisher_register_addr c =
    modify (\<lambda>s. s\<lparr>self := (self s)\<lparr>clientaddrs := clientaddrs (self s) @ [c]\<rparr>\<rparr>)"

definition Publisher_publish ::
  "(message_t \<Rightarrow> 'a \<Rightarrow> ((('a, 'y) Publisher_scheme, 'w) mach, int) act) \<Rightarrow> message_t \<Rightarrow>
    ((('a, 'y) Publisher_scheme, 'w) mach, unit) act" where
  "Publisher_publish sendto data =
    bnd (gets (\<lambda>s. clientaddrs (self s))) (\<lambda>addrs.
    for_each addrs (\<lambda>addr. bnd (sendto data addr) (\<lambda>_. ret ())))"

locale publisher = dgram_socket recv recvfrom sendto addr_bytes
  for recv :: "nat \<Rightarrow> ((('addr, 'y) Publisher_scheme, 'w) mach, message_t) act"
    and recvfrom :: "nat \<Rightarrow> 'addr option \<Rightarrow>
      ((('addr, 'y) Publisher_scheme, 'w) mach, message_t \<times> 'addr option) act"
    and sendto :: "message_t \<Rightarrow> 'addr \<Rightarrow> ((('addr, 'y) Publisher_scheme, 'w) mach, int) act"
    and addr_bytes :: "'addr \<Rightarrow> byte list"
begin

lemma publish_all:
  "\<exists>nums t. Publisher_publish sendto data s = (Val (), t) \<and> self t = self s \<and>
    length nums = length (clientaddrs (self s)) \<and>
    trace t = trace s @
      map (\<lambda>(a, num). (Sys_sendto (socket_fd (self s)) data 0 (addr_bytes a), num))
        (zip (clientaddrs (self s)) nums)"
  using send_all [of "clientaddrs (self s)" data s]
  by (simp add: Publisher_publish_def bnd_case gets_apply)

lemma publish_calls:
  "\<exists>t. Publisher_publish sendto data s = (Val (), t) \<and> self t = self s \<and>
    map fst (trace t) = map fst (trace s) @
      map (\<lambda>a. Sys_sendto (socket_fd (self s)) data 0 (addr_bytes a)) (clientaddrs (self s))"
proof -
  obtain nums t where "Publisher_publish sendto data s = (Val (), t)" "self t = self s"
    "length nums = length (clientaddrs (self s))" "trace t = trace s @
      map (\<lambda>(a, num). (Sys_sendto (socket_fd (self s)) data 0 (addr_bytes a), num))
        (zip (clientaddrs (self s)) nums)"
    using publish_all [of data s] by blast
  then show ?thesis by (simp add: map_fst_zip_with del: map_map)
qed

text \<open>Publishing one message after the other.\<close>

lemma publish_series:
  "\<exists>t. for_each xs (\<lambda>x. Publisher_publish sendto (f x)) s = (Val (), t) \<and> self t = self s \<and>
    map fst (trace t) = map fst (trace s) @ concat (map (\<lambda>x.
      map (\<lambda>a. Sys_sendto (socket_fd (self s)) (f x) 0 (addr_bytes a)) (clientaddrs (self s))) xs)"
proof (induction xs arbitrary: s)
  case Nil
  then show ?case by (simp add: ret_apply)
next
  case (Cons x xs)
  obtain t where t: "Publisher_publish sendto (f x) s = (Val (), t)" "self t = self s"
    "map fst (trace t) = map fst (trace s) @
      map (\<lambda>a. Sys_sendto (socket_fd (self s)) (f x) 0 (addr_bytes a)) (clientaddrs (self s))"
    using publish_calls [of "f x" s] by blast
  with Cons.IH [of t] show ?case by (auto simp: bnd_case)
qed

lemma publish_inv: "keeps (sock_frame M) (Publisher_publish sendto data)"
  unfolding Publisher_publish_def by (intro keeps_intros sendto_inv)

end

section \<open>The instances of the library\<close>

definition SubscriberUDP_once ::
  "('w, 'p) platform_scheme \<Rightarrow> ((('w, 'y) Subscriber_scheme, 'w) mach, unit) act" where
  "SubscriberUDP_once P = Subscriber_once (\<lambda>n. SocketUDP_recv P n 0)"

definition SubscriberUnix_once ::
  "('w, 'p) platform_scheme \<Rightarrow> ((('w, 'y) Subscriber_scheme, 'w) mach, unit) act" where
  "SubscriberUnix_once P = Subscriber_once (\<lambda>n. SocketUnix_recv P n 0)"

definition PublisherUDP_publish ::
  "('w, 'p) platform_scheme \<Rightarrow> message_t \<Rightarrow>
    (((inetaddr_t, 'y) Publisher_scheme, 'w) mach, unit) act" where
  "PublisherUDP_publish P = Publisher_publish (\<lambda>m a. SocketUDP_sendto P m a 0)"

definition PublisherUnix_publish ::
  "('w, 'p) platform_scheme \<Rightarrow> message_t \<Rightarrow>
    (((unixaddr_t, 'y) Publisher_scheme, 'w) mach, unit) act" where
  "PublisherUnix_publish P = Publisher_publish (\<lambda>m a. SocketUnix_sendto P m a 0)"

interpretation sub_udp: quiet_subscriber
  "\<lambda>n. SocketUDP_recv P n 0" "\<lambda>n from. SocketUDP_recvfrom P n from 0"
  "\<lambda>m a. SocketUDP_sendto P m a 0" inet_bytes for P ..

interpretation sub_uds: subscriber
  "\<lambda>n. SocketUnix_recv P n 0" "\<lambda>n from. SocketUnix_recvfrom P n from 0"
  "\<lambda>m a. SocketUnix_sendto P m a 0" unix_bytes for P ..

interpretation pub_udp: publisher
  "\<lambda>n. SocketUDP_recv P n 0" "\<lambda>n from. SocketUDP_recvfrom P n from 0"
  "\<lambda>m a. SocketUDP_sendto P m a 0" inet_bytes for P ..

interpretation pub_uds: publisher
  "\<lambda>n. SocketUnix_recv P n 0" "\<lambda>n from. SocketUnix_recvfrom P n from 0"
  "\<lambda>m a. SocketUnix_sendto P m a 0" unix_bytes for P ..

end
