(* ===== verification/Req_Rep.thy ===== *)
theory Req_Rep
  imports Pub_Sub
begin

text \<open>
  Component \<open>request_reply.hpp\<close>: the templates \<open>Reply\<close> and \<open>Request\<close> over the operations of their
  socket, and their instances for UDP and Unix sockets.
\<close>

section \<open>Reply\<close>

text \<open>An unregistered callback is an empty \<open>std::function\<close>, which throws when it is called.\<close>

record 'w Reply = Socket +
  callback :: "('w, message_t) callback option"
  rep_msg_size :: nat

definition Reply_ctor ::
  "((('w, 'y) Reply_scheme, 'w) mach, unit) act \<Rightarrow> nat \<Rightarrow> ((('w, 'y) Reply_scheme, 'w) mach, unit) act" where
  "Reply_ctor SOCKET sz =
    bnd SOCKET (\<lambda>_. modify (\<lambda>s. s\<lparr>self := (self s)\<lparr>callback := None, rep_msg_size := sz\<rparr>\<rparr>))"

definition Reply_register_cb ::
  "('w, message_t) callback \<Rightarrow> (('w, 'y) Reply_scheme, 'w) mach \<Rightarrow>
    unit outcome \<times> (('w, 'y) Reply_scheme, 'w) mach" where
  "Reply_register_cb func = modify (\<lambda>s. s\<lparr>self := (self s)\<lparr>callback := Some func\<rparr>\<rparr>)"

definition call_function ::
  "('w, 'a) callback option \<Rightarrow> message_t \<Rightarrow> (('o, 'w) mach, 'a) act" where
  "call_function f m = (case f of None \<Rightarrow> throw Bad_function_call | Some cb \<Rightarrow> call cb m)"

definition Reply_once ::
  "'addr \<Rightarrow>
    (nat \<Rightarrow> 'addr option \<Rightarrow> ((('w, 'y) Reply_scheme, 'w) mach, message_t \<times> 'addr option) act) \<Rightarrow>
    (message_t \<Rightarrow> 'addr \<Rightarrow> ((('w, 'y) Reply_scheme, 'w) mach, int) act) \<Rightarrow>
    ((('w, 'y) Reply_scheme, 'w) mach, unit) act" where
  "Reply_once zero recvfrom sendto =
    bnd (gets (\<lambda>s. rep_msg_size (self s))) (\<lambda>msg_size.
    bnd (recvfrom msg_size (Some zero)) (\<lambda>(m, from_addr).
    if length m = 0 \<or> length m \<noteq> msg_size then ret ()
    else
      bnd (gets (\<lambda>s. callback (self s))) (\<lambda>cb.
      bnd (call_function cb m) (\<lambda>r.
      case from_addr of
        None \<Rightarrow> ret ()
      | Some a \<Rightarrow> bnd (sendto r a) (\<lambda>_. ret ())))))"

definition Reply_loop ::
  "'addr \<Rightarrow>
    (nat \<Rightarrow> 'addr option \<Rightarrow> ((('w, 'y) Reply_scheme, 'w) mach, message_t \<times> 'addr option) act) \<Rightarrow>
    (message_t \<Rightarrow> 'addr \<Rightarrow> ((('w, 'y) Reply_scheme, 'w) mach, int) act) \<Rightarrow>
    (('w, 'y) Reply_scheme, 'w) mach \<Rightarrow> (unit outcome \<times> (('w, 'y) Reply_scheme, 'w) mach) option" where
  "Reply_loop zero recvfrom sendto = loop_forever (Reply_once zero recvfrom sendto)"

definition Reply_loop_event ::
  "'addr \<Rightarrow>
    (nat \<Rightarrow> 'addr option \<Rightarrow> ((('w, 'y) Reply_scheme, 'w) mach, message_t \<times> 'addr option) act) \<Rightarrow>
    (message_t \<Rightarrow> 'addr \<Rightarrow> ((('w, 'y) Reply_scheme, 'w) mach, int) act) \<Rightarrow> (nat \<Rightarrow> Event) \<Rightarrow>
    (('w, 'y) Reply_scheme, 'w) mach \<Rightarrow> (unit outcome \<times> (('w, 'y) Reply_scheme, 'w) mach) option" where
  "Reply_loop_event zero recvfrom sendto ev =
    loop_event (\<lambda>i. Event_is_set (ev i)) (Reply_once zero recvfrom sendto) 0"

subsection \<open>Repliers over any datagram socket\<close>

locale replier = dgram_socket recv recvfrom sendto addr_bytes
  for recv :: "nat \<Rightarrow> ((('w, 'y) Reply_scheme, 'w) mach, message_t) act"
    and recvfrom :: "nat \<Rightarrow> 'addr option \<Rightarrow>
      ((('w, 'y) Reply_scheme, 'w) mach, message_t \<times> 'addr option) act"
    and sendto :: "message_t \<Rightarrow> 'addr \<Rightarrow> ((('w, 'y) Reply_scheme, 'w) mach, int) act"
    and addr_bytes :: "'addr \<Rightarrow> byte list" +
  fixes zero :: 'addr
begin

text \<open>A timeout or an empty datagram: no call, no reply.\<close>

lemma once_empty:
  "recvfrom (rep_msg_size (self s)) (Some zero) s = (Val ([], from), t) \<Longrightarrow>
    Reply_once zero recvfrom sendto s = (Val (), t)"
  by (simp add: Reply_once_def bnd_case gets_apply ret_def)

text \<open>
  Any other datagram has the size asked for, so the comparison with \<open>msg_size\<close> never drops one;
  the callback gets it, and its result is sent once, to where the datagram came from.
\<close>

lemma once_request:
  assumes "recvfrom (rep_msg_size (self s)) (Some zero) s = (Val (m, Some a), t)" and "m \<noteq> []"
    and "callback (self s) = Some cb" and "cb m (world t) = (Val r, w, out)"
  shows "length m = rep_msg_size (self s)"
    and "\<exists>num u. Reply_once zero recvfrom sendto s = (Val (), u) \<and> self u = self s \<and>
      trace u = trace t @ [(Sys_sendto (socket_fd (self s)) r 0 (addr_bytes a), num)]"
proof -
  obtain m' b t' where r: "recvfrom (rep_msg_size (self s)) (Some zero) s = (Val (m', Some b), t')"
    "m' = [] \<or> length m' = rep_msg_size (self s)" "self t' = self s"
    using recvfrom_total by blast
  with assms(1,2) show len: "length m = rep_msg_size (self s)" by simp
  have self: "self t = self s" using r assms(1) by simp
  obtain num u where u: "sendto r a (t\<lparr>world := w, cout := cout t @ out\<rparr>) = (Val num, u)" "self u = self t"
    "trace u = trace t @ [(Sys_sendto (socket_fd (self t)) r 0 (addr_bytes a), num)]"
    using sendto_total [of r a "t\<lparr>world := w, cout := cout t @ out\<rparr>"] by auto
  have "Reply_once zero recvfrom sendto s = (Val (), u)"
    using assms len self u(1)
    by (simp add: Reply_once_def bnd_case gets_apply call_function_def call_eq ret_def)
  then show "\<exists>num u. Reply_once zero recvfrom sendto s = (Val (), u) \<and> self u = self s \<and>
      trace u = trace t @ [(Sys_sendto (socket_fd (self s)) r 0 (addr_bytes a), num)]"
    using u self by auto
qed

text \<open>A callback that throws, or none at all: nothing is sent and the exception goes on.\<close>

lemma once_no_reply:
  assumes "recvfrom (rep_msg_size (self s)) (Some zero) s = (Val (m, Some a), t)" and "m \<noteq> []"
    and "case callback (self s) of None \<Rightarrow> e = Bad_function_call | Some cb \<Rightarrow> fst (cb m (world t)) = Exn e"
  shows "\<exists>u. Reply_once zero recvfrom sendto s = (Exn e, u) \<and> trace u = trace t"
proof -
  obtain m' b t' where r: "recvfrom (rep_msg_size (self s)) (Some zero) s = (Val (m', Some b), t')"
    "m' = [] \<or> length m' = rep_msg_size (self s)" "self t' = self s"
    using recvfrom_total by blast
  with assms(1,2) have "length m = rep_msg_size (self s)" "self t = self s" by simp_all
  with assms show ?thesis
    by (cases "callback (self s)")
      (simp_all add: Reply_once_def bnd_case gets_apply call_function_def call_eq throw_def)
qed

lemma loop_never_returns: "Reply_loop zero recvfrom sendto s \<noteq> Some (Val (), t)"
  using loop_forever_abnormal [of "Reply_once zero recvfrom sendto" s] by (auto simp: Reply_loop_def)

lemma call_function_inv: "keeps (sock_frame M) (call_function f m)"
  unfolding call_function_def by (cases f) (auto intro: keeps_intros)

lemma once_inv: "keeps (sock_frame M) (Reply_once zero recvfrom sendto)"
  unfolding Reply_once_def
  by (auto intro!: keeps_intros recvfrom_inv sendto_inv call_function_inv split: option.split)

end

section \<open>Request\<close>

record Request = Socket +
  req_msg_size :: nat

definition Request_ctor ::
  "(('y Request_scheme, 'w) mach, unit) act \<Rightarrow> nat \<Rightarrow> (('y Request_scheme, 'w) mach, unit) act" where
  "Request_ctor SOCKET sz =
    bnd SOCKET (\<lambda>_. modify (\<lambda>s. s\<lparr>self := (self s)\<lparr>req_msg_size := sz\<rparr>\<rparr>))"

definition Request_request ::
  "(message_t \<Rightarrow> 'addr \<Rightarrow> (('y Request_scheme, 'w) mach, int) act) \<Rightarrow>
    (nat \<Rightarrow> (('y Request_scheme, 'w) mach, message_t) act) \<Rightarrow>
    message_t \<Rightarrow> 'addr \<Rightarrow> (('y Request_scheme, 'w) mach, message_t) act" where
  "Request_request sendto recv msg addr =
    bnd (sendto msg addr) (\<lambda>_.
    bnd (gets (\<lambda>s. req_msg_size (self s))) (\<lambda>msg_size.
    recv msg_size))"

locale requester = dgram_socket recv recvfrom sendto addr_bytes
  for recv :: "nat \<Rightarrow> (('y Request_scheme, 'w) mach, message_t) act"
    and recvfrom :: "nat \<Rightarrow> 'addr option \<Rightarrow>
      (('y Request_scheme, 'w) mach, message_t \<times> 'addr option) act"
    and sendto :: "message_t \<Rightarrow> 'addr \<Rightarrow> (('y Request_scheme, 'w) mach, int) act"
    and addr_bytes :: "'addr \<Rightarrow> byte list"
begin

text \<open>A request is sent once, then the reply is awaited, even when the sending failed.\<close>

lemma request_steps:
  "\<exists>num t. sendto msg addr s = (Val num, t) \<and> self t = self s \<and>
    trace t = trace s @ [(Sys_sendto (socket_fd (self s)) msg 0 (addr_bytes addr), num)] \<and>
    Request_request sendto recv msg addr s = recv (req_msg_size (self s)) t"
proof -
  obtain num t where t: "sendto msg addr s = (Val num, t)" "self t = self s"
    "trace t = trace s @ [(Sys_sendto (socket_fd (self s)) msg 0 (addr_bytes addr), num)]"
    using sendto_total by blast
  then show ?thesis by (auto simp: Request_request_def bnd_case gets_apply)
qed

lemma request_size:
  assumes "fst (Request_request sendto recv msg addr s) = Val m"
  shows "m = [] \<or> length m = req_msg_size (self s)"
proof -
  obtain t where "Request_request sendto recv msg addr s = recv (req_msg_size (self s)) t"
    using request_steps [of msg addr s] by blast
  with assms recv_size show ?thesis by metis
qed

lemma request_inv: "keeps (sock_frame M) (Request_request sendto recv msg addr)"
  unfolding Request_request_def by (intro keeps_intros sendto_inv recv_inv)

end

section \<open>The instances of the library\<close>

definition inetaddr_zero :: inetaddr_t where
  "inetaddr_zero = \<lparr>sin_family = 0, sin_port = 0, s_addr = 0, sin_zero = replicate 8 0\<rparr>"

definition unixaddr_zero :: unixaddr_t where
  "unixaddr_zero = \<lparr>sun_family = 0, sun_path = replicate 108 0\<rparr>"

definition ReplyUDP_once ::
  "('w, 'p) platform_scheme \<Rightarrow> ((('w, 'y) Reply_scheme, 'w) mach, unit) act" where
  "ReplyUDP_once P = Reply_once inetaddr_zero
    (\<lambda>n from. SocketUDP_recvfrom P n from 0) (\<lambda>m a. SocketUDP_sendto P m a 0)"

definition ReplyUnix_once ::
  "('w, 'p) platform_scheme \<Rightarrow> ((('w, 'y) Reply_scheme, 'w) mach, unit) act" where
  "ReplyUnix_once P = Reply_once unixaddr_zero
    (\<lambda>n from. SocketUnix_recvfrom P n from 0) (\<lambda>m a. SocketUnix_sendto P m a 0)"

definition RequestUDP_request ::
  "('w, 'p) platform_scheme \<Rightarrow> message_t \<Rightarrow> inetaddr_t \<Rightarrow>
    (('y Request_scheme, 'w) mach, message_t) act" where
  "RequestUDP_request P =
    Request_request (\<lambda>m a. SocketUDP_sendto P m a 0) (\<lambda>n. SocketUDP_recv P n 0)"

definition RequestUnix_request ::
  "('w, 'p) platform_scheme \<Rightarrow> message_t \<Rightarrow> unixaddr_t \<Rightarrow>
    (('y Request_scheme, 'w) mach, message_t) act" where
  "RequestUnix_request P =
    Request_request (\<lambda>m a. SocketUnix_sendto P m a 0) (\<lambda>n. SocketUnix_recv P n 0)"

interpretation rep_udp: replier
  "\<lambda>n. SocketUDP_recv P n 0" "\<lambda>n from. SocketUDP_recvfrom P n from 0"
  "\<lambda>m a. SocketUDP_sendto P m a 0" inet_bytes inetaddr_zero for P ..

interpretation rep_uds: replier
  "\<lambda>n. SocketUnix_recv P n 0" "\<lambda>n from. SocketUnix_recvfrom P n from 0"
  "\<lambda>m a. SocketUnix_sendto P m a 0" unix_bytes unixaddr_zero for P ..

interpretation req_udp: requester
  "\<lambda>n. SocketUDP_recv P n 0" "\<lambda>n from. SocketUDP_recvfrom P n from 0"
  "\<lambda>m a. SocketUDP_sendto P m a 0" inet_bytes for P ..

interpretation req_uds: requester
  "\<lambda>n. SocketUnix_recv P n 0" "\<lambda>n from. SocketUnix_recvfrom P n from 0"
  "\<lambda>m a. SocketUnix_sendto P m a 0" unix_bytes for P ..

end
