(* ===== verification/Host_Info.thy ===== *)
theory Host_Info
  imports Platform Socket_Base
begin

text \<open>
  Component \<open>sockaddr.hpp\<close>, the host queries: the free functions \<open>get_hostname\<close> and
  \<open>get_host_ip\<close>. They use no object; the machine's \<open>self\<close> is left alone.
\<close>

text \<open>
  \<open>getnameinfo\<close> is told that the buffer of 256 bytes has 265; what it writes beyond the buffer
  is undefined behaviour. Its result is not looked at.
\<close>

definition get_hostname :: "('w, 'p) platform_scheme \<Rightarrow> (('o, 'w) mach, string) act" where
  "get_hostname P =
    bnd (lift_outcome (inet_sockaddr P ''udp://127.0.0.1:9000'')) (\<lambda>addr.
    bnd (sys P (Sys_getnameinfo (inet_bytes addr) 265)) (\<lambda>r.
    lift_outcome
      (if 256 < length (r_data r) then Undef Buffer_overflow
       else read_c_string (overwrite (replicate 256 0) (r_data r)))))"

text \<open>A failing \<open>getsockname\<close> returns early, before the descriptor is closed.\<close>

definition get_host_ip :: "('w, 'p) platform_scheme \<Rightarrow> (('o, 'w) mach, string) act" where
  "get_host_ip P =
    bnd (sys P (Sys_socket (uint AF_INET) SOCK_DGRAM 0)) (\<lambda>r.
    if r_ret r < 0 then ret []
    else
      bnd (lift_outcome (inet_sockaddr P ''udp://9.9.9.9:9999'')) (\<lambda>addr.
      bnd (sys P (Sys_connect (r_ret r) (inet_bytes addr))) (\<lambda>_.
      let addr = \<lparr>sin_family = AF_INET, sin_port = 0, s_addr = INADDR_ANY, sin_zero = replicate 8 0\<rparr>
      in bnd (sys P (Sys_getsockname (r_ret r) sizeof_inet)) (\<lambda>q.
         if r_ret q < 0 then ret []
         else
           let addr = inet_view (overwrite (inet_bytes addr) (r_addr q));
               address = c_str (inet_ntoa P (s_addr addr))
           in bnd (sys P (Sys_close (r_ret r))) (\<lambda>_. ret address)))))"

section \<open>The name\<close>

lemma literal_address:
  assumes "frame_intact P" and "ip_text ip" and "int n \<le> INT_MAX"
  shows "inet_sockaddr P (''udp://'' @ ip @ '':'' @ nat_digits n) =
    Val (inet_of (host_addr P ip) (of_nat n))"
  using inet_sockaddr_host_port [OF assms(1) _ assms(2,3), of "''udp''"] by simp

lemma loopback_address:
  assumes "frame_intact P"
  shows "inet_sockaddr P ''udp://127.0.0.1:9000'' = Val (inet_of (inet_addr P ''127.0.0.1'') 9000)"
proof -
  have ip: "ip_text ''127.0.0.1''" by (simp add: ip_text_def in_class_def ip_class_def is_digit_def)
  have n: "int 9000 \<le> INT_MAX" by (simp add: INT_MAX_def)
  have d: "nat_digits 9000 = ''9000''" by (simp add: nat_digits.simps digit_char_eqs)
  show ?thesis using literal_address [OF assms ip n] by (simp add: d host_addr_def)
qed

lemma quad9_address:
  assumes "frame_intact P"
  shows "inet_sockaddr P ''udp://9.9.9.9:9999'' = Val (inet_of (inet_addr P ''9.9.9.9'') 9999)"
proof -
  have ip: "ip_text ''9.9.9.9''" by (simp add: ip_text_def in_class_def ip_class_def is_digit_def)
  have n: "int 9999 \<le> INT_MAX" by (simp add: INT_MAX_def)
  have d: "nat_digits 9999 = ''9999''" by (simp add: nat_digits.simps digit_char_eqs)
  show ?thesis using literal_address [OF assms ip n] by (simp add: d host_addr_def)
qed

text \<open>The call the function makes, and what it makes of the reply.\<close>

definition name_call :: "('w, 'p) platform_scheme \<Rightarrow> syscall" where
  "name_call P = Sys_getnameinfo (inet_bytes (inet_of (inet_addr P ''127.0.0.1'') 9000)) 265"

lemma get_hostname_eq:
  assumes "frame_intact P"
  shows "fst (get_hostname P s) =
    (let bs = r_data (fst (kernel P (name_call P) (world s)))
     in if 256 < length bs then Undef Buffer_overflow
        else read_c_string (overwrite (replicate 256 0) bs))"
  by (simp add: get_hostname_def loopback_address [OF assms] bnd_case lift_outcome_apply sys_Val
      name_call_def Let_def)

text \<open>A name that fits the buffer with its NUL is returned.\<close>

lemma hostname_read:
  assumes "CHR 0x00 \<notin> set name" and "length name < 256"
  shows "read_c_string (overwrite (replicate 256 0) (map byte_of_char name @ [0])) = Val name"
  using assms read_c_string_terminated [OF assms(1), of "replicate (255 - length name) 0"]
  by (simp add: overwrite_def)

section \<open>The address\<close>

lemma get_host_ip_no_socket:
  assumes "r_ret (fst (kernel P (Sys_socket (uint AF_INET) SOCK_DGRAM 0) (world s))) < 0"
  shows "fst (get_host_ip P s) = Val [] \<and> live (trace (snd (get_host_ip P s))) = live (trace s)"
  using assms by (simp add: get_host_ip_def bnd_case sys_Val ret_apply)

text \<open>The world in which the local address is asked for.\<close>

definition host_fd :: "('w, 'p) platform_scheme \<Rightarrow> 'w \<Rightarrow> int" where
  "host_fd P w = r_ret (fst (kernel P (Sys_socket (uint AF_INET) SOCK_DGRAM 0) w))"

definition host_reply :: "('w, 'p) platform_scheme \<Rightarrow> 'w \<Rightarrow> reply" where
  "host_reply P w =
    (let w1 = snd (kernel P (Sys_socket (uint AF_INET) SOCK_DGRAM 0) w);
         w2 = snd (kernel P (Sys_connect (host_fd P w)
                (inet_bytes (inet_of (inet_addr P ''9.9.9.9'') 9999))) w1)
     in fst (kernel P (Sys_getsockname (host_fd P w) sizeof_inet) w2))"

lemma get_host_ip_closed:
  assumes "frame_intact P" and "0 \<le> host_fd P (world s)" and "0 \<le> r_ret (host_reply P (world s))"
  shows "live (trace (snd (get_host_ip P s))) = live (trace s)"
    and "length (r_addr (host_reply P (world s))) = sizeof_inet \<Longrightarrow>
      fst (get_host_ip P s) =
        Val (c_str (inet_ntoa P (s_addr (inet_view (r_addr (host_reply P (world s)))))))"
  using assms
  by (simp_all add: get_host_ip_def quad9_address bnd_case sys_Val ret_apply lift_outcome_apply
      Let_def host_fd_def host_reply_def live_append inet_bytes_def sizeof_defs overwrite_full)

lemma get_host_ip_leak:
  assumes "frame_intact P" and "0 \<le> host_fd P (world s)" and "r_ret (host_reply P (world s)) < 0"
  shows "fst (get_host_ip P s) = Val []"
    and "live (trace (snd (get_host_ip P s))) = add_mset (host_fd P (world s)) (live (trace s))"
  using assms
  by (simp_all add: get_host_ip_def quad9_address bnd_case sys_Val ret_apply lift_outcome_apply
      Let_def host_fd_def host_reply_def live_append)

end
