(* ===== verification/Socket_Info.thy ===== *)
theory Socket_Info
  imports Socket_Base
begin

text \<open>
  Component \<open>info.hpp\<close>: the class \<open>SocketInfo\<close>, which prints the options of a socket it is
  given the descriptor of. Option values are read into one \<open>u_char\<close>, which keeps its content when
  \<open>getsockopt\<close> writes nothing.
\<close>

section \<open>The tables\<close>

datatype SocketTypes = UDP | UDS | TCP

text \<open>\<open>enum dataTypes\<close>: the source's \<open>Int\<close>, \<open>Bool\<close>, \<open>Type\<close> and \<open>Timeval\<close>.\<close>

datatype dataTypes = Int_type | Bool_type | Type_type | Timeval_type

record SoOpts =
  opt_val :: int
  description :: string
  opt_type :: dataTypes

definition SOCK_RAW :: int where "SOCK_RAW = 3"

definition SO_DONTROUTE :: int where "SO_DONTROUTE = 5"

definition SO_ERROR :: int where "SO_ERROR = 4"

definition SO_SNDBUF :: int where "SO_SNDBUF = 7"

definition SO_RCVBUF :: int where "SO_RCVBUF = 8"

definition SO_OOBINLINE :: int where "SO_OOBINLINE = 10"

definition SO_RCVLOWAT :: int where "SO_RCVLOWAT = 18"

definition SO_SNDLOWAT :: int where "SO_SNDLOWAT = 19"

definition SO_ACCEPTCONN :: int where "SO_ACCEPTCONN = 30"

definition socketOptsSOL :: "SoOpts list" where
  "socketOptsSOL = [
     \<lparr>opt_val = SO_TYPE, description = ''socket type'', opt_type = Type_type\<rparr>,
     \<lparr>opt_val = SO_ACCEPTCONN, description = ''Accepting connections'', opt_type = Bool_type\<rparr>,
     \<lparr>opt_val = SO_BROADCAST, description = ''Broadcast messages supported'', opt_type = Bool_type\<rparr>,
     \<lparr>opt_val = SO_DONTROUTE, description = ''Bypass normal routing'', opt_type = Bool_type\<rparr>,
     \<lparr>opt_val = SO_ERROR, description = ''Socket error status'', opt_type = Bool_type\<rparr>,
     \<lparr>opt_val = SO_OOBINLINE, description = ''Out-of-band data is transmitted in line'', opt_type = Bool_type\<rparr>,
     \<lparr>opt_val = SO_REUSEADDR, description = ''SO_REUSEADDR'', opt_type = Bool_type\<rparr>,
     \<lparr>opt_val = SO_REUSEPORT, description = ''SO_REUSEPORT'', opt_type = Bool_type\<rparr>,
     \<lparr>opt_val = SO_RCVBUF, description = ''Receive buffer size'', opt_type = Int_type\<rparr>,
     \<lparr>opt_val = SO_RCVLOWAT, description = ''receive low water mark'', opt_type = Int_type\<rparr>,
     \<lparr>opt_val = SO_SNDBUF, description = ''Send buffer size'', opt_type = Int_type\<rparr>,
     \<lparr>opt_val = SO_SNDLOWAT, description = ''send low water mark'', opt_type = Int_type\<rparr>]"

text \<open>\<open>socketTypes\<close> is a \<open>std::map\<close>; its \<open>operator[]\<close> inserts an empty text for a missing key.\<close>

record SocketInfo =
  info_fd :: int
  socketTypes :: "int \<Rightarrow> string option"

definition default_types :: "int \<Rightarrow> string option" where
  "default_types = [SOCK_DGRAM \<mapsto> ''DGRAM'', SOCK_RAW \<mapsto> ''RAW'', SOCK_STREAM \<mapsto> ''STREAM'']"

definition SocketInfo_ctor :: "int \<Rightarrow> SocketInfo" where
  "SocketInfo_ctor fd = \<lparr>info_fd = fd, socketTypes = default_types\<rparr>"

type_synonym ('x, 'w, 'a) info_act = "(('x SocketInfo_scheme, 'w) mach, 'a) act"

definition socketTypes_at :: "int \<Rightarrow> ('x, 'w, string) info_act" where
  "socketTypes_at k =
    bnd (gets (\<lambda>s. socketTypes (self s))) (\<lambda>m. case m k of
      Some t \<Rightarrow> ret t
    | None \<Rightarrow>
        bnd (modify (\<lambda>s. s\<lparr>self := (self s)\<lparr>socketTypes := m(k \<mapsto> [])\<rparr>\<rparr>)) (\<lambda>_. ret []))"

section \<open>Reading options\<close>

text \<open>
  \<open>getsockopt(fd, level, name, &val, &size)\<close>: the buffer with what the kernel wrote, and \<open>size\<close>
  set to the number of bytes it wrote when it succeeds.
\<close>

definition read_opt ::
  "('w, 'p) platform_scheme \<Rightarrow> int \<Rightarrow> int \<Rightarrow> byte list \<Rightarrow> nat \<Rightarrow>
    ('x, 'w, byte list \<times> nat) info_act" where
  "read_opt P level name buf sz =
    bnd (gets (\<lambda>s. info_fd (self s))) (\<lambda>fd.
    bnd (sys P (Sys_getsockopt fd level name sz)) (\<lambda>r.
    ret (if r_ret r < 0 then (buf, sz)
         else (overwrite buf (take sz (r_data r)), min sz (length (r_data r))))))"

definition SocketInfo_getsockname :: "('w, 'p) platform_scheme \<Rightarrow> ('x, 'w, string) info_act" where
  "SocketInfo_getsockname P =
    bnd (gets (\<lambda>s. info_fd (self s))) (\<lambda>fd.
    bnd (sys P (Sys_getsockname fd sizeof_inet)) (\<lambda>r.
    ret (if r_ret r < 0 then []
         else inet2string P (inet_view (overwrite (replicate sizeof_inet 0) (r_addr r))))))"

section \<open>Printing\<close>

text \<open>The body of the loop over the options: \<open>val\<close> and \<open>size\<close> go from one turn to the next.\<close>

definition so_line ::
  "('w, 'p) platform_scheme \<Rightarrow> SoOpts \<Rightarrow> byte list \<times> nat \<Rightarrow> ('x, 'w, byte list \<times> nat) info_act" where
  "so_line P m vs =
    bnd (read_opt P SOL_SOCKET (opt_val m) (fst vs) (snd vs)) (\<lambda>vs.
    let val = hd (fst vs); label = ''  '' @ c_str (description m) @ '': ''
    in bnd (if opt_type m = Int_type then print (label @ to_string (uint val))
            else if opt_type m = Bool_type then
              print (label @ (if val \<noteq> 0 then ''true'' else ''false''))
            else if opt_type m = Type_type then
              bnd (socketTypes_at (uint val)) (\<lambda>t. print (label @ c_str t))
            else ret ()) (\<lambda>_. ret vs))"

fun so_lines ::
  "('w, 'p) platform_scheme \<Rightarrow> SoOpts list \<Rightarrow> byte list \<times> nat \<Rightarrow> ('x, 'w, unit) info_act" where
  "so_lines P [] vs = ret ()"
| "so_lines P (m # ms) vs = bnd (so_line P m vs) (so_lines P ms)"

definition info_so :: "('w, 'p) platform_scheme \<Rightarrow> ('x, 'w, unit) info_act" where
  "info_so P =
    bnd (print '' [Socket Layer]-----------------'') (\<lambda>_.
    so_lines P socketOptsSOL ([uninit P 0], 1))"

definition IP_TTL :: int where "IP_TTL = 2"

definition IP_MULTICAST_IF :: int where "IP_MULTICAST_IF = 32"

definition IP_MULTICAST_TTL :: int where "IP_MULTICAST_TTL = 33"

definition info_ip :: "('w, 'p) platform_scheme \<Rightarrow> ('x, 'w, unit) info_act" where
  "info_ip P =
    bnd (print '' [IP Protocol]-----------------'') (\<lambda>_.
    bnd (read_opt P IPPROTO_IP IP_MULTICAST_IF (replicate 4 0) 4) (\<lambda>(addr, ss).
    bnd (print (''  multicast IF: '' @ ntop_buf P (of_le32 addr) 32)) (\<lambda>_.
    bnd (read_opt P IPPROTO_IP IP_MULTICAST_LOOP [uninit P 0] 1) (\<lambda>(val, sz).
    bnd (print (''  multicast loopback: '' @ (if hd val \<noteq> 0 then ''enabled'' else ''disabled''))) (\<lambda>_.
    bnd (read_opt P IPPROTO_IP IP_MULTICAST_TTL val sz) (\<lambda>(val, sz).
    bnd (print (''  multicast TTL: '' @ to_string (uint (hd val)))) (\<lambda>_.
    bnd (read_opt P IPPROTO_IP IP_TTL val sz) (\<lambda>(val, sz).
    print (''  IP TTL: '' @ to_string (uint (hd val)))))))))))"

text \<open>\<open>int type\<close> is not initialised; the parameter \<open>st\<close> is not used.\<close>

definition info :: "('w, 'p) platform_scheme \<Rightarrow> string \<Rightarrow> SocketTypes \<Rightarrow> ('x, 'w, unit) info_act" where
  "info P s st =
    bnd (print (''['' @ c_str s @ '' Socket] ====================================='')) (\<lambda>_.
    bnd (SocketInfo_getsockname P) (\<lambda>name.
    bnd (print (''  bind/connect to: '' @ c_str name)) (\<lambda>_.
    bnd (gets (\<lambda>s. info_fd (self s))) (\<lambda>fd.
    bnd (print (''  file descriptor: '' @ to_string fd)) (\<lambda>_.
    bnd (read_opt P SOL_SOCKET SO_TYPE (map (uninit P) [0..<4]) 4) (\<lambda>(type, len).
    let type = sint (of_le32 type)
    in bnd (if type = SOCK_DGRAM \<or> type = SOCK_STREAM then info_so P else ret ()) (\<lambda>_.
       if type = SOCK_DGRAM then info_ip P else ret ())))))))"

section \<open>Only questions about the own descriptor\<close>

text \<open>
  \<open>info\<close> returns, keeps the descriptor, and what it adds to the trace are calls that ask about
  this descriptor and neither open nor close one.
\<close>

definition only_asks :: "int \<Rightarrow> (syscall \<times> int) list \<Rightarrow> ('x SocketInfo_scheme, 'w) mach \<Rightarrow> bool" where
  "only_asks fd tr s \<longleftrightarrow> info_fd (self s) = fd \<and>
    (\<exists>es. trace s = tr @ es \<and> (\<forall>e \<in> set es. call_fd (fst e) = Some fd \<and> plain_call (fst e)))"

lemma only_asks_start: "only_asks (info_fd (self s)) (trace s) s"
  by (simp add: only_asks_def)

lemma only_asks_sys:
  assumes "only_asks fd tr s" and "call_fd c = Some fd" and "plain_call c"
  shows "only_asks fd tr (snd (sys P c s))"
proof -
  obtain es where "trace s = tr @ es" "\<forall>e \<in> set es. call_fd (fst e) = Some fd \<and> plain_call (fst e)"
    using assms(1) by (auto simp: only_asks_def)
  then show ?thesis
    using assms
    by (auto simp: only_asks_def sys_Val intro!: exI [of _ "es @ [(c, r)]" for r])
qed

lemma only_asks_print [keeps_intros]: "keeps (only_asks fd tr) (print line)"
  by (simp add: keeps_def only_asks_def print_apply)

lemma only_asks_read_opt [keeps_intros]: "keeps (only_asks fd tr) (read_opt P level name buf sz)"
proof (rule keepsI)
  fix s :: "('a SocketInfo_scheme, 'b) mach"
  assume s: "only_asks fd tr s"
  then have "info_fd (self s) = fd" by (simp add: only_asks_def)
  then show "only_asks fd tr (snd (read_opt P level name buf sz s))"
    using only_asks_sys [OF s, of "Sys_getsockopt fd level name sz" P]
    by (simp add: read_opt_def bnd_case gets_apply sys_Val ret_apply)
qed

lemma only_asks_getsockname [keeps_intros]: "keeps (only_asks fd tr) (SocketInfo_getsockname P)"
proof (rule keepsI)
  fix s :: "('a SocketInfo_scheme, 'b) mach"
  assume s: "only_asks fd tr s"
  then have "info_fd (self s) = fd" by (simp add: only_asks_def)
  then show "only_asks fd tr (snd (SocketInfo_getsockname P s))"
    using only_asks_sys [OF s, of "Sys_getsockname fd sizeof_inet" P]
    by (simp add: SocketInfo_getsockname_def bnd_case gets_apply sys_Val ret_apply)
qed

lemma only_asks_types [keeps_intros]: "keeps (only_asks fd tr) (socketTypes_at k)"
  by (simp add: keeps_def only_asks_def socketTypes_at_def bnd_case gets_apply modify_apply
      ret_apply split: option.split)

lemma only_asks_so_lines [keeps_intros]: "keeps (only_asks fd tr) (so_lines P ms vs)"
  by (induction ms arbitrary: vs) (simp_all add: so_line_def Let_def keeps_intros)

lemma only_asks_info: "keeps (only_asks fd tr) (info P name st)"
  unfolding info_def info_so_def info_ip_def Let_def
  by (auto split: prod.split intro!: keeps_intros)

definition returns :: "('s, 'a) act \<Rightarrow> bool" where
  "returns m \<longleftrightarrow> (\<forall>s. \<exists>x. fst (m s) = Val x)"

lemma returns_bnd: "returns m \<Longrightarrow> (\<And>x. returns (f x)) \<Longrightarrow> returns (bnd m f)"
  unfolding returns_def by (metis bnd_case outcome.simps(10))

lemma returns_basic:
  "returns (ret x)" "returns (print line)" "returns (gets f)" "returns (sys P c)" "returns (modify g)"
  by (simp_all add: returns_def ret_apply print_apply gets_apply sys_Val modify_apply)

lemma returns_if: "returns m \<Longrightarrow> returns n \<Longrightarrow> returns (if b then m else n)"
  by simp

lemmas returns_intros = returns_bnd returns_basic returns_if

lemma returns_so_line: "returns (so_line P m vs)"
  unfolding so_line_def read_opt_def Let_def socketTypes_at_def
  by (auto split: option.split intro!: returns_intros)

lemma returns_so_lines: "returns (so_lines P ms vs)"
  by (induction ms arbitrary: vs) (simp_all add: returns_intros returns_so_line)

lemma returns_info: "returns (info P name st)"
  unfolding info_def info_so_def info_ip_def SocketInfo_getsockname_def read_opt_def Let_def
  by (auto split: prod.split intro!: returns_intros returns_so_lines)

section \<open>The lines of the options\<close>

text \<open>
  \<open>getsockopt\<close> as documented: it copies as much of the option's value, an \<open>int\<close>, as the caller's
  size allows.
\<close>

definition opt_law :: "('w, 'p) platform_scheme \<Rightarrow> (int \<Rightarrow> 32 word) \<Rightarrow> bool" where
  "opt_law P v \<longleftrightarrow> (\<forall>fd name n w.
    r_ret (fst (kernel P (Sys_getsockopt fd SOL_SOCKET name n) w)) = 0 \<and>
    r_data (fst (kernel P (Sys_getsockopt fd SOL_SOCKET name n) w)) = take n (le32 (v name)))"

definition type_text :: "(int \<Rightarrow> string option) \<Rightarrow> int \<Rightarrow> string" where
  "type_text m k = (case m k of Some t \<Rightarrow> t | None \<Rightarrow> [])"

text \<open>The line for an option whose first byte is \<open>val\<close>.\<close>

definition opt_line :: "SoOpts \<Rightarrow> byte \<Rightarrow> string" where
  "opt_line m val = ''  '' @ c_str (description m) @ '': '' @ (case opt_type m of
      Int_type \<Rightarrow> to_string (uint val)
    | Bool_type \<Rightarrow> (if val \<noteq> 0 then ''true'' else ''false'')
    | _ \<Rightarrow> c_str (type_text default_types (uint val)))"

lemma read_opt_law:
  assumes "opt_law P v" and "length buf = 1"
  shows "read_opt P SOL_SOCKET name buf 1 s =
    (Val ([ucast (v name)], 1), snd (sys P (Sys_getsockopt (info_fd (self s)) SOL_SOCKET name 1) s))"
  using assms
  by (simp add: read_opt_def bnd_case gets_apply sys_Val ret_apply opt_law_def overwrite_def le32_def)

lemma socketTypes_at_law:
  assumes "type_text (socketTypes (self s)) = type_text default_types"
  shows "\<exists>t. socketTypes_at k s = (Val (type_text default_types k), t) \<and> cout t = cout s \<and>
    type_text (socketTypes (self t)) = type_text default_types"
proof -
  have k: "type_text (socketTypes (self s)) k = type_text default_types k" using assms by simp
  show ?thesis
  proof (cases "socketTypes (self s) k")
    case None
    then have d: "type_text default_types k = []" using k by (simp add: type_text_def)
    have "type_text ((socketTypes (self s))(k \<mapsto> [])) = type_text (socketTypes (self s))"
      using None by (auto simp: type_text_def fun_eq_iff)
    with None d assms show ?thesis
      by (simp add: socketTypes_at_def bnd_case gets_apply modify_apply ret_apply)
  next
    case (Some t)
    then have "type_text default_types k = t" using k by (simp add: type_text_def)
    with Some assms show ?thesis
      by (simp add: socketTypes_at_def bnd_case gets_apply ret_apply)
  qed
qed

lemma so_line_law:
  assumes "opt_law P v" and "length (fst vs) = 1" and "snd vs = 1"
    and "opt_type m \<noteq> Timeval_type" and "type_text (socketTypes (self s)) = type_text default_types"
  shows "\<exists>t. so_line P m vs s = (Val ([ucast (v (opt_val m))], 1), t) \<and>
    cout t = cout s @ [opt_line m (ucast (v (opt_val m)))] \<and>
    type_text (socketTypes (self t)) = type_text default_types"
proof -
  let ?val = "ucast (v (opt_val m)) :: byte"
  let ?s = "snd (sys P (Sys_getsockopt (info_fd (self s)) SOL_SOCKET (opt_val m) 1) s)"
  have "self ?s = self s" "cout ?s = cout s" by (simp_all add: sys_Val)
  with socketTypes_at_law [of ?s "uint ?val"] assms(5)
  obtain t where "socketTypes_at (uint ?val) ?s = (Val (type_text default_types (uint ?val)), t)"
    "cout t = cout s" "type_text (socketTypes (self t)) = type_text default_types" by auto
  with assms(4,5) \<open>self ?s = self s\<close> \<open>cout ?s = cout s\<close> show ?thesis
    by (cases "opt_type m")
      (simp_all add: so_line_def read_opt_law [OF assms(1,2)] assms(3) bnd_case print_apply ret_apply opt_line_def Let_def
        del: One_nat_def)
qed

lemma so_lines_law:
  assumes "opt_law P v" and "length (fst vs) = 1" and "snd vs = 1"
    and "\<forall>m \<in> set ms. opt_type m \<noteq> Timeval_type"
    and "type_text (socketTypes (self s)) = type_text default_types"
  shows "cout (snd (so_lines P ms vs s)) = cout s @ map (\<lambda>m. opt_line m (ucast (v (opt_val m)))) ms"
  using assms(2-)
proof (induction ms arbitrary: vs s)
  case Nil
  then show ?case by (simp add: ret_apply)
next
  case (Cons m ms)
  from so_line_law [OF assms(1) Cons.prems(1,2) _ Cons.prems(4), of m] Cons.prems(3)
  obtain t where t: "so_line P m vs s = (Val ([ucast (v (opt_val m))], 1), t)"
    "cout t = cout s @ [opt_line m (ucast (v (opt_val m)))]"
    "type_text (socketTypes (self t)) = type_text default_types" by auto
  then show ?case using Cons.IH [OF _ _ _ t(3)] Cons.prems(3) by (simp add: bnd_case)
qed

end
