(* ===== verification/Sample_Platform.thy ===== *)
theory Sample_Platform
  imports Lifetime Req_Rep Host_Info Socket_Info
begin

text \<open>
  A concrete C library and a small in-memory kernel. They show that what the properties assume of
  the platform can hold, and let the properties be evaluated on concrete inputs; the model does
  not depend on them.
\<close>

section \<open>The library\<close>

definition sample_inet_addr :: "string \<Rightarrow> 32 word" where
  "sample_inet_addr s =
    (if s = ''127.0.0.1'' then 0x0100007F else if s = ''9.9.9.9'' then 0x09090909
     else if s = ''0.0.0.0'' then 0 else 0xFFFFFFFF)"

definition sample_inet_ntop :: "32 word \<Rightarrow> string" where
  "sample_inet_ntop a =
    (if a = 0x0100007F then ''127.0.0.1'' else if a = 0x09090909 then ''9.9.9.9''
     else if a = 0 then ''0.0.0.0'' else ''255.255.255.255'')"

definition sample_env :: env where
  "sample_env = \<lparr>inet_addr = sample_inet_addr, inet_ntop = sample_inet_ntop,
     inet_ntoa = sample_inet_ntop, strerror = (\<lambda>e. ''error '' @ to_string e),
     uninit = (\<lambda>_. 0xCC), stale = Some\<rparr>"

section \<open>The kernel\<close>

text \<open>
  The next descriptor, the datagrams that wait, each with the address it came from, and the ones
  that were sent.
\<close>

record net =
  next_fd :: int
  inbox :: "(byte list \<times> byte list) list"
  outbox :: "(byte list \<times> byte list) list"

definition answer :: "int \<Rightarrow> byte list \<Rightarrow> byte list \<Rightarrow> int list \<Rightarrow> reply" where
  "answer n data addr fds = \<lparr>r_ret = n, r_errno = 11, r_data = data, r_addr = addr, r_fds = fds\<rparr>"

definition take_datagram :: "nat \<Rightarrow> bool \<Rightarrow> net \<Rightarrow> reply \<times> net" where
  "take_datagram n with_addr w = (case inbox w of
      [] \<Rightarrow> (answer (- 1) [] [] [], w)
    | (d, a) # ds \<Rightarrow>
        (answer (int (min n (length d))) (take n d) (if with_addr then a else []) [], w\<lparr>inbox := ds\<rparr>))"

definition sample_option :: "int \<Rightarrow> 32 word" where
  "sample_option name = (if name = SO_TYPE then 2 else if name = SO_RCVBUF then 212992 else 1)"

fun sample_kernel :: "syscall \<Rightarrow> net \<Rightarrow> reply \<times> net" where
  "sample_kernel (Sys_socket f t p) w =
    (answer (max 3 (next_fd w)) [] [] [], w\<lparr>next_fd := max 3 (next_fd w) + 1\<rparr>)"
| "sample_kernel (Sys_recvfrom fd n flags with_addr) w = take_datagram n with_addr w"
| "sample_kernel (Sys_recv fd n flags) w = take_datagram n False w"
| "sample_kernel (Sys_sendto fd m flags a) w =
    (answer (int (length m)) [] [] [], w\<lparr>outbox := outbox w @ [(m, a)]\<rparr>)"
| "sample_kernel (Sys_select hi rs ws tv) w = (answer (int (length (rs @ ws))) [] [] (rs @ ws), w)"
| "sample_kernel (Sys_getsockopt fd l name n) w = (answer 0 (take n (le32 (sample_option name))) [] [], w)"
| "sample_kernel (Sys_getsockname fd n) w =
    (answer 0 [] (inet_bytes (inet_of 0x0100007F 9000)) [], w)"
| "sample_kernel (Sys_getnameinfo a n) w = (answer 0 (map byte_of_char ''localhost'' @ [0]) [] [], w)"
| "sample_kernel c w = (answer 0 [] [] [], w)"

definition sample :: "net platform" where
  "sample = env.extend sample_env \<lparr>kernel = sample_kernel\<rparr>"

text \<open>A kernel that refuses every call.\<close>

definition refusing :: "net platform" where
  "refusing = env.extend sample_env \<lparr>kernel = (\<lambda>c w. (answer (- 1) [] [] [], w))\<rparr>"

definition net_start :: net where
  "net_start = \<lparr>next_fd = 3, inbox = [], outbox = []\<rparr>"

definition machine :: "'o \<Rightarrow> net \<Rightarrow> ('o, net) mach" where
  "machine obj w = \<lparr>self = obj, world = w, errno = 0, trace = [], cout = []\<rparr>"

lemma sample_simps [simp]:
  "inet_addr sample = sample_inet_addr" "inet_ntop sample = sample_inet_ntop"
  "inet_ntoa sample = sample_inet_ntop" "strerror sample e = ''error '' @ to_string e"
  "uninit sample i = 0xCC" "stale sample = Some" "kernel sample = sample_kernel"
  "inet_addr refusing = sample_inet_addr" "inet_ntop refusing = sample_inet_ntop"
  "strerror refusing e = ''error '' @ to_string e" "uninit refusing i = 0xCC" "stale refusing = Some"
  "kernel refusing c w = (answer (- 1) [] [] [], w)"
  by (simp_all add: sample_def refusing_def sample_env_def env.defs)

lemma answer_simps [simp]:
  "r_ret (answer n d a fds) = n" "r_errno (answer n d a fds) = 11" "r_data (answer n d a fds) = d"
  "r_addr (answer n d a fds) = a" "r_fds (answer n d a fds) = fds"
  by (simp_all add: answer_def)

lemma machine_simps [simp]:
  "self (machine obj w) = obj" "world (machine obj w) = w" "trace (machine obj w) = []"
  "cout (machine obj w) = []" "errno (machine obj w) = 0"
  by (simp_all add: machine_def)

lemma sample_intact [simp]: "frame_intact sample" "frame_intact refusing"
  by (simp_all add: frame_intact_def)

lemma sample_laws [simp]: "socket_law sample" "socket_law refusing"
  by (simp_all add: socket_law_def le_max_iff_disj)

end
