(* ===== verification/Call_Invariants.thy ===== *)
theory Call_Invariants
  imports Lifetime
begin

text \<open>
  What every system call of the library keeps, every operation keeps: the contract of an
  invariant of the process with the member functions, and its first instance, the
  well-formedness of the calls themselves. The buffers and texts the library passes to the
  kernel have the shape the kernel expects of them.
\<close>

section \<open>Calls the library makes\<close>

text \<open>
  \<open>allowed A c\<close>: the call is one the library may make if the addresses it names satisfy \<open>A\<close>:
  the descriptors of a \<open>select\<close> fit its set and lie below the bound it is given, a timeout is in
  range, a path has no NUL, the buffer for an address has the size of the structure.
\<close>

fun allowed :: "(byte list \<Rightarrow> bool) \<Rightarrow> syscall \<Rightarrow> bool" where
  "allowed A (Sys_bind fd a) \<longleftrightarrow> A a"
| "allowed A (Sys_connect fd a) \<longleftrightarrow> A a"
| "allowed A (Sys_sendto fd m flags a) \<longleftrightarrow> A a"
| "allowed A (Sys_select hi rs ws tv) \<longleftrightarrow>
    (\<forall>fd \<in> set (rs @ ws). 0 \<le> fd \<and> fd < FD_SETSIZE \<and> fd < hi) \<and> \<bar>tv_usec tv\<bar> < 1000000"
| "allowed A (Sys_setsockopt fd l n v) \<longleftrightarrow>
    (case v of Opt_int i \<Rightarrow> True | Opt_time tv \<Rightarrow> \<bar>tv_usec tv\<bar> < 1000000)"
| "allowed A (Sys_getsockname fd n) \<longleftrightarrow> n = sizeof_inet"
| "allowed A (Sys_unlink path) \<longleftrightarrow> CHR 0x00 \<notin> set path"
| "allowed A (Sys_getnameinfo a n) \<longleftrightarrow> A a"
| "allowed A c \<longleftrightarrow> True"

text \<open>An address as one of the two structures lays it out.\<close>

definition wf_addr :: "byte list \<Rightarrow> bool" where
  "wf_addr a \<longleftrightarrow> length a = sizeof_inet \<or> length a = sizeof_unix"

definition wf_inet :: "inetaddr_t \<Rightarrow> bool" where
  "wf_inet a \<longleftrightarrow> length (sin_zero a) = 8"

definition wf_unix :: "unixaddr_t \<Rightarrow> bool" where
  "wf_unix a \<longleftrightarrow> length (sun_path a) = sizeof_sun_path"

definition wf_trace :: "(syscall \<times> int) list \<Rightarrow> bool" where
  "wf_trace tr \<longleftrightarrow> (\<forall>e \<in> set tr. allowed wf_addr (fst e))"

lemma wf_bytes [intro]: "wf_inet a \<Longrightarrow> wf_addr (inet_bytes a)" "wf_unix b \<Longrightarrow> wf_addr (unix_bytes b)"
  by (simp_all add: wf_inet_def wf_unix_def wf_addr_def inet_bytes_def unix_bytes_def sizeof_defs)

text \<open>A read of the dead frame gives as many bytes as the object had.\<close>

definition frame_sized :: "'x env_scheme \<Rightarrow> bool" where
  "frame_sized P \<longleftrightarrow> (\<forall>u v. stale P u = Some v \<longrightarrow> length v = length u)"

lemma frame_intact_sized: "frame_intact P \<Longrightarrow> frame_sized P"
  by (simp add: frame_intact_def frame_sized_def)

text \<open>Whatever the text, \<open>filter\<close> leaves a union of 112 bytes.\<close>

lemma set_path_length: "set_path p n u = Val v \<Longrightarrow> length u = 112 \<Longrightarrow> length v = 112"
  by (auto simp: set_path_def sizeof_defs strncpy_bytes_def split: if_splits)

lemma filter_length: "filter_addr P t = Val u \<Longrightarrow> length u = 112"
  by (auto simp: filter_addr_def Let_def bind_outcome_Val_iff dest: set_path_length split: if_splits)

lemma read_filter_length:
  assumes "frame_sized P" and "read_filter P t = Val u"
  shows "length u = 112"
proof -
  obtain v where "filter_addr P t = Val v" "stale P v = Some u"
    using assms(2) by (auto simp: read_filter_def bind_outcome_Val_iff split: option.splits)
  with assms(1) filter_length show ?thesis by (metis frame_sized_def)
qed

lemma parsed_wf:
  assumes "frame_sized P"
  shows "inet_sockaddr P t = Val a \<Longrightarrow> wf_inet a" and "unix_sockaddr P t = Val b \<Longrightarrow> wf_unix b"
  using read_filter_length [OF assms]
  by (auto simp: inet_sockaddr_def unix_sockaddr_def bind_outcome_Val_iff wf_inet_def wf_unix_def
      inet_view_def unix_view_def sizeof_defs)

section \<open>The contract\<close>

lemma keeps_bnd_lift:
  "(\<And>x. r = Val x \<Longrightarrow> keeps I (f x)) \<Longrightarrow> keeps I (bnd (lift_outcome r) f)"
  by (cases r) (simp_all add: keeps_def bnd_case lift_outcome_apply)

locale call_invariant =
  fixes P :: "('w, 'p) platform_scheme"
    and A :: "byte list \<Rightarrow> bool"
    and I :: "('x Socket_scheme, 'w) mach \<Rightarrow> bool"
  assumes kept: "allowed A c \<Longrightarrow> keeps I (sys P c)"
    and parsed_inet: "inet_sockaddr P t = Val a \<Longrightarrow> A (inet_bytes a)"
    and parsed_unix: "unix_sockaddr P t = Val b \<Longrightarrow> A (unix_bytes b)"
    and fd_free: "I (s\<lparr>self := (self s)\<lparr>socket_fd := fd\<rparr>\<rparr>) = I s"
    and cout_free: "I (s\<lparr>cout := out\<rparr>) = I s"
begin

lemma set_fd_kept: "keeps I (set_fd fd)"
  by (simp add: keeps_def set_fd_apply fd_free)

lemma print_kept: "keeps I (print line)"
  by (simp add: keeps_def print_apply cout_free)

lemmas basic_kept = keeps_intros set_fd_kept print_kept kept

lemma close_kept: "keeps I (Socket_close P)"
  unfolding Socket_close_def by (intro basic_kept) simp_all

lemma guard_kept: "keeps I (guard P err msg)"
  unfolding guard_def by (intro basic_kept close_kept)

lemma makeSocket_kept: "keeps I (makeSocket P f t p)"
  unfolding makeSocket_def by (intro basic_kept guard_kept) simp_all

lemma ctor_kept: "keeps I (SocketUDP_ctor P)" "keeps I (SocketUnix_ctor P)"
  unfolding SocketUDP_ctor_def SocketUnix_ctor_def Socket_ctor_def Socket_dtor_def
  by (intro basic_kept makeSocket_kept close_kept)+

lemma setsockopt_kept: "keeps I (setsockopt P l n v)"
  unfolding setsockopt_def by (intro basic_kept guard_kept) simp_all

lemma settimeout_kept: "keeps I (settimeout P ms)"
proof -
  have "\<bar>tv_usec (get_time ms)\<bar> < 1000000" using get_time_parts [of ms] by (cases "0 \<le> ms") auto
  then show ?thesis unfolding settimeout_def by (intro basic_kept guard_kept) simp_all
qed

lemma select_kept:
  assumes "\<And>r. keeps I (k r)"
  shows "keeps I (bnd (lift_outcome (FD_SET fd [])) (\<lambda>fds. bnd (sys P (Sys_select (fd + 1) fds [] (Timeval 0 1000))) k))"
    and "keeps I (bnd (lift_outcome (FD_SET fd [])) (\<lambda>fds. bnd (sys P (Sys_select (fd + 1) [] fds (Timeval 0 1000))) k))"
  by (rule keeps_bnd_lift, rule keeps_bnd [OF kept assms], auto simp: FD_SET_def split: if_splits)+

lemma setSocket_kept: "keeps I (setSocket P t type)"
  unfolding setSocket_def Let_def
  by (intro basic_kept keeps_bnd_lift guard_kept)
    (auto simp: parsed_inet parsed_unix c_str_def dest: set_takeWhileD)

lemma base_kept: "keeps I (run_base P c)"
  by (cases c)
    (auto simp: getSocketFD_def getsockname_def setnonblocking_def available_def availableForWrite_def
      reuseSocket_def Socket_bind_def Socket_connect_def
      intro!: keeps_ignore basic_kept guard_kept close_kept setsockopt_kept settimeout_kept
        select_kept setSocket_kept)

lemma udp_kept:
  "keeps I (SocketUDP_recvfrom P n from flags)" "keeps I (SocketUDP_recv P n flags)"
  "A (inet_bytes a) \<Longrightarrow> keeps I (SocketUDP_sendto P m a flags)"
  unfolding SocketUDP_recv_def SocketUDP_recvfrom_def SocketUDP_sendto_def Let_def
  by (auto intro!: basic_kept guard_kept split: prod.split)

lemma unix_kept:
  "keeps I (SocketUnix_recvfrom P n from' flags)" "keeps I (SocketUnix_recv P n flags)"
  "A (unix_bytes b) \<Longrightarrow> keeps I (SocketUnix_sendto P m b flags)"
  unfolding SocketUnix_recv_def SocketUnix_recvfrom_def SocketUnix_sendto_def Let_def
  by (auto intro!: basic_kept guard_kept split: option.split)

lemma run_udp_kept: "(\<And>m a flags. c = Call_sendto m a flags \<Longrightarrow> A (inet_bytes a)) \<Longrightarrow> keeps I (run_udp P c)"
  by (cases c) (auto intro!: keeps_ignore base_kept udp_kept)

lemma run_unix_kept: "(\<And>m a flags. c = Call_sendto m a flags \<Longrightarrow> A (unix_bytes a)) \<Longrightarrow> keeps I (run_unix P c)"
  by (cases c) (auto intro!: keeps_ignore base_kept unix_kept)

lemma lifetime_kept:
  assumes "keeps I ctor" and "\<And>c. c \<in> set cs \<Longrightarrow> keeps I (run c)"
  shows "keeps I (lifetime P ctor run cs)"
  unfolding lifetime_def Socket_dtor_def
  by (intro keeps_bnd assms(1) run_calls_keeps assms(2) close_kept)

end

section \<open>Well-formed calls\<close>

text \<open>The addresses a caller hands in are well-formed structures.\<close>

fun call_addr :: "('addr \<Rightarrow> bool) \<Rightarrow> 'addr member_call \<Rightarrow> bool" where
  "call_addr ok (Call_sendto m a flags) \<longleftrightarrow> ok a"
| "call_addr ok c \<longleftrightarrow> True"

lemma wf_trace_simps [simp]:
  "wf_trace []" "wf_trace (tr @ [e]) \<longleftrightarrow> allowed wf_addr (fst e) \<and> wf_trace tr"
  by (auto simp: wf_trace_def)

interpretation wf_calls: call_invariant P "\<lambda>a. frame_sized P \<longrightarrow> wf_addr a"
  "\<lambda>s. frame_sized P \<longrightarrow> wf_trace (trace s)" for P
  by unfold_locales (auto simp: keeps_def intro: parsed_wf)

interpretation wf_bc: call_invariant P "\<lambda>a. frame_sized P \<longrightarrow> wf_addr a"
  "\<lambda>s. frame_sized P \<longrightarrow> wf_trace (trace s) \<and> wf_inet (bc_addr (self s))" for P
  by unfold_locales (auto simp: keeps_def intro: parsed_wf)

lemma keeps_from:
  "(\<And>s. I s \<Longrightarrow> keeps I (f (g s))) \<Longrightarrow> keeps I (bnd (gets g) f)"
  by (simp add: keeps_def bnd_case gets_apply)

lemma cast_wf:
  assumes "frame_sized P"
  shows "keeps (\<lambda>s. frame_sized P \<longrightarrow> wf_trace (trace s) \<and> wf_inet (bc_addr (self s))) (SocketBC_cast P m)"
  unfolding SocketBC_cast_def by (rule keeps_from) (rule wf_bc.udp_kept, use assms in auto)

lemma run_bc_wf:
  assumes "frame_sized P" and "\<And>c'. c = Udp c' \<Longrightarrow> call_addr wf_inet c'"
  shows "keeps (\<lambda>s. frame_sized P \<longrightarrow> wf_trace (trace s) \<and> wf_inet (bc_addr (self s))) (run_bc P c)"
proof (cases c)
  case (Udp c')
  then have "keeps (\<lambda>s. frame_sized P \<longrightarrow> wf_trace (trace s) \<and> wf_inet (bc_addr (self s))) (run_udp P c')"
    using assms(2) by (intro wf_bc.run_udp_kept) auto
  then show ?thesis using Udp by simp
next
  case (Call_cast m)
  show ?thesis unfolding Call_cast run_bc.simps by (rule keeps_ignore, rule cast_wf, rule assms(1))
qed

lemma SocketBC_ctor_wf:
  "keeps (\<lambda>s. frame_sized P \<longrightarrow> wf_trace (trace s)) (SocketBC_ctor P port)"
  unfolding SocketBC_ctor_def Socket_dtor_def
  by (intro keeps_intros wf_calls.ctor_kept wf_calls.setsockopt_kept wf_calls.close_kept)
    (simp add: keeps_def modify_apply)

lemma SocketBC_ctor_addr:
  assumes "frame_sized P" and "SocketBC_ctor P port s = (Val (), t)"
  shows "wf_inet (bc_addr (self t))"
  using assms(2) parsed_wf(1) [OF assms(1)]
  by (auto simp: SocketBC_ctor_def bnd_Val_iff on_throw_Val lift_outcome_apply modify_apply)

text \<open>What a caller gets from the library may be handed back to it.\<close>

lemma received_wf:
  "SocketUDP_recvfrom P n from flags s = (Val (m, Some a), t) \<Longrightarrow> wf_inet a"
  "SocketUnix_recvfrom P n from' flags s' = (Val (m', Some b), t') \<Longrightarrow> wf_unix b"
  subgoal by (auto simp: SocketUDP_recvfrom_eq Let_def wf_inet_def inet_view_def)
  subgoal by (cases "from'") (auto simp: SocketUnix_recvfrom_Some SocketUnix_recvfrom_None
      Let_def wf_unix_def unix_view_def sizeof_defs)
  done

lemma sent_addr: "\<forall>c \<in> set cs. call_addr ok c \<Longrightarrow> Call_sendto m a flags \<in> set cs \<Longrightarrow> ok a"
  by force

lemma lifetimes_wf:
  assumes "frame_sized P" and "wf_trace (trace s)" and "wf_trace (trace s')"
    and "\<forall>c \<in> set cs. call_addr wf_inet c" and "\<forall>c \<in> set ds. call_addr wf_unix c"
    and "\<forall>c \<in> set es. (\<forall>c'. c = Udp c' \<longrightarrow> call_addr wf_inet c')"
  shows "wf_trace (trace (snd (lifetime P (SocketUDP_ctor P) (run_udp P) cs s)))"
    and "wf_trace (trace (snd (lifetime P (SocketUnix_ctor P) (run_unix P) ds s)))"
    and "wf_trace (trace (snd (lifetime P (SocketBC_ctor P port) (run_bc P) es s')))"
proof -
  let ?J = "\<lambda>s. frame_sized P \<longrightarrow> wf_trace (trace s)"
  have "keeps ?J (lifetime P (SocketUDP_ctor P) (run_udp P) cs)"
    using assms(4) by (intro wf_calls.lifetime_kept wf_calls.ctor_kept wf_calls.run_udp_kept) (auto dest: sent_addr)
  from keepsD [OF this] assms(1,2)
  show "wf_trace (trace (snd (lifetime P (SocketUDP_ctor P) (run_udp P) cs s)))" by simp
  have "keeps ?J (lifetime P (SocketUnix_ctor P) (run_unix P) ds)"
    using assms(5) by (intro wf_calls.lifetime_kept wf_calls.ctor_kept wf_calls.run_unix_kept) (auto dest: sent_addr)
  from keepsD [OF this] assms(1,2)
  show "wf_trace (trace (snd (lifetime P (SocketUnix_ctor P) (run_unix P) ds s)))" by simp
  let ?K = "\<lambda>s. frame_sized P \<longrightarrow> wf_trace (trace s) \<and> wf_inet (bc_addr (self s))"
  have tail: "keeps ?K (bnd (run_calls (run_bc P) es) (\<lambda>_. Socket_dtor P))"
    unfolding Socket_dtor_def
    using assms(1,6) by (intro keeps_bnd run_calls_keeps run_bc_wf wf_bc.close_kept) auto
  have ctor: "wf_trace (trace (snd (SocketBC_ctor P port s')))"
    using keepsD [OF SocketBC_ctor_wf, of P s' port] assms(1,3) by simp
  show "wf_trace (trace (snd (lifetime P (SocketBC_ctor P port) (run_bc P) es s')))"
  proof (cases "fst (SocketBC_ctor P port s')")
    case (Val u)
    then have "SocketBC_ctor P port s' = (Val (), snd (SocketBC_ctor P port s'))"
      by (simp add: prod_eq_iff)
    then have "?K (snd (SocketBC_ctor P port s'))"
      using ctor SocketBC_ctor_addr [OF assms(1)] by blast
    from keepsD [OF tail this] Val assms(1) show ?thesis by (simp add: lifetime_def bnd_case)
  qed (use ctor in \<open>simp_all add: lifetime_def bnd_case\<close>)
qed

end
