(* ===== verification/Process.thy ===== *)
theory Process
  imports Call_Invariants
begin

text \<open>
  A program with any number of sockets of all three classes, which share the kernel, \<open>errno\<close> and
  the trace. A step builds a socket, calls a member function of one, or destroys one, in any
  order; between the steps the rest of the world may change, except for the descriptors of the
  program. What the descriptors of one object are is not affected by the others.
\<close>

section \<open>Objects and steps\<close>

datatype sock_obj = UDP_obj Socket | Unix_obj Socket | BC_obj SocketBC

fun obj_fd :: "sock_obj \<Rightarrow> int" where
  "obj_fd (UDP_obj obj) = socket_fd obj"
| "obj_fd (Unix_obj obj) = socket_fd obj"
| "obj_fd (BC_obj obj) = socket_fd obj"

type_synonym 'w process = "(nat \<Rightarrow> sock_obj option, 'w) mach"

definition defined :: "'a outcome \<Rightarrow> bool" where
  "defined r \<longleftrightarrow> (\<forall>u. r \<noteq> Undef u)"

inductive process_step ::
  "('w, 'p) platform_scheme \<Rightarrow> ('w \<Rightarrow> int set) \<Rightarrow> 'w process \<Rightarrow> 'w process \<Rightarrow> bool"
  for P :: "('w, 'p) platform_scheme" and opened :: "'w \<Rightarrow> int set"
where
  build_udp: "self s i = None \<Longrightarrow> SocketUDP_ctor P (with_self (raw :: Socket) s) = (Val (), t) \<Longrightarrow>
    process_step P opened s (with_self ((self s)(i \<mapsto> UDP_obj (self t))) t)"
| build_unix: "self s i = None \<Longrightarrow> SocketUnix_ctor P (with_self (raw :: Socket) s) = (Val (), t) \<Longrightarrow>
    process_step P opened s (with_self ((self s)(i \<mapsto> Unix_obj (self t))) t)"
| build_bc: "self s i = None \<Longrightarrow> SocketBC_ctor P port (with_self (raw_bc :: SocketBC) s) = (Val (), t) \<Longrightarrow>
    process_step P opened s (with_self ((self s)(i \<mapsto> BC_obj (self t))) t)"
| build_udp_fails: "SocketUDP_ctor P (with_self (raw :: Socket) s) = (Exn e, t) \<Longrightarrow>
    process_step P opened s (with_self (self s) t)"
| build_unix_fails: "SocketUnix_ctor P (with_self (raw :: Socket) s) = (Exn e, t) \<Longrightarrow>
    process_step P opened s (with_self (self s) t)"
| build_bc_fails: "SocketBC_ctor P port (with_self (raw_bc :: SocketBC) s) = (Exn e, t) \<Longrightarrow>
    process_step P opened s (with_self (self s) t)"
| call_udp: "self s i = Some (UDP_obj obj) \<Longrightarrow> run_udp P c (with_self obj s) = (r, t) \<Longrightarrow> defined r \<Longrightarrow>
    process_step P opened s (with_self ((self s)(i \<mapsto> UDP_obj (self t))) t)"
| call_unix: "self s i = Some (Unix_obj obj) \<Longrightarrow> run_unix P d (with_self obj s) = (r, t) \<Longrightarrow> defined r \<Longrightarrow>
    process_step P opened s (with_self ((self s)(i \<mapsto> Unix_obj (self t))) t)"
| call_bc: "self s i = Some (BC_obj bc) \<Longrightarrow> run_bc P e (with_self bc s) = (r, t) \<Longrightarrow> defined r \<Longrightarrow>
    process_step P opened s (with_self ((self s)(i \<mapsto> BC_obj (self t))) t)"
| destroy: "self s i = Some (UDP_obj obj) \<or> self s i = Some (Unix_obj obj) \<Longrightarrow>
    Socket_dtor P (with_self obj s) = (r, t) \<Longrightarrow>
    process_step P opened s (with_self ((self s)(i := None)) t)"
| destroy_bc: "self s i = Some (BC_obj bc) \<Longrightarrow> Socket_dtor P (with_self bc s) = (r, t) \<Longrightarrow>
    process_step P opened s (with_self ((self s)(i := None)) t)"
| rest: "opened w = opened (world s) \<Longrightarrow> process_step P opened s (s\<lparr>world := w, errno := n, cout := out\<rparr>)"

text \<open>Programs start without sockets and without descriptors of their own.\<close>

definition process_start :: "'w process \<Rightarrow> bool" where
  "process_start s \<longleftrightarrow> self s = Map.empty \<and> trace s = []"

definition reachable :: "('w, 'p) platform_scheme \<Rightarrow> ('w \<Rightarrow> int set) \<Rightarrow> 'w process \<Rightarrow> bool" where
  "reachable P opened s \<longleftrightarrow> (\<exists>s\<^sub>0. process_start s\<^sub>0 \<and> (process_step P opened)\<^sup>*\<^sup>* s\<^sub>0 s)"

section \<open>The descriptor table of the kernel\<close>

text \<open>
  As documented: \<open>socket(2)\<close> returns a descriptor that was not open, or \<open>-1\<close>; \<open>close(2)\<close> frees the
  descriptor whatever it returns; no other call of the library opens or closes one.
\<close>

definition fd_law :: "('w, 'p) platform_scheme \<Rightarrow> ('w \<Rightarrow> int set) \<Rightarrow> bool" where
  "fd_law P opened \<longleftrightarrow> (\<forall>c w. let r = r_ret (fst (kernel P c w)); w' = snd (kernel P c w) in
     case c of
       Sys_socket f t p \<Rightarrow> (r = - 1 \<and> opened w' = opened w) \<or>
         (0 \<le> r \<and> r \<notin> opened w \<and> opened w' = insert r (opened w))
     | Sys_close fd \<Rightarrow> opened w' = opened w - {fd}
     | _ \<Rightarrow> opened w' = opened w)"

lemma fd_law_socket:
  assumes "fd_law P opened"
  shows "let r = r_ret (fst (kernel P (Sys_socket f t p) w)); w' = snd (kernel P (Sys_socket f t p) w) in
    (r = - 1 \<and> opened w' = opened w) \<or> (0 \<le> r \<and> r \<notin> opened w \<and> opened w' = insert r (opened w))"
  using assms [unfolded fd_law_def, rule_format, of "Sys_socket f t p" w] by (simp add: Let_def)

lemma fd_law_socket_law:
  assumes "fd_law P opened"
  shows "socket_law P"
  unfolding socket_law_def
proof (intro allI)
  fix f t p w
  show "- 1 \<le> r_ret (fst (kernel P (Sys_socket f t p) w))"
    using fd_law_socket [OF assms, of f t p w] by (auto simp: Let_def)
qed

text \<open>What the program has open is open in the table of the kernel, and only once.\<close>

definition table_inv :: "('w \<Rightarrow> int set) \<Rightarrow> ('o, 'w) mach \<Rightarrow> bool" where
  "table_inv opened s \<longleftrightarrow>
    set_mset (live (trace s)) \<subseteq> opened (world s) \<and> (\<forall>fd. count (live (trace s)) fd \<le> 1)"

lemma table_inv_sys:
  assumes "fd_law P opened" and "table_inv opened s"
  shows "table_inv opened (snd (sys P c s))"
proof -
  have law: "let r = r_ret (fst (kernel P c (world s))); w' = snd (kernel P c (world s)) in
     case c of
       Sys_socket f t p \<Rightarrow> (r = - 1 \<and> opened w' = opened (world s)) \<or>
         (0 \<le> r \<and> r \<notin> opened (world s) \<and> opened w' = insert r (opened (world s)))
     | Sys_close fd \<Rightarrow> opened w' = opened (world s) - {fd}
     | _ \<Rightarrow> opened w' = opened (world s)"
    using assms(1) unfolding fd_law_def by blast
  show ?thesis
  proof (cases c)
    case (Sys_socket f t p)
    then show ?thesis
      using law assms(2)
      by (auto simp: table_inv_def sys_Val Let_def count_eq_zero_iff)
  next
    case (Sys_close fd)
    have "\<not> 1 < count (live (trace s)) fd" using assms(2) by (simp add: table_inv_def not_less)
    with Sys_close show ?thesis
      using law assms(2)
      by (auto simp: table_inv_def sys_Val Let_def in_diff_count dest: in_diffD)
  qed (use law assms(2) in \<open>simp_all add: table_inv_def sys_Val Let_def\<close>)
qed

lemma table_inv_simps [simp]:
  "table_inv opened (with_self obj s) = table_inv opened s"
  "table_inv opened (u\<lparr>self := obj'\<rparr>) = table_inv opened u"
  "table_inv opened (u\<lparr>cout := out\<rparr>) = table_inv opened u"
  by (simp_all add: table_inv_def)

interpretation table: call_invariant P "\<lambda>_. True" "\<lambda>s. fd_law P opened \<longrightarrow> table_inv opened s"
  for P opened
  by unfold_locales (auto simp: keeps_def table_inv_sys)

section \<open>The invariant of a process\<close>

text \<open>What all objects hold, counted with multiplicity; what all but one hold.\<close>

definition fd_mset :: "int \<Rightarrow> int multiset" where
  "fd_mset fd = (if fd = - 1 then {#} else {#fd#})"

definition held :: "(nat \<Rightarrow> sock_obj option) \<Rightarrow> int multiset" where
  "held objs = (\<Sum>i \<in> dom objs. fd_mset (obj_fd (the (objs i))))"

definition process_inv :: "('w \<Rightarrow> int set) \<Rightarrow> 'w process \<Rightarrow> bool" where
  "process_inv opened s \<longleftrightarrow> finite (dom (self s)) \<and> trace_ok (trace s) \<and>
    live (trace s) = held (self s) \<and> table_inv opened s"

lemma own_fds_mset: "own_fds obj = fd_mset (socket_fd obj)"
  by (simp add: own_fds_def fd_mset_def)

lemma held_split:
  assumes "finite (dom objs)" and "objs i = Some x"
  shows "held objs = held (objs(i := None)) + fd_mset (obj_fd x)"
proof -
  have "i \<in> dom objs" using assms(2) by blast
  then have "held objs = fd_mset (obj_fd x) + (\<Sum>j \<in> dom objs - {i}. fd_mset (obj_fd (the (objs j))))"
    using assms by (simp add: held_def sum.remove)
  also have "(\<Sum>j \<in> dom objs - {i}. fd_mset (obj_fd (the (objs j)))) = held (objs(i := None))"
    unfolding held_def by (rule sum.cong) auto
  finally show ?thesis by (simp add: add.commute)
qed

lemma held_update:
  assumes "finite (dom objs)"
  shows "held (objs(i \<mapsto> x)) = held (objs(i := None)) + fd_mset (obj_fd x)"
  using held_split [of "objs(i \<mapsto> x)" i x] assms by simp

text \<open>A member function of one object works within what the others hold.\<close>

lemma process_inv_focus:
  assumes "process_inv opened s" and "self s i = Some x" and "socket_fd obj = obj_fd x"
  shows "sock_frame (held ((self s)(i := None))) (with_self obj s)"
  using assms held_split [of "self s" i x]
  by (simp add: process_inv_def sock_frame_def own_fds_mset)

lemma process_inv_put:
  assumes "process_inv opened s" and "sock_frame (held ((self s)(i := None))) t" and "table_inv opened t"
    and "obj_fd x = socket_fd (self t)"
  shows "process_inv opened (with_self ((self s)(i \<mapsto> x)) t)"
  using assms held_update [of "self s" i x]
  by (simp add: process_inv_def sock_frame_def own_fds_mset)

lemma process_inv_drop:
  assumes "process_inv opened s" and "sock_frame (held ((self s)(i := None))) t" and "table_inv opened t"
    and "socket_fd (self t) = - 1"
  shows "process_inv opened (with_self ((self s)(i := None)) t)"
  using assms by (simp add: process_inv_def sock_frame_def own_fds_def)

lemma held_free: "objs i = None \<Longrightarrow> held (objs(i := None)) = held objs"
  by (simp add: fun_upd_idem)

lemma process_inv_built:
  assumes "process_inv opened s" and "self s i = None" and "sock_frame (held (self s)) t"
    and "table_inv opened t" and "obj_fd x = socket_fd (self t)"
  shows "process_inv opened (with_self ((self s)(i \<mapsto> x)) t)"
  using assms by (intro process_inv_put) (simp_all add: held_free)

lemma process_inv_not_built:
  assumes "process_inv opened s" and "sock_frame (held (self s)) t" and "table_inv opened t"
    and "socket_fd (self t) = - 1"
  shows "process_inv opened (with_self (self s) t)"
  using assms by (simp add: process_inv_def sock_frame_def own_fds_def)

section \<open>Every step keeps the invariant\<close>

lemma table_bc_ctor: "keeps (\<lambda>s. fd_law P opened \<longrightarrow> table_inv opened s) (SocketBC_ctor P port)"
  unfolding SocketBC_ctor_def Socket_dtor_def
  by (intro keeps_intros table.ctor_kept table.setsockopt_kept table.close_kept)
    (simp add: keeps_def modify_apply)

lemma table_run_bc: "keeps (\<lambda>s. fd_law P opened \<longrightarrow> table_inv opened s) (run_bc P c)"
  by (cases c) (auto simp: SocketBC_cast_def intro!: keeps_ignore keeps_intros table.run_udp_kept table.udp_kept)

text \<open>What a step needs to know of a constructor and of a member function.\<close>

definition builder ::
  "('w, 'p) platform_scheme \<Rightarrow> ('w \<Rightarrow> int set) \<Rightarrow> ('x, 'w, unit) sock_act \<Rightarrow> bool" where
  "builder P opened m \<longleftrightarrow>
    (\<forall>s. trace_ok (trace s) \<longrightarrow> sock_frame (live (trace s)) (snd (m s))) \<and>
    keeps (\<lambda>s. fd_law P opened \<longrightarrow> table_inv opened s) m \<and>
    (\<forall>s e. fst (m s) = Exn e \<longrightarrow> socket_fd (self (snd (m s))) = - 1)"

definition member ::
  "('w, 'p) platform_scheme \<Rightarrow> ('w \<Rightarrow> int set) \<Rightarrow> ('x, 'w, unit) sock_act \<Rightarrow> bool" where
  "member P opened m \<longleftrightarrow> (\<forall>M. keeps (sock_frame M) m) \<and>
    keeps (\<lambda>s. fd_law P opened \<longrightarrow> table_inv opened s) m"

lemma builderI:
  "(\<And>s. trace_ok (trace s) \<Longrightarrow> sock_frame (live (trace s)) (snd (m s))) \<Longrightarrow>
    keeps (\<lambda>s. fd_law P opened \<longrightarrow> table_inv opened s) m \<Longrightarrow>
    (\<And>s e. fst (m s) = Exn e \<Longrightarrow> socket_fd (self (snd (m s))) = - 1) \<Longrightarrow> builder P opened m"
  by (simp add: builder_def)

lemma memberI:
  "(\<And>M. keeps (sock_frame M) m) \<Longrightarrow> keeps (\<lambda>s. fd_law P opened \<longrightarrow> table_inv opened s) m \<Longrightarrow>
    member P opened m"
  by (simp add: member_def)

lemma builders:
  assumes "socket_law P"
  shows "builder P opened (SocketUDP_ctor P)" and "builder P opened (SocketUnix_ctor P)"
    and "builder P opened (SocketBC_ctor P port)"
proof -
  show "builder P opened (SocketUDP_ctor P)"
    by (rule builderI [OF owned_udp.ctor_inv [OF assms _ refl] table.ctor_kept(1) owned_udp.ctor_throws])
  show "builder P opened (SocketUnix_ctor P)"
    by (rule builderI [OF owned_unix.ctor_inv [OF assms _ refl] table.ctor_kept(2) owned_unix.ctor_throws])
  show "builder P opened (SocketBC_ctor P port)"
    by (rule builderI [OF owned_bc.ctor_inv [OF assms _ refl] table_bc_ctor owned_bc.ctor_throws])
qed

lemma members:
  "member P opened (run_udp P c)" "member P opened (run_unix P d)" "member P opened (run_bc P e)"
  "member P opened (Socket_dtor P)"
  unfolding Socket_dtor_def
  by (rule memberI [OF run_udp_inv table.run_udp_kept [OF TrueI]]
      memberI [OF run_unix_inv table.run_unix_kept [OF TrueI]]
      memberI [OF run_bc_inv table_run_bc] memberI [OF sock_inv_close table.close_kept])+

lemma builder_result:
  assumes "builder P opened m" and "fd_law P opened" and "process_inv opened s"
    and "m (with_self raw s) = (r, t)"
  shows "sock_frame (held (self s)) t" and "table_inv opened t"
    and "r = Exn e \<Longrightarrow> socket_fd (self t) = - 1"
proof -
  have start: "trace_ok (trace (with_self raw s))" "live (trace (with_self raw s)) = held (self s)"
    "table_inv opened (with_self raw s)"
    using assms(3) by (simp_all add: process_inv_def)
  have t: "snd (m (with_self raw s)) = t" "fst (m (with_self raw s)) = r" by (simp_all add: assms(4))
  show "sock_frame (held (self s)) t"
    using assms(1) start(1,2) t(1) unfolding builder_def by metis
  show "table_inv opened t"
    using assms(1,2) start(3) t(1) unfolding builder_def by (metis keepsD)
  show "r = Exn e \<Longrightarrow> socket_fd (self t) = - 1"
    using assms(1) t unfolding builder_def by metis
qed

lemma build_step:
  assumes "builder P opened m" and "fd_law P opened" and "process_inv opened s"
    and "self s i = None" and "m (with_self raw s) = (Val (), t)" and "obj_fd x = socket_fd (self t)"
  shows "process_inv opened (with_self ((self s)(i \<mapsto> x)) t)"
  by (rule process_inv_built [OF assms(3,4) builder_result(1,2) [OF assms(1-3,5)] assms(6)])

lemma build_fails_step:
  assumes "builder P opened m" and "fd_law P opened" and "process_inv opened s"
    and "m (with_self raw s) = (Exn e, t)"
  shows "process_inv opened (with_self (self s) t)"
  by (rule process_inv_not_built [OF assms(3) builder_result(1,2) [OF assms]])
    (rule builder_result(3) [OF assms refl])

lemma member_result:
  assumes "member P opened m" and "fd_law P opened" and "process_inv opened s"
    and "self s i = Some x" and "socket_fd obj = obj_fd x" and "m (with_self obj s) = (r, t)"
  shows "sock_frame (held ((self s)(i := None))) t" and "table_inv opened t"
proof -
  have t: "snd (m (with_self obj s)) = t" by (simp add: assms(6))
  show "sock_frame (held ((self s)(i := None))) t"
    using assms(1) process_inv_focus [OF assms(3-5)] t unfolding member_def by (metis keepsD)
  have "table_inv opened (with_self obj s)" using assms(3) by (simp add: process_inv_def)
  then show "table_inv opened t"
    using assms(1,2) t unfolding member_def by (metis keepsD)
qed

lemma member_step:
  assumes "member P opened m" and "fd_law P opened" and "process_inv opened s"
    and "self s i = Some x" and "socket_fd obj = obj_fd x" and "m (with_self obj s) = (r, t)"
    and "obj_fd y = socket_fd (self t)"
  shows "process_inv opened (with_self ((self s)(i \<mapsto> y)) t)"
  by (rule process_inv_put [OF assms(3) member_result [OF assms(1-6)] assms(7)])

lemma dtor_step:
  assumes "fd_law P opened" and "process_inv opened s"
    and "self s i = Some x" and "socket_fd obj = obj_fd x" and "Socket_dtor P (with_self obj s) = (r, t)"
  shows "process_inv opened (with_self ((self s)(i := None)) t)"
proof (rule process_inv_drop [OF assms(2) member_result [OF members(4) assms]])
  show "socket_fd (self t) = - 1"
    using Socket_close_fd [of P "with_self obj s"] assms(5) by (simp add: Socket_dtor_def)
qed

lemma rest_step:
  assumes "process_inv opened s" and "opened w = opened (world s)"
  shows "process_inv opened (s\<lparr>world := w, errno := n, cout := out\<rparr>)"
proof -
  have "table_inv opened s" using assms(1) by (simp add: process_inv_def)
  then have "table_inv opened (s\<lparr>world := w, errno := n, cout := out\<rparr>)"
    using assms(2) by (simp add: table_inv_def)
  with assms(1) show ?thesis by (simp add: process_inv_def)
qed

lemma process_step_inv:
  assumes "process_step P opened s s'" and law: "fd_law P opened" and inv: "process_inv opened s"
  shows "process_inv opened s'"
  using assms(1)
proof cases
  note build = builders [OF fd_law_socket_law [OF law], of opened]
  {
    case build_udp
    show ?thesis unfolding build_udp(1) by (rule build_step [OF build(1) law inv build_udp(2,3)]) simp
  next
    case build_unix
    show ?thesis unfolding build_unix(1) by (rule build_step [OF build(2) law inv build_unix(2,3)]) simp
  next
    case build_bc
    show ?thesis unfolding build_bc(1) by (rule build_step [OF build(3) law inv build_bc(2,3)]) simp
  next
    case build_udp_fails
    show ?thesis unfolding build_udp_fails(1) by (rule build_fails_step [OF build(1) law inv build_udp_fails(2)])
  next
    case build_unix_fails
    show ?thesis unfolding build_unix_fails(1) by (rule build_fails_step [OF build(2) law inv build_unix_fails(2)])
  next
    case build_bc_fails
    show ?thesis unfolding build_bc_fails(1) by (rule build_fails_step [OF build(3) law inv build_bc_fails(2)])
  next
    case call_udp
    show ?thesis unfolding call_udp(1) by (rule member_step [OF members(1) law inv call_udp(2) _ call_udp(3)]) simp_all
  next
    case call_unix
    show ?thesis unfolding call_unix(1) by (rule member_step [OF members(2) law inv call_unix(2) _ call_unix(3)]) simp_all
  next
    case call_bc
    show ?thesis unfolding call_bc(1) by (rule member_step [OF members(3) law inv call_bc(2) _ call_bc(3)]) simp_all
  next
    case (destroy i obj r t)
    then obtain x where x: "self s i = Some x" "socket_fd obj = obj_fd x" by auto
    show ?thesis unfolding destroy(1) by (rule dtor_step [OF law inv x destroy(3)])
  next
    case destroy_bc
    show ?thesis unfolding destroy_bc(1) by (rule dtor_step [OF law inv destroy_bc(2) _ destroy_bc(3)]) simp
  next
    case rest
    show ?thesis unfolding rest(1) by (rule rest_step [OF inv rest(2)])
  }
qed

lemma reachable_inv:
  assumes "fd_law P opened" and "reachable P opened s"
  shows "process_inv opened s"
proof -
  obtain s\<^sub>0 where start: "process_start s\<^sub>0" and steps: "(process_step P opened)\<^sup>*\<^sup>* s\<^sub>0 s"
    using assms(2) by (auto simp: reachable_def)
  from steps show ?thesis
  proof (induction rule: rtranclp_induct)
    case base
    show ?case using start by (simp add: process_start_def process_inv_def held_def table_inv_def)
  next
    case (step t u)
    then show ?case using process_step_inv assms(1) by blast
  qed
qed

lemma held_fds:
  assumes "finite (dom objs)"
  shows "set_mset (held objs) = {obj_fd x | i x. objs i = Some x \<and> obj_fd x \<noteq> - 1}"
  using assms by (force simp: held_def fd_mset_def set_mset_sum dom_def split: if_splits)

lemma held_distinct:
  assumes "finite (dom objs)" and "\<forall>fd. count (held objs) fd \<le> 1"
    and "objs i = Some x" and "objs j = Some y" and "i \<noteq> j" and "obj_fd x \<noteq> - 1"
  shows "obj_fd x \<noteq> obj_fd y"
proof
  assume eq: "obj_fd x = obj_fd y"
  have "held objs = held (objs(i := None, j := None)) + fd_mset (obj_fd y) + fd_mset (obj_fd x)"
    using held_split [OF assms(1,3)] held_split [of "objs(i := None)" j y] assms(1,4,5) by simp
  then have "2 \<le> count (held objs) (obj_fd x)" using assms(6) eq by (simp add: fd_mset_def)
  with assms(2) show False by (metis not_less_eq_eq numeral_2_eq_2 One_nat_def)
qed

end
