(* ===== verification/Network.thy ===== *)
theory Network
  imports Req_Rep
begin

text \<open>
  What the exchange of datagrams between sockets rests on: a network that delivers, stated as a
  law of the kernel, and receives that block while another program takes its turn. Both sockets
  of the library turn the law of the kernel into the same contract (locale \<open>delivering_socket\<close>);
  a request is then one action with the turn of the replier inside.
\<close>

section \<open>A network that delivers\<close>

text \<open>
  \<open>queue w fd\<close> are the datagrams that wait at a descriptor, each with the address it came from;
  \<open>addr_of w fd\<close> is the address its own datagrams carry; \<open>reaches w a fd\<close> says that what is sent
  to \<open>a\<close> arrives at \<open>fd\<close>. As documented, a datagram is taken whole, cut to the size of the
  buffer; that none is lost is what a network that delivers means. A call that sends or receives
  leaves the addresses alone.
\<close>

type_synonym datagrams = "(byte list \<times> byte list) list"

definition net_becomes ::
  "('w \<Rightarrow> int \<Rightarrow> datagrams) \<Rightarrow> ('w \<Rightarrow> int \<Rightarrow> byte list) \<Rightarrow> ('w \<Rightarrow> byte list \<Rightarrow> int \<Rightarrow> bool) \<Rightarrow>
    'w \<Rightarrow> (int \<Rightarrow> datagrams) \<Rightarrow> 'w \<Rightarrow> bool" where
  "net_becomes queue addr_of reaches w Q w' \<longleftrightarrow>
    queue w' = Q \<and> addr_of w' = addr_of w \<and> reaches w' = reaches w"

definition dgram_law ::
  "('w, 'p) platform_scheme \<Rightarrow> ('w \<Rightarrow> int \<Rightarrow> datagrams) \<Rightarrow> ('w \<Rightarrow> int \<Rightarrow> byte list) \<Rightarrow>
    ('w \<Rightarrow> byte list \<Rightarrow> int \<Rightarrow> bool) \<Rightarrow> bool" where
  "dgram_law P queue addr_of reaches \<longleftrightarrow>
    (\<forall>fd m flags a w. let (r, w') = kernel P (Sys_sendto fd m flags a) w in
       r_ret r = int (length m) \<and>
       net_becomes queue addr_of reaches w
         (\<lambda>g. queue w g @ (if reaches w a g then [(m, addr_of w fd)] else [])) w') \<and>
    (\<forall>fd n flags b w d src ds. queue w fd = (d, src) # ds \<longrightarrow>
       (let (r, w') = kernel P (Sys_recvfrom fd n flags b) w in
          r_ret r = int (min n (length d)) \<and> r_data r = take n d \<and>
          r_addr r = (if b then src else []) \<and>
          net_becomes queue addr_of reaches w ((queue w)(fd := ds)) w')) \<and>
    (\<forall>fd n flags w d src ds. queue w fd = (d, src) # ds \<longrightarrow>
       (let (r, w') = kernel P (Sys_recv fd n flags) w in
          r_ret r = int (min n (length d)) \<and> r_data r = take n d \<and>
          net_becomes queue addr_of reaches w ((queue w)(fd := ds)) w'))"

lemma dgram_send:
  assumes "dgram_law P queue addr_of reaches" and "kernel P (Sys_sendto fd m flags a) w = (r, w')"
  shows "r_ret r = int (length m)"
    and "net_becomes queue addr_of reaches w
      (\<lambda>g. queue w g @ (if reaches w a g then [(m, addr_of w fd)] else [])) w'"
  using assms(1) [unfolded dgram_law_def, THEN conjunct1, rule_format, of fd m flags a w] assms(2)
  by simp_all

lemma dgram_receive:
  assumes "dgram_law P queue addr_of reaches" and "queue w fd = (d, src) # ds"
  shows "kernel P (Sys_recvfrom fd n flags b) w = (r, w') \<Longrightarrow>
      r_ret r = int (min n (length d)) \<and> r_data r = take n d \<and> r_addr r = (if b then src else []) \<and>
      net_becomes queue addr_of reaches w ((queue w)(fd := ds)) w'"
    and "kernel P (Sys_recv fd n flags) w = (r, w') \<Longrightarrow>
      r_ret r = int (min n (length d)) \<and> r_data r = take n d \<and>
      net_becomes queue addr_of reaches w ((queue w)(fd := ds)) w'"
  using assms(1) [unfolded dgram_law_def, THEN conjunct2, THEN conjunct1, rule_format, of w fd d src ds n flags b]
    assms(1) [unfolded dgram_law_def, THEN conjunct2, THEN conjunct2, rule_format, of w fd d src ds n flags]
    assms(2)
  by simp_all

text \<open>The message a receive of \<open>n\<close> bytes makes of a datagram.\<close>

definition delivered :: "nat \<Rightarrow> byte list \<Rightarrow> message_t" where
  "delivered n d = (if d = [] then [] else take n d @ replicate (n - length d) 0)"

lemma delivered_whole [simp]: "length d = n \<Longrightarrow> delivered n d = d"
  by (simp add: delivered_def)

lemma overwrite_cut: "overwrite (replicate n x) (take n d) = take n d @ replicate (n - length d) x"
  by (simp add: overwrite_def min_def)

section \<open>The contract of a socket over such a network\<close>

locale delivering_socket = dgram_socket recv recvfrom sendto addr_bytes
  for recv :: "nat \<Rightarrow> ('x, 'w, message_t) sock_act"
    and recvfrom :: "nat \<Rightarrow> 'addr option \<Rightarrow> ('x, 'w, message_t \<times> 'addr option) sock_act"
    and sendto :: "message_t \<Rightarrow> 'addr \<Rightarrow> ('x, 'w, int) sock_act"
    and addr_bytes :: "'addr \<Rightarrow> byte list" +
  fixes law :: bool
    and queue :: "'w \<Rightarrow> int \<Rightarrow> datagrams"
    and addr_of :: "'w \<Rightarrow> int \<Rightarrow> byte list"
    and reaches :: "'w \<Rightarrow> byte list \<Rightarrow> int \<Rightarrow> bool"
    and addr_size :: nat
  assumes recv_delivers: "law \<Longrightarrow> queue (world s) (socket_fd (self s)) = (d, src) # ds \<Longrightarrow>
      \<exists>t. recv n s = (Val (delivered n d), t) \<and> self t = self s \<and> cout t = cout s \<and>
        net_becomes queue addr_of reaches (world s) ((queue (world s))(socket_fd (self s) := ds)) (world t)"
    and recvfrom_delivers: "law \<Longrightarrow> queue (world s) (socket_fd (self s)) = (d, src) # ds \<Longrightarrow>
      \<exists>b t. recvfrom n (Some a) s = (Val (delivered n d, Some b), t) \<and> self t = self s \<and> cout t = cout s \<and>
        addr_bytes b = overwrite (replicate addr_size 0) src \<and>
        net_becomes queue addr_of reaches (world s) ((queue (world s))(socket_fd (self s) := ds)) (world t)"
    and sendto_delivers: "law \<Longrightarrow>
      \<exists>num t. sendto m a s = (Val num, t) \<and> self t = self s \<and> cout t = cout s \<and>
        net_becomes queue addr_of reaches (world s)
          (\<lambda>g. queue (world s) g @
            (if reaches (world s) (addr_bytes a) g then [(m, addr_of (world s) (socket_fd (self s)))] else []))
          (world t)"

interpretation net_udp: delivering_socket
  "\<lambda>n. SocketUDP_recv P n 0 :: ('x, 'w, message_t) sock_act" "\<lambda>n from. SocketUDP_recvfrom P n from 0"
  "\<lambda>m a. SocketUDP_sendto P m a 0" inet_bytes "dgram_law P queue addr_of reaches" queue addr_of reaches sizeof_inet
  for P :: "('w, 'p) platform_scheme" and queue addr_of reaches
proof unfold_locales
  fix s :: "('x Socket_scheme, 'w) mach" and d src ds n
  assume law: "dgram_law P queue addr_of reaches" and q: "queue (world s) (socket_fd (self s)) = (d, src) # ds"
  note rcv = dgram_receive(1) [OF law q prod.collapse [symmetric]]
  show "\<exists>t. SocketUDP_recv P n 0 s = (Val (delivered n d), t) \<and> self t = self s \<and> cout t = cout s \<and>
      net_becomes queue addr_of reaches (world s) ((queue (world s))(socket_fd (self s) := ds)) (world t)"
    using rcv [where n = n and flags = 0 and b = False] by (auto simp: SocketUDP_recv_eq Let_def sys_Val delivered_def overwrite_cut min_def)
  show "\<exists>b t. SocketUDP_recvfrom P n (Some a) 0 s = (Val (delivered n d, Some b), t) \<and> self t = self s \<and>
      cout t = cout s \<and> inet_bytes b = overwrite (replicate sizeof_inet 0) src \<and>
      net_becomes queue addr_of reaches (world s) ((queue (world s))(socket_fd (self s) := ds)) (world t)" for a
    using rcv [where n = n and flags = 0 and b = True]
    by (auto simp: SocketUDP_recvfrom_eq Let_def sys_Val delivered_def overwrite_cut min_def inet_bytes_view sizeof_inet_def)
next
  fix m a and s :: "('x Socket_scheme, 'w) mach"
  assume law: "dgram_law P queue addr_of reaches"
  show "\<exists>num t. SocketUDP_sendto P m a 0 s = (Val num, t) \<and> self t = self s \<and> cout t = cout s \<and>
      net_becomes queue addr_of reaches (world s)
        (\<lambda>g. queue (world s) g @
          (if reaches (world s) (inet_bytes a) g then [(m, addr_of (world s) (socket_fd (self s)))] else []))
        (world t)"
    using dgram_send(2) [OF law prod.collapse [symmetric], where fd = "socket_fd (self s)" and m = m and flags = 0
      and a = "inet_bytes a" and w = "world s"]
    by (simp add: SocketUDP_sendto_eq Let_def sys_Val)
qed

interpretation net_unix: delivering_socket
  "\<lambda>n. SocketUnix_recv P n 0 :: ('x, 'w, message_t) sock_act" "\<lambda>n from. SocketUnix_recvfrom P n from 0"
  "\<lambda>m a. SocketUnix_sendto P m a 0" unix_bytes "dgram_law P queue addr_of reaches" queue addr_of reaches sizeof_unix
  for P :: "('w, 'p) platform_scheme" and queue addr_of reaches
proof unfold_locales
  fix s :: "('x Socket_scheme, 'w) mach" and d src ds n
  assume law: "dgram_law P queue addr_of reaches" and q: "queue (world s) (socket_fd (self s)) = (d, src) # ds"
  note rcv = dgram_receive(2) [OF law q prod.collapse [symmetric], where n = n and flags = 0]
  show "\<exists>t. SocketUnix_recv P n 0 s = (Val (delivered n d), t) \<and> self t = self s \<and> cout t = cout s \<and>
      net_becomes queue addr_of reaches (world s) ((queue (world s))(socket_fd (self s) := ds)) (world t)"
    using rcv by (auto simp: SocketUnix_recv_ok Let_def sys_Val delivered_def overwrite_cut min_def)
  note rcv = dgram_receive(1) [OF law q prod.collapse [symmetric], where n = n and flags = 0 and b = True]
  show "\<exists>b t. SocketUnix_recvfrom P n (Some a) 0 s = (Val (delivered n d, Some b), t) \<and> self t = self s \<and>
      cout t = cout s \<and> unix_bytes b = overwrite (replicate sizeof_unix 0) src \<and>
      net_becomes queue addr_of reaches (world s) ((queue (world s))(socket_fd (self s) := ds)) (world t)" for a
    using rcv
    by (auto simp: SocketUnix_recvfrom_Some Let_def sys_Val delivered_def overwrite_cut min_def unix_bytes_view sizeof_unix_def)
next
  fix m a and s :: "('x Socket_scheme, 'w) mach"
  assume law: "dgram_law P queue addr_of reaches"
  show "\<exists>num t. SocketUnix_sendto P m a 0 s = (Val num, t) \<and> self t = self s \<and> cout t = cout s \<and>
      net_becomes queue addr_of reaches (world s)
        (\<lambda>g. queue (world s) g @
          (if reaches (world s) (unix_bytes a) g then [(m, addr_of (world s) (socket_fd (self s)))] else []))
        (world t)"
    using dgram_send(2) [OF law prod.collapse [symmetric], where fd = "socket_fd (self s)" and m = m and flags = 0
      and a = "unix_bytes a" and w = "world s"]
    by (simp add: SocketUnix_sendto_eq Let_def sys_Val)
qed

section \<open>Receives that block\<close>

text \<open>While a receive blocks, another program takes its turn on the shared world.\<close>

definition during_receive ::
  "('w \<Rightarrow> 'w) \<Rightarrow> ('w, 'p) platform_scheme \<Rightarrow> ('w, 'p) platform_scheme" where
  "during_receive turn P = P\<lparr>kernel := (\<lambda>c w. kernel P c (case c of
      Sys_recvfrom fd n flags b \<Rightarrow> turn w
    | Sys_recv fd n flags \<Rightarrow> turn w
    | _ \<Rightarrow> w))\<rparr>"

definition blocking :: "('w \<Rightarrow> 'w) \<Rightarrow> (('o, 'w) mach, 'a) act \<Rightarrow> (('o, 'w) mach, 'a) act" where
  "blocking turn m s = m (s\<lparr>world := turn (world s)\<rparr>)"

lemma during_receive_simps [simp]:
  "kernel (during_receive turn P) (Sys_recvfrom fd n flags b) w = kernel P (Sys_recvfrom fd n flags b) (turn w)"
  "kernel (during_receive turn P) (Sys_recv fd n flags) w = kernel P (Sys_recv fd n flags) (turn w)"
  "kernel (during_receive turn P) (Sys_sendto fd m flags a) w = kernel P (Sys_sendto fd m flags a) w"
  "kernel (during_receive turn P) (Sys_close fd) w = kernel P (Sys_close fd) w"
  "strerror (during_receive turn P) = strerror P"
  by (simp_all add: during_receive_def)

lemma during_receive_close: "Socket_close (during_receive turn P) = Socket_close P"
  by (simp add: fun_eq_iff Socket_close_def bnd_case get_fd_apply sys_Val set_fd_apply ret_apply)

lemma during_receive_sockets:
  "SocketUDP_recv (during_receive turn P) n flags = blocking turn (SocketUDP_recv P n flags)"
  "SocketUDP_sendto (during_receive turn P) m a flags = SocketUDP_sendto P m a flags"
  "SocketUnix_sendto (during_receive turn P) m b flags = SocketUnix_sendto P m b flags"
  by (simp_all add: fun_eq_iff SocketUDP_recv_eq SocketUDP_sendto_eq SocketUnix_sendto_eq
      blocking_def sys_Val Let_def)

lemma during_receive_unix_recv:
  "SocketUnix_recv (during_receive turn P) n flags = blocking turn (SocketUnix_recv P n flags)"
proof (rule ext)
  fix s :: "('a Socket_scheme, 'b) mach"
  let ?c = "Sys_recv (socket_fd (self s)) n flags"
  have sys: "snd (sys (during_receive turn P) ?c s) = snd (sys P ?c (s\<lparr>world := turn (world s)\<rparr>))"
    by (simp add: sys_Val)
  show "SocketUnix_recv (during_receive turn P) n flags s = blocking turn (SocketUnix_recv P n flags) s"
  proof (cases "r_ret (fst (kernel P ?c (turn (world s)))) < 0")
    case True
    then show ?thesis
      by (simp add: blocking_def SocketUnix_recv_fail sys failure_def during_receive_close Let_def)
  next
    case False
    then show ?thesis by (simp add: blocking_def SocketUnix_recv_ok sys Let_def)
  qed
qed

text \<open>Whatever makes no receive is the same.\<close>

lemma during_receive_env [simp]:
  "inet_addr (during_receive turn P) = inet_addr P" "uninit (during_receive turn P) = uninit P"
  "stale (during_receive turn P) = stale P"
  by (simp_all add: during_receive_def)

lemma during_receive_sys:
  "(\<And>fd n flags b. c \<noteq> Sys_recvfrom fd n flags b) \<Longrightarrow> (\<And>fd n flags. c \<noteq> Sys_recv fd n flags) \<Longrightarrow>
    sys (during_receive turn P) c = sys P c"
  by (cases c) (auto simp: during_receive_def sys_def fun_eq_iff)

lemma during_receive_addresses:
  "inet_sockaddr (during_receive turn P) = inet_sockaddr P"
  "unix_sockaddr (during_receive turn P) = unix_sockaddr P"
  by (simp_all add: fun_eq_iff inet_sockaddr_def unix_sockaddr_def read_filter_def filter_addr_def SockAddr_zero_def
      cong: if_cong)

lemma during_receive_guard: "guard (during_receive turn P) = guard P"
  by (simp add: fun_eq_iff guard_def during_receive_close)

lemma during_receive_ctors:
  "SocketUDP_ctor (during_receive turn P) = SocketUDP_ctor P"
  "SocketUnix_ctor (during_receive turn P) = SocketUnix_ctor P"
  by (simp_all add: SocketUDP_ctor_def SocketUnix_ctor_def makeSocket_def Socket_dtor_def
      during_receive_guard during_receive_sys during_receive_close)

lemma during_receive_bind: "Socket_bind (during_receive turn P) = Socket_bind P"
  by (simp add: fun_eq_iff Socket_bind_def setSocket_def Let_def during_receive_guard during_receive_sys
      during_receive_addresses cong: if_cong)

text \<open>The turn of a program that is in the state \<open>p\<close>, on the world as it is then.\<close>

definition turn_of :: "(('o, 'w) mach, unit) act \<Rightarrow> ('o, 'w) mach \<Rightarrow> 'w \<Rightarrow> 'w" where
  "turn_of once p w = world (snd (once (p\<lparr>world := w\<rparr>)))"

definition replier_turn ::
  "('w, 'p) platform_scheme \<Rightarrow> (('w, 'y) Reply_scheme, 'w) mach \<Rightarrow> 'w \<Rightarrow> 'w" where
  "replier_turn P = turn_of (ReplyUDP_once P)"

definition unix_replier_turn ::
  "('w, 'p) platform_scheme \<Rightarrow> (('w, 'y) Reply_scheme, 'w) mach \<Rightarrow> 'w \<Rightarrow> 'w" where
  "unix_replier_turn P = turn_of (ReplyUnix_once P)"

section \<open>A request and its answer\<close>

text \<open>
  Two descriptors that are the only ones their addresses lead to, with nothing on the way. The
  requester's is answered at its address as the replier's structure holds it: padded with zeros.
\<close>

definition idle_pair ::
  "('w \<Rightarrow> int \<Rightarrow> datagrams) \<Rightarrow> ('w \<Rightarrow> int \<Rightarrow> byte list) \<Rightarrow> ('w \<Rightarrow> byte list \<Rightarrow> int \<Rightarrow> bool) \<Rightarrow>
    nat \<Rightarrow> int \<Rightarrow> int \<Rightarrow> byte list \<Rightarrow> 'w \<Rightarrow> bool" where
  "idle_pair queue addr_of reaches addr_size q r a w \<longleftrightarrow> q \<noteq> r \<and> queue w q = [] \<and> queue w r = [] \<and>
    (\<forall>g. reaches w a g \<longleftrightarrow> g = r) \<and>
    (\<forall>g. reaches w (overwrite (replicate addr_size 0) (addr_of w q)) g \<longleftrightarrow> g = q)"

text \<open>
  The turn of a replier with one request waiting: the callback gets it, and its result is sent
  to where the request came from.
\<close>

locale delivering_replier = delivering_socket recv recvfrom sendto addr_bytes law queue addr_of reaches addr_size
  for recv :: "nat \<Rightarrow> ((('w, 'y) Reply_scheme, 'w) mach, message_t) act"
    and recvfrom :: "nat \<Rightarrow> 'addr option \<Rightarrow>
      ((('w, 'y) Reply_scheme, 'w) mach, message_t \<times> 'addr option) act"
    and sendto :: "message_t \<Rightarrow> 'addr \<Rightarrow> ((('w, 'y) Reply_scheme, 'w) mach, int) act"
    and addr_bytes :: "'addr \<Rightarrow> byte list"
    and law queue addr_of reaches addr_size +
  fixes zero :: 'addr
begin

lemma once_answers:
  assumes law and "queue (world s) (socket_fd (self s)) = (m, src) # ds"
    and "length m = rep_msg_size (self s)" and "m \<noteq> []"
    and "callback (self s) = Some cb" and "\<And>w. fst (cb m w) = Val r \<and> fst (snd (cb m w)) = w"
  shows "\<exists>u. Reply_once zero recvfrom sendto s = (Val (), u) \<and> self u = self s \<and>
    net_becomes queue addr_of reaches (world s)
      (\<lambda>g. (if g = socket_fd (self s) then ds else queue (world s) g) @
        (if reaches (world s) (overwrite (replicate addr_size 0) src) g
         then [(r, addr_of (world s) (socket_fd (self s)))] else []))
      (world u)"
proof -
  obtain b t where t: "recvfrom (rep_msg_size (self s)) (Some zero) s = (Val (m, Some b), t)" "self t = self s"
    "addr_bytes b = overwrite (replicate addr_size 0) src"
    "net_becomes queue addr_of reaches (world s) ((queue (world s))(socket_fd (self s) := ds)) (world t)"
    using recvfrom_delivers [OF assms(1,2), where n = "rep_msg_size (self s)" and a = zero] assms(3) by auto
  obtain out where cb: "cb m (world t) = (Val r, world t, out)"
    using assms(6) [of "world t"] by (metis prod.collapse)
  let ?t = "t\<lparr>cout := cout t @ out\<rparr>"
  obtain num u where u: "sendto r b ?t = (Val num, u)" "self u = self ?t"
    "net_becomes queue addr_of reaches (world ?t) (\<lambda>g. queue (world ?t) g @
      (if reaches (world ?t) (addr_bytes b) g then [(r, addr_of (world ?t) (socket_fd (self ?t)))] else [])) (world u)"
    using sendto_delivers [OF assms(1), of r b ?t] by blast
  have "Reply_once zero recvfrom sendto s = (Val (), u)"
    using t(1,2) u(1) cb assms(3-5)
    by (simp add: Reply_once_def bnd_case gets_apply call_function_def call_eq ret_apply)
  with u(2,3) t(2-4) show ?thesis by (simp add: net_becomes_def fun_eq_iff)
qed

lemma turn_answers:
  assumes law and "queue w (socket_fd (self p)) = [(m, src)]"
    and "length m = rep_msg_size (self p)" and "m \<noteq> []"
    and "callback (self p) = Some cb" and "\<And>w. fst (cb m w) = Val r \<and> fst (snd (cb m w)) = w"
  shows "net_becomes queue addr_of reaches w
    (\<lambda>g. (if g = socket_fd (self p) then [] else queue w g) @
      (if reaches w (overwrite (replicate addr_size 0) src) g then [(r, addr_of w (socket_fd (self p)))] else []))
    (turn_of (Reply_once zero recvfrom sendto) p w)"
  using once_answers [OF assms(1), of "p\<lparr>world := w\<rparr>" m src "[]" cb r] assms(2-6)
  by (auto simp: turn_of_def cong: if_cong)

end

locale exchange =
  rep: delivering_replier recv' recvfrom' sendto' addr_bytes law queue addr_of reaches addr_size zero +
  req: delivering_socket recv recvfrom sendto addr_bytes law queue addr_of reaches addr_size
  for recv' :: "nat \<Rightarrow> ((('w, 'y) Reply_scheme, 'w) mach, message_t) act"
    and recvfrom' :: "nat \<Rightarrow> 'addr option \<Rightarrow>
      ((('w, 'y) Reply_scheme, 'w) mach, message_t \<times> 'addr option) act"
    and sendto' :: "message_t \<Rightarrow> 'addr \<Rightarrow> ((('w, 'y) Reply_scheme, 'w) mach, int) act"
    and addr_bytes law queue addr_of reaches addr_size zero
    and recv :: "nat \<Rightarrow> (('z Request_scheme, 'w) mach, message_t) act"
    and recvfrom :: "nat \<Rightarrow> 'addr option \<Rightarrow> (('z Request_scheme, 'w) mach, message_t \<times> 'addr option) act"
    and sendto :: "message_t \<Rightarrow> 'addr \<Rightarrow> (('z Request_scheme, 'w) mach, int) act"
begin

lemma request_answered:
  assumes law
    and idle: "idle_pair queue addr_of reaches addr_size (socket_fd (self s)) (socket_fd (self p))
      (addr_bytes addr) (world s)"
    and "length m = rep_msg_size (self p)" and "m \<noteq> []"
    and "callback (self p) = Some cb" and "\<And>w. fst (cb m w) = Val r \<and> fst (snd (cb m w)) = w"
    and "length r = req_msg_size (self s)"
  shows "\<exists>t. Request_request sendto
      (\<lambda>n. blocking (turn_of (Reply_once zero recvfrom' sendto') p) (recv n)) m addr s = (Val r, t) \<and>
    self t = self s \<and> cout t = cout s \<and>
    idle_pair queue addr_of reaches addr_size (socket_fd (self s)) (socket_fd (self p)) (addr_bytes addr) (world t)"
proof -
  let ?q = "socket_fd (self s)" and ?r = "socket_fd (self p)" and ?w = "world s"
  let ?turn = "turn_of (Reply_once zero recvfrom' sendto') p"
  note net = net_becomes_def idle_pair_def
  obtain num u where u: "sendto m addr s = (Val num, u)" "self u = self s" "cout u = cout s"
    "net_becomes queue addr_of reaches ?w (\<lambda>g. queue ?w g @
      (if reaches ?w (addr_bytes addr) g then [(m, addr_of ?w ?q)] else [])) (world u)"
    using req.sendto_delivers [OF assms(1), of m addr s] by blast
  have waits: "queue (world u) ?r = [(m, addr_of ?w ?q)]" using u(4) idle by (simp add: net)
  note turn = rep.turn_answers [OF assms(1) waits assms(3-6)]
  let ?v = "u\<lparr>world := ?turn (world u)\<rparr>"
  have q: "queue (world ?v) (socket_fd (self ?v)) = [(r, addr_of (world u) ?r)]"
    using turn u(2,4) idle by (simp add: net)
  obtain t where t: "recv (req_msg_size (self s)) ?v = (Val r, t)" "self t = self s" "cout t = cout s"
    "net_becomes queue addr_of reaches (world ?v) ((queue (world ?v))(?q := [])) (world t)"
    using req.recv_delivers [OF assms(1) q, where n = "req_msg_size (self s)"] u(2,3) assms(7) by auto
  have "Request_request sendto (\<lambda>n. blocking ?turn (recv n)) m addr s = (Val r, t)"
    using u(1,2) t(1) by (simp add: Request_request_def bnd_case gets_apply blocking_def)
  moreover have "idle_pair queue addr_of reaches addr_size ?q ?r (addr_bytes addr) (world t)"
    using t(4) turn u(4) idle by (auto simp: net)
  ultimately show ?thesis using t(2,3) by blast
qed

end

interpretation rep_net_udp: delivering_replier
  "\<lambda>n. SocketUDP_recv P n 0" "\<lambda>n from. SocketUDP_recvfrom P n from 0" "\<lambda>m a. SocketUDP_sendto P m a 0"
  inet_bytes "dgram_law P queue addr_of reaches" queue addr_of reaches sizeof_inet inetaddr_zero
  for P queue addr_of reaches ..

interpretation rep_net_unix: delivering_replier
  "\<lambda>n. SocketUnix_recv P n 0" "\<lambda>n from. SocketUnix_recvfrom P n from 0" "\<lambda>m a. SocketUnix_sendto P m a 0"
  unix_bytes "dgram_law P queue addr_of reaches" queue addr_of reaches sizeof_unix unixaddr_zero
  for P queue addr_of reaches ..

interpretation exchange_udp: exchange
  "\<lambda>n. SocketUDP_recv P n 0" "\<lambda>n from. SocketUDP_recvfrom P n from 0" "\<lambda>m a. SocketUDP_sendto P m a 0"
  inet_bytes "dgram_law P queue addr_of reaches" queue addr_of reaches sizeof_inet inetaddr_zero
  "\<lambda>n. SocketUDP_recv P n 0" "\<lambda>n from. SocketUDP_recvfrom P n from 0" "\<lambda>m a. SocketUDP_sendto P m a 0"
  for P queue addr_of reaches ..

interpretation exchange_unix: exchange
  "\<lambda>n. SocketUnix_recv P n 0" "\<lambda>n from. SocketUnix_recvfrom P n from 0" "\<lambda>m a. SocketUnix_sendto P m a 0"
  unix_bytes "dgram_law P queue addr_of reaches" queue addr_of reaches sizeof_unix unixaddr_zero
  "\<lambda>n. SocketUnix_recv P n 0" "\<lambda>n from. SocketUnix_recvfrom P n from 0" "\<lambda>m a. SocketUnix_sendto P m a 0"
  for P queue addr_of reaches ..

text \<open>The requests of the library, with the turn of a replier while they wait.\<close>

lemma request_during_receive:
  "RequestUDP_request (during_receive (replier_turn P p) P) m addr =
    Request_request (\<lambda>m a. SocketUDP_sendto P m a 0)
      (\<lambda>n. blocking (turn_of (ReplyUDP_once P) p) (SocketUDP_recv P n 0)) m addr"
  "RequestUnix_request (during_receive (unix_replier_turn P p') P) m addr' =
    Request_request (\<lambda>m a. SocketUnix_sendto P m a 0)
      (\<lambda>n. blocking (turn_of (ReplyUnix_once P) p') (SocketUnix_recv P n 0)) m addr'"
  by (simp_all add: RequestUDP_request_def RequestUnix_request_def replier_turn_def unix_replier_turn_def
      during_receive_sockets during_receive_unix_recv)

lemma udp_request_answered:
  assumes "dgram_law P queue addr_of reaches"
    and "idle_pair queue addr_of reaches sizeof_inet (socket_fd (self s)) (socket_fd (self p)) (inet_bytes addr) (world s)"
    and "length m = rep_msg_size (self p)" and "m \<noteq> []"
    and "callback (self p) = Some cb" and "\<And>w. fst (cb m w) = Val r \<and> fst (snd (cb m w)) = w"
    and "length r = req_msg_size (self s)"
  shows "\<exists>t. RequestUDP_request (during_receive (replier_turn P p) P) m addr s = (Val r, t) \<and>
    self t = self s \<and> cout t = cout s \<and>
    idle_pair queue addr_of reaches sizeof_inet (socket_fd (self s)) (socket_fd (self p)) (inet_bytes addr) (world t)"
  unfolding request_during_receive ReplyUDP_once_def by (rule exchange_udp.request_answered [OF assms])

lemma unix_request_answered:
  assumes "dgram_law P queue addr_of reaches"
    and "idle_pair queue addr_of reaches sizeof_unix (socket_fd (self s)) (socket_fd (self p)) (unix_bytes addr) (world s)"
    and "length m = rep_msg_size (self p)" and "m \<noteq> []"
    and "callback (self p) = Some cb" and "\<And>w. fst (cb m w) = Val r \<and> fst (snd (cb m w)) = w"
    and "length r = req_msg_size (self s)"
  shows "\<exists>t. RequestUnix_request (during_receive (unix_replier_turn P p) P) m addr s = (Val r, t) \<and>
    self t = self s \<and> cout t = cout s \<and>
    idle_pair queue addr_of reaches sizeof_unix (socket_fd (self s)) (socket_fd (self p)) (unix_bytes addr) (world t)"
  unfolding request_during_receive ReplyUnix_once_def by (rule exchange_unix.request_answered [OF assms])

end
