(* ===== verification/Sample_Network.thy ===== *)
theory Sample_Network
  imports Sample_Platform Process Network
begin

text \<open>
  A small network in memory with a table of descriptors. It satisfies the laws the properties
  assume of descriptors and of datagrams, and lets them be evaluated; the model does not depend
  on it.
\<close>

text \<open>The open descriptors, and for each its address and the datagrams that wait.\<close>

record lan =
  lan_open :: "int list"
  lan_addr :: "int \<Rightarrow> byte list"
  lan_queue :: "int \<Rightarrow> datagrams"

text \<open>A new descriptor has an address of its own until it is bound.\<close>

definition fresh_fd :: "int list \<Rightarrow> int" where
  "fresh_fd fds = fold max fds 2 + 1"

text \<open>
  A datagram arrives where the port is the one asked for, and the address too or a wildcard; a broadcast
  arrives at every address; between Unix sockets, where the path is the same.
\<close>

definition lan_reaches :: "lan \<Rightarrow> byte list \<Rightarrow> int \<Rightarrow> bool" where
  "lan_reaches w a fd \<longleftrightarrow> fd \<in> set (lan_open w) \<and>
    (if take 2 a = le16 AF_UNIX then lan_addr w fd = a
     else take 2 (drop 2 (lan_addr w fd)) = take 2 (drop 2 a) \<and>
       (take 4 (drop 4 (lan_addr w fd)) = replicate 4 0 \<or>
        take 4 (drop 4 (lan_addr w fd)) = take 4 (drop 4 a) \<or>
        take 4 (drop 4 a) = replicate 4 255))"

fun lan_kernel :: "syscall \<Rightarrow> lan \<Rightarrow> reply \<times> lan" where
  "lan_kernel (Sys_socket f t p) w =
    (let fd = fresh_fd (lan_open w)
     in (answer fd [] [] [],
         w\<lparr>lan_open := fd # lan_open w,
           lan_addr := (lan_addr w)(fd := inet_bytes (inet_of 0x0100007F (40000 + word_of_int fd))),
           lan_queue := (lan_queue w)(fd := [])\<rparr>))"
| "lan_kernel (Sys_close fd) w = (answer 0 [] [] [], w\<lparr>lan_open := removeAll fd (lan_open w)\<rparr>)"
| "lan_kernel (Sys_bind fd a) w = (answer 0 [] [] [], w\<lparr>lan_addr := (lan_addr w)(fd := a)\<rparr>)"
| "lan_kernel (Sys_sendto fd m flags a) w =
    (answer (int (length m)) [] [] [],
     w\<lparr>lan_queue := (\<lambda>g. lan_queue w g @ (if lan_reaches w a g then [(m, lan_addr w fd)] else []))\<rparr>)"
| "lan_kernel (Sys_recvfrom fd n flags b) w = (case lan_queue w fd of
      [] \<Rightarrow> (answer (- 1) [] [] [], w)
    | (d, src) # ds \<Rightarrow>
        (answer (int (min n (length d))) (take n d) (if b then src else []) [],
         w\<lparr>lan_queue := (lan_queue w)(fd := ds)\<rparr>))"
| "lan_kernel (Sys_recv fd n flags) w = (case lan_queue w fd of
      [] \<Rightarrow> (answer (- 1) [] [] [], w)
    | (d, src) # ds \<Rightarrow>
        (answer (int (min n (length d))) (take n d) [] [], w\<lparr>lan_queue := (lan_queue w)(fd := ds)\<rparr>))"
| "lan_kernel c w = (answer 0 [] [] [], w)"

definition lan_platform :: "lan platform" where
  "lan_platform = env.extend sample_env \<lparr>kernel = lan_kernel\<rparr>"

definition lan_start :: lan where
  "lan_start = \<lparr>lan_open = [], lan_addr = (\<lambda>_. []), lan_queue = (\<lambda>_. [])\<rparr>"

definition lan_opened :: "lan \<Rightarrow> int set" where
  "lan_opened w = set (lan_open w)"

definition lan_machine :: "'o \<Rightarrow> lan \<Rightarrow> ('o, lan) mach" where
  "lan_machine obj w = \<lparr>self = obj, world = w, errno = 0, trace = [], cout = []\<rparr>"

lemma lan_simps [simp]:
  "inet_addr lan_platform = sample_inet_addr" "inet_ntop lan_platform = sample_inet_ntop"
  "stale lan_platform = Some" "uninit lan_platform i = 0xCC" "kernel lan_platform = lan_kernel"
  "strerror lan_platform e = ''error '' @ to_string e"
  by (simp_all add: lan_platform_def sample_env_def env.defs)

lemma lan_machine_simps [simp]:
  "self (lan_machine obj w) = obj" "world (lan_machine obj w) = w" "trace (lan_machine obj w) = []"
  "cout (lan_machine obj w) = []" "errno (lan_machine obj w) = 0"
  by (simp_all add: lan_machine_def)

lemma lan_intact [simp]: "frame_intact lan_platform"
  by (simp add: frame_intact_def)

lemma fresh_fd_fresh: "fresh_fd fds \<notin> set fds" and fresh_fd_nonneg: "0 \<le> fresh_fd fds"
proof -
  have "k \<le> fold max fds k \<and> (\<forall>fd \<in> set fds. fd \<le> fold max fds k)" for k :: int
    by (induction fds arbitrary: k) (force simp: max_def)+
  from this [of 2] show "fresh_fd fds \<notin> set fds" "0 \<le> fresh_fd fds" by (auto simp: fresh_fd_def)
qed

lemma lan_fd_law [simp]: "fd_law lan_platform lan_opened"
  unfolding fd_law_def
proof (intro allI)
  fix c w
  show "let r = r_ret (fst (kernel lan_platform c w)); w' = snd (kernel lan_platform c w) in
     case c of
       Sys_socket f t p \<Rightarrow> (r = - 1 \<and> lan_opened w' = lan_opened w) \<or>
         (0 \<le> r \<and> r \<notin> lan_opened w \<and> lan_opened w' = insert r (lan_opened w))
     | Sys_close fd \<Rightarrow> lan_opened w' = lan_opened w - {fd}
     | _ \<Rightarrow> lan_opened w' = lan_opened w"
    by (cases c) (auto simp: Let_def lan_opened_def fresh_fd_fresh fresh_fd_nonneg split: list.split)
qed

lemma lan_dgram_law [simp]: "dgram_law lan_platform lan_queue lan_addr lan_reaches"
  by (auto simp: dgram_law_def net_becomes_def lan_reaches_def fun_eq_iff)

section \<open>Building and binding sockets\<close>

lemma lan_built:
  "SocketUDP_ctor lan_platform s = (Val (),
    s\<lparr>self := (self s)\<lparr>socket_fd := fresh_fd (lan_open (world s))\<rparr>,
      world := snd (lan_kernel (Sys_socket 2 2 0) (world s)),
      trace := trace s @ [(Sys_socket 2 2 0, fresh_fd (lan_open (world s)))]\<rparr>)"
  "SocketUnix_ctor lan_platform s = (Val (),
    s\<lparr>self := (self s)\<lparr>socket_fd := fresh_fd (lan_open (world s))\<rparr>,
      world := snd (lan_kernel (Sys_socket 1 2 0) (world s)),
      trace := trace s @ [(Sys_socket 1 2 0, fresh_fd (lan_open (world s)))]\<rparr>)"
  using fresh_fd_nonneg [of "lan_open (world s)"]
  by (simp_all add: SocketUDP_ctor_def SocketUnix_ctor_def Socket_ctor_def makeSocket_def bnd_case on_throw_def
      set_fd_apply sys_Val guard_def ret_apply AF_INET_def AF_UNIX_def SOCK_DGRAM_def Let_def)

lemma lan_bound:
  assumes "leftmost proto_at text = Some (''udp'', body)" and "inet_sockaddr lan_platform text = Val a"
  shows "\<exists>t. Socket_bind lan_platform text s = (Val (), t) \<and> self t = self s \<and>
    world t = (world s)\<lparr>lan_addr := (lan_addr (world s))(socket_fd (self s) := inet_bytes a)\<rparr>"
  using setSocket_inet [OF assms(1) _ assms(2), of BIND _ s]
  by (simp add: Socket_bind_def guard_def ret_apply sys_Val)

lemma lan_bound_unix:
  assumes "leftmost proto_at text = Some (''unix'', body)" and "unix_sockaddr lan_platform text = Val a"
  shows "\<exists>t. Socket_bind lan_platform text s = (Val (), t) \<and> self t = self s \<and>
    world t = (world s)\<lparr>lan_addr := (lan_addr (world s))(socket_fd (self s) := unix_bytes a)\<rparr>"
  using setSocket_unix [OF assms(1,2), of BIND _ s]
  by (simp add: Socket_bind_def guard_def ret_apply sys_Val Let_def)

text \<open>One socket that is bound, and a second one.\<close>

definition lan_one :: "byte list \<Rightarrow> lan" where
  "lan_one a = \<lparr>lan_open = [3], lan_addr = (\<lambda>_. [])(3 := a), lan_queue = (\<lambda>_. [])\<rparr>"

definition lan_two :: "byte list \<Rightarrow> byte list \<Rightarrow> lan" where
  "lan_two a b = \<lparr>lan_open = [4, 3], lan_addr = (\<lambda>_. [])(3 := a, 4 := b), lan_queue = (\<lambda>_. [])\<rparr>"

lemma lan_udp_addresses:
  "inet_sockaddr lan_platform ''udp://*:9999'' = Val (inet_of 0 9999)"
  "inet_sockaddr lan_platform ''udp://127.0.0.1:9999'' = Val (inet_of 0x0100007F 9999)"
proof -
  have t: "ip_text ''*''" "ip_text ''127.0.0.1''" by code_simp+
  have d: "nat_digits 9999 = ''9999''" by (simp add: nat_digits.simps digit_char_eqs)
  show "inet_sockaddr lan_platform ''udp://*:9999'' = Val (inet_of 0 9999)"
    using inet_sockaddr_host_port [OF lan_intact _ t(1), of "''udp''" 9999]
    by (simp add: d host_addr_def INT_MAX_def INADDR_ANY_def)
  show "inet_sockaddr lan_platform ''udp://127.0.0.1:9999'' = Val (inet_of 0x0100007F 9999)"
    using inet_sockaddr_host_port [OF lan_intact _ t(2), of "''udp''" 9999]
    by (simp add: d host_addr_def INT_MAX_def sample_inet_addr_def)
qed

end
