(* ===== verification/Example_Programs.thy ===== *)
theory Example_Programs
  imports Lifetime
begin

text \<open>
  Two programs of \<open>examples/\<close>: the broadcast demonstration \<open>bc.cpp\<close>, with its server and its client
  (its threads are in \<open>Example_Threads\<close>), and the address demonstration \<open>regex.cpp\<close>; and the programs
  without content.
\<close>

section \<open>Local objects\<close>

text \<open>
  A socket that is a local variable: constructed, used, and destroyed when the block is left, by
  reaching its end or by an exception.
\<close>

definition scoped ::
  "('w, 'p) platform_scheme \<Rightarrow> ('x, 'w, unit) sock_act \<Rightarrow> ('x, 'w, unit) sock_act \<Rightarrow> ('x, 'w, unit) sock_act" where
  "scoped P ctor body =
    bnd ctor (\<lambda>_. bnd (on_throw body (Socket_dtor P)) (\<lambda>_. Socket_dtor P))"

text \<open>Using an object that \<open>unpack\<close> has not fully written is undefined.\<close>

definition object_value :: "'t object outcome \<Rightarrow> 't outcome" where
  "object_value r = bind_outcome r (\<lambda>d. case d of
      Determinate v \<Rightarrow> Val v
    | Indeterminate bs \<Rightarrow> Undef Indeterminate_value)"

lemma object_value_simps [simp]:
  "object_value (Val (Determinate v)) = Val v"
  "object_value (Val (Indeterminate bs)) = Undef Indeterminate_value"
  "object_value (Undef u) = Undef u"
  by (simp_all add: object_value_def)

section \<open>bc.cpp\<close>

definition BC_PORT :: "16 word" where "BC_PORT = 11311"

definition BC_LOOP :: nat where "BC_LOOP = 5"

definition bc_server :: "('w, 'p) platform_scheme \<Rightarrow> (('y SocketBC_scheme, 'w) mach, unit) act" where
  "bc_server P =
    scoped P (SocketBC_ctor P BC_PORT)
      (let ss = \<lparr>topic = 69, status = SUBSCRIBE\<rparr>; sub = pack subscription_rep ss
       in for_each [0..<BC_LOOP] (\<lambda>i.
            bnd (SocketBC_cast P sub) (\<lambda>_. print (''cast: '' @ msg2string sub))))"

definition bc_client_turn :: "('w, 'p) platform_scheme \<Rightarrow> nat \<Rightarrow> ('x, 'w, unit) sock_act" where
  "bc_client_turn P sz =
    bnd (SocketUDP_recv P sz 0) (\<lambda>m.
    bnd (lift_outcome (object_value (unpack sz subscription_val m))) (\<lambda>msg.
    print (to_string (uint (topic msg)) @ '' '' @ to_string (uint (status msg)))))"

definition bc_client :: "('w, 'p) platform_scheme \<Rightarrow> ('x, 'w, unit) sock_act" where
  "bc_client P =
    scoped P (SocketUDP_ctor P)
      (bnd (reuseSocket P True) (\<lambda>_.
       bnd (Socket_bind P (''udp://*:'' @ to_string (uint BC_PORT))) (\<lambda>_.
       let sz = 2 in for_each [0..<BC_LOOP] (\<lambda>i. bc_client_turn P sz))))"

text \<open>
  The client uses what it received without looking at its size: a timeout, which gives an empty
  message, leaves the struct unwritten.
\<close>

lemma client_turn_received:
  assumes "SocketUDP_recv P 2 0 s = (Val [a, b], t)"
  shows "bc_client_turn P 2 s =
    (Val (), t\<lparr>cout := cout t @ [nat_digits (unat a) @ '' '' @ nat_digits (unat b)]\<rparr>)"
  using assms
  by (simp add: bc_client_turn_def bnd_case unpack_exact lift_outcome_apply subscription_val_def
      print_apply to_string_nonneg)

lemma client_turn_timeout:
  assumes "SocketUDP_recv P 2 0 s = (Val [], t)"
  shows "bc_client_turn P 2 s = (Undef Indeterminate_value, t)"
  using assms by (simp add: bc_client_turn_def bnd_case unpack_short lift_outcome_apply)

text \<open>The server's loop.\<close>

lemma server_loop:
  "\<exists>nums t. for_each is (\<lambda>i. bnd (SocketBC_cast P m) (\<lambda>_. print line)) s = (Val (), t) \<and>
    self t = self s \<and> length nums = length is \<and> cout t = cout s @ replicate (length is) line \<and>
    trace t = trace s @ map (\<lambda>num. (Sys_sendto (socket_fd (self s)) m 0 (inet_bytes (bc_addr (self s))), num)) nums"
proof (induction "is" arbitrary: s)
  case Nil
  show ?case by (simp add: ret_apply)
next
  case (Cons i js)
  let ?c = "Sys_sendto (socket_fd (self s)) m 0 (inet_bytes (bc_addr (self s)))"
  let ?u = "(snd (sys P ?c s))\<lparr>cout := cout s @ [line]\<rparr>"
  obtain nums t where t: "for_each js (\<lambda>i. bnd (SocketBC_cast P m) (\<lambda>_. print line)) ?u = (Val (), t)"
    "self t = self s" "length nums = length js" "cout t = cout s @ line # replicate (length js) line"
    "trace t = trace s @ (?c, r_ret (fst (kernel P ?c (world s)))) #
      map (\<lambda>num. (?c, num)) nums"
    using Cons.IH [of ?u] by (auto simp: sys_Val)
  have "for_each (i # js) (\<lambda>i. bnd (SocketBC_cast P m) (\<lambda>_. print line)) s = (Val (), t)"
    using t(1) by (simp add: bnd_case cast_eq SocketUDP_sendto_eq Let_def print_apply sys_Val)
  with t(2-) show ?case
    by (intro exI [of _ "r_ret (fst (kernel P ?c (world s))) # nums"] exI [of _ t]) simp
qed

lemma scoped_Val:
  assumes "ctor s = (Val (), t)" and "body t = (Val (), u)"
  shows "scoped P ctor body s = (Val (), snd (Socket_close P u))"
  using assms Socket_close_Val [of P u]
  by (simp add: scoped_def bnd_case on_throw_def Socket_dtor_def) (metis prod.collapse)

text \<open>What was built and used without an exception is closed at the end, and the closing prints nothing.\<close>

lemma scoped_prints:
  assumes "ctor s = (Val (), t)" and "body t = (Val (), u)"
  shows "\<exists>v. scoped P ctor body s = (Val (), v) \<and> socket_fd (self v) = - 1 \<and> cout v = cout u"
proof -
  have "cout (snd (Socket_close P u)) = cout u"
    by (cases "socket_fd (self u) = - 1") (simp_all add: Socket_close_closed Socket_close_open sys_Val)
  with scoped_Val [where P = P, of ctor s t body u] assms show ?thesis by (simp add: Socket_close_fd)
qed

section \<open>regex.cpp\<close>

text \<open>
  \<open>SockAddress::filter\<close>: an early version of the library's \<open>filter\<close>, which prints instead of
  returning. A text without host and port is reported and used all the same: the groups of an empty
  match are empty texts.
\<close>

definition group :: "smatch \<Rightarrow> nat \<Rightarrow> string" where
  "group m i = (if i < length m then m ! i else [])"

definition SockAddress_filter :: "string \<Rightarrow> (('o, 'w) mach, unit) act" where
  "SockAddress_filter addr =
    (let m = regex_search proto addr
     in if length m = 0 then print ''No matches!!''
        else if group m 1 = ''unix'' then print (''unix path: '' @ group m 2)
        else if group m 1 = ''tcp'' \<or> group m 1 = ''udp'' then
          (let ss = group m 2; mm = regex_search ipport ss
           in bnd (if length mm \<noteq> 3 then print (''error '' @ to_string (int (length mm))) else ret ()) (\<lambda>_.
              let ip = group mm 1; sport = group mm 2
              in bnd (lift_outcome (stoi sport)) (\<lambda>port. ret ())))
        else ret ())"

definition regex_main :: "(('o, 'w) mach, int) act" where
  "regex_main =
    bnd (SockAddress_filter ''udp://*:3000'') (\<lambda>_.
    bnd (SockAddress_filter ''tcp://1.2.3.4:5000'') (\<lambda>_.
    bnd (SockAddress_filter ''unix:///bob/here'') (\<lambda>_.
    ret 0)))"

lemma SockAddress_filter_cases:
  "leftmost proto_at addr = None \<Longrightarrow> SockAddress_filter addr = print ''No matches!!''"
  "leftmost proto_at addr = Some (''unix'', path) \<Longrightarrow>
    SockAddress_filter addr = print (''unix path: '' @ path)"
  "leftmost proto_at addr = Some (sch, ss) \<Longrightarrow> sch = ''udp'' \<or> sch = ''tcp'' \<Longrightarrow>
    leftmost ipport_at ss = Some (ip, port) \<Longrightarrow>
    SockAddress_filter addr = bnd (lift_outcome (stoi port)) (\<lambda>port. ret ())"
  by (auto simp: SockAddress_filter_def search_proto search_ipport group_def Let_def)

text \<open>Where the library gives an address of family \<open>AF_ERROR\<close>, this one throws.\<close>

lemma SockAddress_filter_no_port:
  assumes "leftmost proto_at addr = Some (sch, ss)" and "sch = ''udp'' \<or> sch = ''tcp''"
    and "leftmost ipport_at ss = None"
  shows "SockAddress_filter addr s =
    (Exn (Invalid_argument ''stoi''), s\<lparr>cout := cout s @ [''error 0'']\<rparr>)"
proof -
  have "to_string 0 = ''0''" by (simp add: to_string_def nat_digits.simps digit_char_eqs)
  moreover have "stoi [] = Exn (Invalid_argument ''stoi'')" by code_simp
  ultimately show ?thesis
    using assms by (auto simp: SockAddress_filter_def search_proto search_ipport group_def Let_def
        bnd_case print_apply lift_outcome_apply)
qed

lemma regex_main_prints:
  "regex_main s = (Val 0, s\<lparr>cout := cout s @ [''unix path: /bob/here'']\<rparr>)"
proof -
  have l: "leftmost proto_at ''udp://*:3000'' = Some (''udp'', ''*:3000'')"
    "leftmost ipport_at ''*:3000'' = Some (''*'', ''3000'')"
    "leftmost proto_at ''tcp://1.2.3.4:5000'' = Some (''tcp'', ''1.2.3.4:5000'')"
    "leftmost ipport_at ''1.2.3.4:5000'' = Some (''1.2.3.4'', ''5000'')"
    "leftmost proto_at ''unix:///bob/here'' = Some (''unix'', ''/bob/here'')"
    by code_simp+
  have n: "stoi ''3000'' = Val 3000" "stoi ''5000'' = Val 5000" by code_simp+
  show ?thesis
    by (simp add: regex_main_def bnd_case ret_apply lift_outcome_apply print_apply n
        SockAddress_filter_cases(2) [OF l(5)]
        SockAddress_filter_cases(3) [OF l(1) _ l(2)] SockAddress_filter_cases(3) [OF l(3) _ l(4)])
qed

section \<open>The small programs\<close>

text \<open>
  \<open>examples/dev.cpp\<close>, whose statements are all commented out, and the module experiment under
  \<open>dev/module\<close>.
\<close>

definition dev_main :: "(('o, 'w) mach, int) act" where
  "dev_main = ret 0"

definition hello :: "(('o, 'w) mach, unit) act" where
  "hello = print ''Hello world!''"

definition module_main :: "(('o, 'w) mach, int) act" where
  "module_main = bnd hello (\<lambda>_. ret 0)"

lemma small_programs:
  "dev_main s = (Val 0, s)" "module_main s = (Val 0, s\<lparr>cout := cout s @ [''Hello world!'']\<rparr>)"
  by (simp_all add: dev_main_def module_main_def hello_def bnd_case print_apply ret_apply)

end
