(* ===== verification/Example_Threads.thy ===== *)
theory Example_Threads
  imports Process Example_Programs
begin

text \<open>
  The main function of \<open>examples/bc.cpp\<close>: it runs the client and the server in two threads. What a
  thread does to its socket is a list of operations; the steps of the two threads interleave in any
  order, at the granularity of the member calls. The pause before the server starts decides nothing
  about the order. An exception that leaves a thread, or undefined behaviour, ends the program.
\<close>

section \<open>Threads\<close>

datatype ('o, 'w) thread_op =
    Build "(('o, 'w) mach, unit) act"
  | Use "(('o, 'w) mach, unit) act"
  | Destroy "(('o, 'w) mach, unit) act"

type_synonym ('o, 'w) thread = "'o option \<times> ('o, 'w) thread_op list"

inductive thread_step :: "(('o, 'w) thread, 'w) mach \<Rightarrow> (('o, 'w) thread, 'w) mach \<Rightarrow> bool" where
  build: "self s = (None, Build m # ops) \<Longrightarrow> m (with_self raw s) = (Val (), t) \<Longrightarrow>
    thread_step s (with_self (Some (self t), ops) t)"
| use: "self s = (Some obj, Use m # ops) \<Longrightarrow> m (with_self obj s) = (Val (), t) \<Longrightarrow>
    thread_step s (with_self (Some (self t), ops) t)"
| destroy: "self s = (Some obj, Destroy m # ops) \<Longrightarrow> m (with_self obj s) = (Val (), t) \<Longrightarrow>
    thread_step s (with_self (None, ops) t)"

type_synonym 'w bc_threads = "((Socket, 'w) thread \<times> (SocketBC, 'w) thread, 'w) mach"

inductive bc_step :: "'w bc_threads \<Rightarrow> 'w bc_threads \<Rightarrow> bool" where
  client: "thread_step (with_self (fst (self s)) s) t \<Longrightarrow> bc_step s (with_self (self t, snd (self s)) t)"
| server: "thread_step (with_self (snd (self s)) s) t \<Longrightarrow> bc_step s (with_self (fst (self s), self t) t)"

text \<open>The two threads of the program, the functions \<open>client\<close> and \<open>server\<close> step by step.\<close>

definition bc_client_ops :: "('w, 'p) platform_scheme \<Rightarrow> (Socket, 'w) thread_op list" where
  "bc_client_ops P =
    [Build (SocketUDP_ctor P), Use (reuseSocket P True),
     Use (Socket_bind P (''udp://*:'' @ to_string (uint BC_PORT)))] @
    replicate BC_LOOP (Use (bc_client_turn P 2)) @ [Destroy (Socket_dtor P)]"

definition bc_server_ops :: "('w, 'p) platform_scheme \<Rightarrow> (SocketBC, 'w) thread_op list" where
  "bc_server_ops P =
    (let sub = pack subscription_rep \<lparr>topic = 69, status = SUBSCRIBE\<rparr>
     in [Build (SocketBC_ctor P BC_PORT)] @
        replicate BC_LOOP (Use (bnd (SocketBC_cast P sub) (\<lambda>_. print (''cast: '' @ msg2string sub)))) @
        [Destroy (Socket_dtor P)])"

definition bc_start :: "('w, 'p) platform_scheme \<Rightarrow> (unit, 'w) mach \<Rightarrow> 'w bc_threads" where
  "bc_start P s = with_self ((None, bc_client_ops P), (None, bc_server_ops P)) s"

text \<open>Both threads have run to their end; \<open>main\<close> joins them and returns 0.\<close>

definition joined :: "'w bc_threads \<Rightarrow> bool" where
  "joined s \<longleftrightarrow> snd (fst (self s)) = [] \<and> snd (snd (self s)) = []"

inductive bc_main :: "('w, 'p) platform_scheme \<Rightarrow> (unit, 'w) mach \<Rightarrow> int \<Rightarrow> (unit, 'w) mach \<Rightarrow> bool" where
  "bc_step\<^sup>*\<^sup>* (bc_start P s) t \<Longrightarrow> joined t \<Longrightarrow> bc_main P s 0 (with_self () t)"

text \<open>An exception that leaves the next operation of a thread, or undefined behaviour in it, aborts the program.\<close>

inductive thread_aborts :: "(('o, 'w) thread, 'w) mach \<Rightarrow> bool" where
  build_aborts: "self s = (None, Build m # ops) \<Longrightarrow> fst (m (with_self raw s)) \<noteq> Val () \<Longrightarrow> thread_aborts s"
| use_aborts: "self s = (Some obj, Use m # ops) \<Longrightarrow> fst (m (with_self obj s)) \<noteq> Val () \<Longrightarrow> thread_aborts s"
| destroy_aborts: "self s = (Some obj, Destroy m # ops) \<Longrightarrow> fst (m (with_self obj s)) \<noteq> Val () \<Longrightarrow> thread_aborts s"

definition bc_aborts :: "'w bc_threads \<Rightarrow> bool" where
  "bc_aborts s \<longleftrightarrow> thread_aborts (with_self (fst (self s)) s) \<or> thread_aborts (with_self (snd (self s)) s)"

text \<open>The functions of the program are these operations in sequence, when nothing is thrown.\<close>

definition run_ops :: "('o, 'w) thread_op list \<Rightarrow> (('o, 'w) mach, unit) act" where
  "run_ops ops = for_each ops (\<lambda>p. case p of Build m \<Rightarrow> m | Use m \<Rightarrow> m | Destroy m \<Rightarrow> m)"

lemma for_each_replicate: "for_each (replicate n x) f = for_each [0..<n] (\<lambda>_. f x)"
proof -
  have "for_each (replicate n x) f = for_each is (\<lambda>_. f x)" if "length is = n" for "is" :: "nat list"
    using that by (induction "is" arbitrary: n) auto
  then show ?thesis by simp
qed

lemma run_ops_simps:
  "run_ops (Build m # ops) = bnd m (\<lambda>_. run_ops ops)" "run_ops (Use m # ops) = bnd m (\<lambda>_. run_ops ops)"
  "run_ops [Destroy m] = bnd m (\<lambda>_. ret ())"
  "run_ops (replicate n (Use m) @ ops) = bnd (for_each [0..<n] (\<lambda>_. m)) (\<lambda>_. run_ops ops)"
  by (simp_all add: run_ops_def for_each_append for_each_replicate)

lemma scoped_Val_iff:
  "scoped P ctor body s = (Val (), t) \<longleftrightarrow>
    (\<exists>u v. ctor s = (Val (), u) \<and> body u = (Val (), v) \<and> Socket_dtor P v = (Val (), t))"
  by (auto simp: scoped_def bnd_Val_iff on_throw_Val)

lemma bc_client_in_steps: "bc_client P s = (Val (), t) \<longleftrightarrow> run_ops (bc_client_ops P) s = (Val (), t)"
  by (auto simp: bc_client_def bc_client_ops_def run_ops_simps scoped_Val_iff bnd_Val_iff ret_apply)

lemma bc_server_in_steps: "bc_server P s = (Val (), t) \<longleftrightarrow> run_ops (bc_server_ops P) s = (Val (), t)"
  by (auto simp: bc_server_def bc_server_ops_def run_ops_simps scoped_Val_iff bnd_Val_iff ret_apply Let_def)

section \<open>The threads as a program with two sockets\<close>

definition as_process :: "'w bc_threads \<Rightarrow> 'w process" where
  "as_process s = with_self
    ((\<lambda>i. if i = 0 then map_option UDP_obj (fst (fst (self s)))
          else if i = 1 then map_option BC_obj (fst (snd (self s))) else None)) s"

text \<open>A thread builds its object first and destroys it last.\<close>

fun well_nested :: "bool \<Rightarrow> ('o, 'w) thread_op list \<Rightarrow> bool" where
  "well_nested alive [] \<longleftrightarrow> \<not> alive"
| "well_nested alive (Build m # ops) \<longleftrightarrow> \<not> alive \<and> well_nested True ops"
| "well_nested alive (Use m # ops) \<longleftrightarrow> alive \<and> well_nested True ops"
| "well_nested alive (Destroy m # ops) \<longleftrightarrow> alive \<and> well_nested False ops"

definition threads_inv :: "('w, 'p) platform_scheme \<Rightarrow> 'w bc_threads \<Rightarrow> bool" where
  "threads_inv P s \<longleftrightarrow>
    set (snd (fst (self s))) \<subseteq> set (bc_client_ops P) \<and>
    set (snd (snd (self s))) \<subseteq> set (bc_server_ops P) \<and>
    well_nested (fst (fst (self s)) \<noteq> None) (snd (fst (self s))) \<and>
    well_nested (fst (snd (self s)) \<noteq> None) (snd (snd (self s)))"

lemma well_nested_uses: "well_nested True (replicate n (Use m) @ ops) \<longleftrightarrow> well_nested True ops"
  by (induction n) simp_all

lemma threads_start: "threads_inv P (bc_start P s)"
  by (simp add: threads_inv_def bc_start_def bc_client_ops_def bc_server_ops_def well_nested_uses Let_def)

lemma base_calls:
  "reuseSocket P e = run_udp P (Base (Call_reuseSocket e))"
  "Socket_bind P a = run_udp P (Base (Call_bind a))"
  by simp_all

lemma client_op_cases:
  assumes "p \<in> set (bc_client_ops P)"
  shows "p = Build (SocketUDP_ctor P) \<or> p = Destroy (Socket_dtor P) \<or>
    p = Use (bc_client_turn P 2) \<or> (\<exists>c. p = Use (run_udp P c))"
  using assms by (auto simp: bc_client_ops_def base_calls simp del: run_udp.simps run_base.simps)

lemma server_op_cases:
  assumes "p \<in> set (bc_server_ops P)"
  shows "p = Build (SocketBC_ctor P BC_PORT) \<or> p = Destroy (Socket_dtor P) \<or>
    (\<exists>m line. p = Use (bnd (SocketBC_cast P m) (\<lambda>_. print line)))"
  using assms by (auto simp: bc_server_ops_def Let_def)

text \<open>A turn of either loop is a member call, after which something is printed.\<close>

lemma client_turn_call:
  assumes "bc_client_turn P 2 s = (Val (), t)"
  shows "\<exists>u out. run_udp P (Call_recv 2 0) s = (Val (), u) \<and> t = u\<lparr>cout := out\<rparr>"
  using assms
  by (auto simp: bc_client_turn_def ignore_def bnd_Val_iff lift_outcome_apply print_apply ret_apply)

lemma server_turn_call:
  assumes "bnd (SocketBC_cast P m) (\<lambda>_. print line) s = (Val (), t)"
  shows "\<exists>u out. run_bc P (Call_cast m) s = (Val (), u) \<and> t = u\<lparr>cout := out\<rparr>"
  using assms by (auto simp: ignore_def bnd_Val_iff print_apply ret_apply)

abbreviation steps :: "('w, 'p) platform_scheme \<Rightarrow> ('w \<Rightarrow> int set) \<Rightarrow> 'w process \<Rightarrow> 'w process \<Rightarrow> bool" where
  "steps P opened \<equiv> (process_step P opened)\<^sup>*\<^sup>*"

lemma print_step: "process_step P opened s (s\<lparr>cout := out\<rparr>)"
proof -
  have "s\<lparr>cout := out\<rparr> = s\<lparr>world := world s, errno := errno s, cout := out\<rparr>" by simp
  then show ?thesis using process_step.rest [of opened "world s" s] by metis
qed

lemma step_then_print: "process_step P opened s t \<Longrightarrow> steps P opened s (t\<lparr>cout := out\<rparr>)"
proof (rule rtranclp.rtrancl_into_rtrancl)
  show "process_step P opened s t \<Longrightarrow> steps P opened s t" by (rule r_into_rtranclp)
  show "process_step P opened t (t\<lparr>cout := out\<rparr>)" by (rule print_step)
qed

text \<open>A thread operation on one object is a series of steps of the process.\<close>

lemma udp_use_steps:
  assumes "self s i = Some (UDP_obj obj)" and "run_udp P c (with_self obj s) = (Val (), u)"
    and "t = u\<lparr>cout := out\<rparr>"
  shows "steps P opened s (with_self ((self s)(i \<mapsto> UDP_obj (self t))) t)"
proof -
  have "process_step P opened s (with_self ((self s)(i \<mapsto> UDP_obj (self u))) u)"
    by (rule process_step.call_udp [OF assms(1,2)]) (simp add: defined_def)
  from step_then_print [OF this, of out] show ?thesis by (simp add: assms(3) with_self_def)
qed

lemma bc_use_steps:
  assumes "self s i = Some (BC_obj obj)" and "run_bc P c (with_self obj s) = (Val (), u)"
    and "t = u\<lparr>cout := out\<rparr>"
  shows "steps P opened s (with_self ((self s)(i \<mapsto> BC_obj (self t))) t)"
proof -
  have "process_step P opened s (with_self ((self s)(i \<mapsto> BC_obj (self u))) u)"
    by (rule process_step.call_bc [OF assms(1,2)]) (simp add: defined_def)
  from step_then_print [OF this, of out] show ?thesis by (simp add: assms(3) with_self_def)
qed

lemma client_step:
  assumes "thread_step (with_self c s) t" and "set (snd c) \<subseteq> set (bc_client_ops P)"
    and "self s i = map_option UDP_obj (fst c)"
  shows "steps P opened s (with_self ((self s)(i := map_option UDP_obj (fst (self t)))) t)"
  using assms(1)
proof cases
  case (build m ops raw u)
  then have "m = SocketUDP_ctor P" using assms(2) client_op_cases [of "Build m" P] by auto
  then have "process_step P opened s (with_self ((self s)(i \<mapsto> UDP_obj (self u))) u)"
    using build assms(3) by (intro process_step.build_udp) auto
  then show ?thesis using build by auto
next
  case (use obj m ops u)
  have m: "m = bc_client_turn P 2 \<or> (\<exists>c. m = run_udp P c)"
    using use assms(2) client_op_cases [of "Use m" P] by auto
  have obj: "self s i = Some (UDP_obj obj)" using use assms(3) by auto
  have run: "m (with_self obj s) = (Val (), u)" using use by simp
  have "\<exists>c v out. run_udp P c (with_self obj s) = (Val (), v) \<and> u = v\<lparr>cout := out\<rparr>"
  proof (cases "m = bc_client_turn P 2")
    case True
    with run client_turn_call show ?thesis by blast
  next
    case False
    then obtain c where "run_udp P c (with_self obj s) = (Val (), u)" using m run by auto
    moreover have "u = u\<lparr>cout := cout u\<rparr>" by simp
    ultimately show ?thesis by blast
  qed
  then obtain c v out where "run_udp P c (with_self obj s) = (Val (), v)" "u = v\<lparr>cout := out\<rparr>" by blast
  from udp_use_steps [OF obj this] show ?thesis using use by simp
next
  case (destroy obj m ops u)
  then have "m = Socket_dtor P" using assms(2) client_op_cases [of "Destroy m" P] by auto
  then have "process_step P opened s (with_self ((self s)(i := None)) u)"
    using destroy assms(3) by (intro process_step.destroy) auto
  then show ?thesis using destroy by auto
qed

lemma server_step:
  assumes "thread_step (with_self c s) t" and "set (snd c) \<subseteq> set (bc_server_ops P)"
    and "self s i = map_option BC_obj (fst c)"
  shows "steps P opened s (with_self ((self s)(i := map_option BC_obj (fst (self t)))) t)"
  using assms(1)
proof cases
  case (build m ops raw u)
  then have "m = SocketBC_ctor P BC_PORT" using assms(2) server_op_cases [of "Build m" P] by auto
  then have "process_step P opened s (with_self ((self s)(i \<mapsto> BC_obj (self u))) u)"
    using build assms(3) by (intro process_step.build_bc) auto
  then show ?thesis using build by auto
next
  case (use obj m ops u)
  then obtain msg line where "m = bnd (SocketBC_cast P msg) (\<lambda>_. print line)"
    using assms(2) server_op_cases [of "Use m" P] by auto
  moreover have obj: "self s i = Some (BC_obj obj)" using use assms(3) by auto
  moreover have "m (with_self obj s) = (Val (), u)" using use by simp
  ultimately obtain v out where "run_bc P (Call_cast msg) (with_self obj s) = (Val (), v)"
    "u = v\<lparr>cout := out\<rparr>" using server_turn_call by blast
  from bc_use_steps [OF obj this] show ?thesis using use by simp
next
  case (destroy obj m ops u)
  then have "m = Socket_dtor P" using assms(2) server_op_cases [of "Destroy m" P] by auto
  then have "process_step P opened s (with_self ((self s)(i := None)) u)"
    using destroy assms(3) by (intro process_step.destroy_bc) auto
  then show ?thesis using destroy by auto
qed

lemma thread_step_nested:
  assumes "thread_step u t" and "well_nested (fst (self u) \<noteq> None) (snd (self u))"
  shows "well_nested (fst (self t) \<noteq> None) (snd (self t)) \<and> set (snd (self t)) \<subseteq> set (snd (self u))"
  using assms by cases auto

lemma bc_step_inv: "bc_step s s' \<Longrightarrow> threads_inv P s \<Longrightarrow> threads_inv P s'"
proof (induction rule: bc_step.induct)
  case (client s t)
  then show ?case using thread_step_nested [of "with_self (fst (self s)) s" t] by (auto simp: threads_inv_def)
next
  case (server s t)
  then show ?case using thread_step_nested [of "with_self (snd (self s)) s" t] by (auto simp: threads_inv_def)
qed

lemma bc_step_simulated:
  assumes "bc_step s s'" and "threads_inv P s"
  shows "steps P opened (as_process s) (as_process s')"
  using assms(1)
proof cases
  case (client t)
  have "steps P opened (as_process s)
      (with_self ((self (as_process s))(0 := map_option UDP_obj (fst (self t)))) t)"
    by (rule client_step [where c = "fst (self s)"])
      (use client assms(2) in \<open>simp_all add: as_process_def threads_inv_def\<close>)
  moreover have "with_self ((self (as_process s))(0 := map_option UDP_obj (fst (self t)))) t = as_process s'"
    unfolding client(1) by (simp add: as_process_def fun_eq_iff with_self_def)
  ultimately show ?thesis by simp
next
  case (server t)
  have "steps P opened (as_process s)
      (with_self ((self (as_process s))(1 := map_option BC_obj (fst (self t)))) t)"
    by (rule server_step [where c = "snd (self s)"])
      (use server assms(2) in \<open>simp_all add: as_process_def threads_inv_def\<close>)
  moreover have "with_self ((self (as_process s))(1 := map_option BC_obj (fst (self t)))) t = as_process s'"
    unfolding server(1) by (simp add: as_process_def fun_eq_iff with_self_def)
  ultimately show ?thesis by simp
qed

lemma threads_reachable:
  assumes "trace s = []" and "bc_step\<^sup>*\<^sup>* (bc_start P s) t"
  shows "threads_inv P t \<and> reachable P opened (as_process t)"
  using assms(2)
proof (induction rule: rtranclp_induct)
  case base
  have "process_start (as_process (bc_start P s))"
    using assms(1) by (auto simp: process_start_def as_process_def bc_start_def)
  then show ?case using threads_start by (auto simp: reachable_def)
next
  case (step u v)
  then have "steps P opened (as_process u) (as_process v)" by (intro bc_step_simulated) auto
  with step show ?case
    using bc_step_inv unfolding reachable_def by (meson rtranclp_trans)
qed

lemma joined_done: "threads_inv P t \<Longrightarrow> joined t \<Longrightarrow> self (as_process t) = Map.empty"
  by (auto simp: threads_inv_def joined_def as_process_def)

section \<open>The end of the program\<close>

text \<open>Every step takes one operation from one of the threads, and there is a step or an abort while one is left.\<close>

definition ops_left :: "'w bc_threads \<Rightarrow> nat" where
  "ops_left s = length (snd (fst (self s))) + length (snd (snd (self s)))"

lemma ops_left_start: "ops_left (bc_start P s) = 2 * BC_LOOP + 6"
  by (simp add: ops_left_def bc_start_def bc_client_ops_def bc_server_ops_def Let_def)

lemma joined_left: "joined s \<longleftrightarrow> ops_left s = 0"
  by (simp add: joined_def ops_left_def)

lemma thread_step_left: "thread_step s t \<Longrightarrow> length (snd (self s)) = Suc (length (snd (self t)))"
  by (cases rule: thread_step.cases) auto

lemma bc_step_left: "bc_step s t \<Longrightarrow> ops_left s = Suc (ops_left t)"
  by (cases rule: bc_step.cases) (auto simp: ops_left_def dest!: thread_step_left)

lemma bc_steps_left: "(bc_step ^^ n) s t \<Longrightarrow> ops_left s = n + ops_left t"
  by (induction n arbitrary: t) (auto dest!: bc_step_left)

lemma thread_progress:
  assumes "well_nested (fst (self s) \<noteq> None) (snd (self s))" and "snd (self s) \<noteq> []"
  shows "(\<exists>t. thread_step s t) \<or> thread_aborts s"
proof -
  obtain p ops where ops: "snd (self s) = p # ops" using assms(2) by (cases "snd (self s)") auto
  show ?thesis
  proof (cases p)
    case (Build m)
    then have self: "self s = (None, Build m # ops)" using assms(1) ops by (cases "self s") auto
    obtain r t where "m (with_self undefined s) = (r, t)" by (cases "m (with_self undefined s)")
    then show ?thesis
      using thread_step.build [OF self, of undefined t] thread_aborts.build_aborts [OF self, of undefined]
      by (cases "r = Val ()") auto
  next
    case (Use m)
    then obtain obj where self: "self s = (Some obj, Use m # ops)" using assms(1) ops by (cases "self s") auto
    obtain r t where "m (with_self obj s) = (r, t)" by (cases "m (with_self obj s)")
    then show ?thesis
      using thread_step.use [OF self, of t] thread_aborts.use_aborts [OF self] by (cases "r = Val ()") auto
  next
    case (Destroy m)
    then obtain obj where self: "self s = (Some obj, Destroy m # ops)" using assms(1) ops by (cases "self s") auto
    obtain r t where "m (with_self obj s) = (r, t)" by (cases "m (with_self obj s)")
    then show ?thesis
      using thread_step.destroy [OF self, of t] thread_aborts.destroy_aborts [OF self] by (cases "r = Val ()") auto
  qed
qed

lemma bc_progress:
  assumes "threads_inv P s" and "\<not> joined s"
  shows "(\<exists>t. bc_step s t) \<or> bc_aborts s"
proof (cases "snd (fst (self s)) = []")
  case True
  then have "snd (snd (self s)) \<noteq> []" using assms(2) by (simp add: joined_def)
  then show ?thesis
    using assms(1) thread_progress [of "with_self (snd (self s)) s"]
    by (auto simp: threads_inv_def bc_aborts_def intro: bc_step.server)
next
  case False
  then show ?thesis
    using assms(1) thread_progress [of "with_self (fst (self s)) s"]
    by (auto simp: threads_inv_def bc_aborts_def intro: bc_step.client)
qed

lemma joined_stops: "joined s \<Longrightarrow> \<not> bc_aborts s \<and> (\<nexists>t. bc_step s t)"
  by (auto simp: joined_def bc_aborts_def elim!: thread_aborts.cases bc_step.cases thread_step.cases)

lemma bc_steps_inv: "(bc_step ^^ n) (bc_start P s) t \<Longrightarrow> threads_inv P t"
  by (induction n arbitrary: t) (auto simp: threads_start intro: bc_step_inv)

end
