(* ===== verification/Process_Properties.thy ===== *)
theory Process_Properties
  imports Sample_Network Example_Threads
begin

text \<open>
  The properties of programs with several sockets: whose descriptor is whose, what copying an
  object does to that, and the shape of the system calls.
\<close>

section \<open>Programs with several sockets\<close>


text \<open>Two sockets built one after the other.\<close>

definition lan_process :: "lan process" where
  "lan_process = lan_machine Map.empty lan_start"

lemma lan_ctor:
  fixes s :: "('x Socket_scheme, lan) mach"
  shows "SocketUDP_ctor lan_platform s =
    (Val (), (snd (sys lan_platform (Sys_socket 2 2 0) s))
      \<lparr>self := (self s)\<lparr>socket_fd := fresh_fd (lan_open (world s))\<rparr>\<rparr>)"
  using fresh_fd_nonneg [of "lan_open (world s)"]
  by (simp add: SocketUDP_ctor_def Socket_ctor_def makeSocket_def bnd_case on_throw_def set_fd_apply
      sys_Val ret_apply Let_def AF_INET_def SOCK_DGRAM_def)

lemma lan_build:
  assumes "self s i = None"
  shows "\<exists>t. process_step lan_platform lan_opened s t \<and>
    self t = (self s)(i \<mapsto> UDP_obj \<lparr>socket_fd = fresh_fd (lan_open (world s))\<rparr>)"
proof -
  obtain t where t: "SocketUDP_ctor lan_platform (with_self (\<lparr>socket_fd = 0\<rparr> :: Socket) s) = (Val (), t)"
    "self t = \<lparr>socket_fd = fresh_fd (lan_open (world s))\<rparr>"
    by (simp add: lan_ctor)
  from process_step.build_udp [of s i, OF assms t(1)] t(2) show ?thesis
    by (intro exI [of _ "with_self ((self s)(i \<mapsto> UDP_obj (self t))) t"]) simp
qed

lemma lan_two_sockets:
  "\<exists>s x y. reachable lan_platform lan_opened s \<and> self s 0 = Some x \<and> self s 1 = Some y \<and> obj_fd x = 3"
proof -
  have "self lan_process 0 = None" by (simp add: lan_process_def)
  then obtain s where s: "process_step lan_platform lan_opened lan_process s"
    "self s = (self lan_process)(0 \<mapsto> UDP_obj \<lparr>socket_fd = fresh_fd (lan_open (world lan_process))\<rparr>)"
    using lan_build by blast
  then have "self s 1 = None" by (simp add: lan_process_def)
  then obtain t y where t: "process_step lan_platform lan_opened s t" "self t = (self s)(1 \<mapsto> y)"
    using lan_build by blast
  have "process_start lan_process" by (simp add: process_start_def lan_process_def)
  with s(1) t(1) have "reachable lan_platform lan_opened t"
    unfolding reachable_def by (meson rtranclp.simps)
  with s(2) t(2) show ?thesis
    by (intro exI [of _ t]) (simp add: lan_process_def lan_start_def fresh_fd_def)
qed


text \<open>
  C25: \<open>Socket\<close> has a destructor that closes but the implicit copy of its descriptor, so a copied object is
  a second owner. Destroy the original and then the copy: the descriptor is closed twice, the second time
  without being open. If it has been given to another socket in between, that socket's descriptor is
  closed under it.
\<close>
theorem copied_socket_closes_again:
  assumes "sock_frame M s" and "socket_fd (self s) = fd" and "fd \<noteq> - 1" and "fd \<notin># M"
    and "Socket_dtor P s = (r, t)"
    and "sock_frame N u" and "socket_fd (self u) = fd" and "fd \<notin># N"
  shows "(let v = snd (Socket_dtor P (t\<lparr>self := self s\<rparr>))
      in map fst (trace v) = map fst (trace s) @ [Sys_close fd, Sys_close fd] \<and> \<not> trace_ok (trace v)) \<and>
    (let v = (snd (Socket_dtor P (u\<lparr>self := self s\<rparr>)))\<lparr>self := self u\<rparr>
      in fd \<notin># live (trace v) \<and> \<not> sock_frame N v)"
proof -
  have t: "t = (snd (sys P (Sys_close fd) s))\<lparr>self := (self s)\<lparr>socket_fd := - 1\<rparr>\<rparr>"
    using assms(2,3,5) by (simp add: Socket_dtor_def Socket_close_open)
  have "live (trace t) = M"
    using assms(1-3) by (simp add: t sock_frame_def own_fds_def sys_Val)
  moreover have "trace (snd (Socket_dtor P (t\<lparr>self := self s\<rparr>))) =
      trace t @ [(Sys_close fd, r_ret (fst (kernel P (Sys_close fd) (world t))))]"
    using assms(2,3) by (simp add: Socket_dtor_def Socket_close_open sys_Val)
  moreover have "map fst (trace t) = map fst (trace s) @ [Sys_close fd]"
    by (simp add: t sys_Val)
  ultimately show ?thesis
    using assms(2-4,6-8)
    by (simp add: Let_def fd_use_ok_def Socket_dtor_def Socket_close_open sys_Val sock_frame_def own_fds_def)
qed

theorem copied_socket_closes_again_witness:
  "let s = (machine \<lparr>socket_fd = 3\<rparr> net_start)\<lparr>trace := [(Sys_socket 2 2 0, 3)]\<rparr>;
     t = snd (Socket_dtor sample s); v = snd (Socket_dtor sample (t\<lparr>self := self s\<rparr>))
   in map fst (trace v) = [Sys_socket 2 2 0, Sys_close 3, Sys_close 3] \<and> \<not> trace_ok (trace v)"
proof -
  let ?s = "(machine \<lparr>socket_fd = 3\<rparr> net_start)\<lparr>trace := [(Sys_socket 2 2 0, 3)]\<rparr> :: (Socket, net) mach"
  have f: "sock_frame {#} ?s"
    by (simp add: sock_frame_def own_fds_def trace_ok_def fd_use_ok_def live_def)
  obtain r t where d: "Socket_dtor sample ?s = (r, t)" by (cases "Socket_dtor sample ?s")
  from copied_socket_closes_again [OF f _ _ _ d f, of 3]
  show ?thesis by (simp add: Let_def d)
qed

section \<open>Threads\<close>

text \<open>The first step of a run on the local network: the client makes its socket.\<close>

lemma lan_first_step:
  "\<exists>t. bc_step (bc_start lan_platform (lan_machine () lan_start)) t \<and> map fst (trace t) = [Sys_socket 2 2 0]"
proof -
  let ?s = "bc_start lan_platform (lan_machine () lan_start)"
  have s: "fst (self ?s) = (None, Build (SocketUDP_ctor lan_platform) # tl (bc_client_ops lan_platform))"
    by (simp add: bc_start_def bc_client_ops_def)
  obtain u where u: "SocketUDP_ctor lan_platform (with_self (\<lparr>socket_fd = 0\<rparr> :: Socket) (with_self (fst (self ?s)) ?s)) = (Val (), u)"
    "map fst (trace u) = [Sys_socket 2 2 0]"
    by (simp add: lan_ctor bc_start_def sys_Val)
  have "thread_step (with_self (fst (self ?s)) ?s) (with_self (Some (self u), tl (bc_client_ops lan_platform)) u)"
    by (rule thread_step.build, simp only: with_self_simps, rule s, rule u(1))
  from bc_step.client [OF this] obtain t where "bc_step ?s t" "trace t = trace u" by auto
  with u(2) show ?thesis by metis
qed





section \<open>The calls themselves\<close>

text \<open>
  C15: every system call that a \<open>SocketUDP\<close>, a \<open>SocketUnix\<close> or a \<open>SocketBC\<close> makes in its life is well
  formed, if the address structures its caller hands in are: an address given to \<open>bind\<close>, \<open>connect\<close> or
  \<open>sendto\<close> has the size of one of the two structures, whatever text it was parsed from; the descriptors
  given to \<open>select\<close> fit its set and lie below the bound; a timeout is in range; a path has no NUL. What is
  parsed from a text or comes with a message is well formed too, so it may be handed in again.
\<close>
theorem system_calls_well_formed:
  assumes "frame_sized P" and "trace s = []" and "trace s' = []"
    and "\<forall>c \<in> set cs. call_addr wf_inet c" and "\<forall>c \<in> set ds. call_addr wf_unix c"
    and "\<forall>c \<in> set es. (\<forall>c'. c = Udp c' \<longrightarrow> call_addr wf_inet c')"
  shows "wf_trace (trace (snd (lifetime P (SocketUDP_ctor P) (run_udp P) cs s))) \<and>
    wf_trace (trace (snd (lifetime P (SocketUnix_ctor P) (run_unix P) ds s))) \<and>
    wf_trace (trace (snd (lifetime P (SocketBC_ctor P port) (run_bc P) es s'))) \<and>
    (\<forall>a. inet_sockaddr P text = Val a \<longrightarrow> wf_inet a) \<and> (\<forall>b. unix_sockaddr P text = Val b \<longrightarrow> wf_unix b) \<and>
    (\<forall>m a. fst (SocketUDP_recvfrom P n from flags s) = Val (m, Some a) \<longrightarrow> wf_inet a) \<and>
    (\<forall>m b. fst (SocketUnix_recvfrom P n from' flags s) = Val (m, Some b) \<longrightarrow> wf_unix b)"
proof -
  have "wf_trace (trace s)" "wf_trace (trace s')" using assms(2,3) by simp_all
  note calls = lifetimes_wf [OF assms(1) this assms(4-6)]
  have "\<forall>m a. fst (SocketUDP_recvfrom P n from flags s) = Val (m, Some a) \<longrightarrow> wf_inet a"
    "\<forall>m b. fst (SocketUnix_recvfrom P n from' flags s) = Val (m, Some b) \<longrightarrow> wf_unix b"
    using received_wf by (metis prod.collapse)+
  then show ?thesis using calls parsed_wf [OF assms(1)] by blast
qed

theorem system_calls_well_formed_witness:
  "wf_trace (trace (snd (lifetime sample (SocketUDP_ctor sample) (run_udp sample)
    [Base (Call_bind ''udp://*:9000''), Call_sendto [1] (inet_of 0x0100007F 9000) 0, Base Call_available]
    (machine \<lparr>socket_fd = 0\<rparr> net_start))))"
proof -
  let ?s = "machine \<lparr>socket_fd = 0\<rparr> net_start :: (Socket, net) mach"
  let ?bc = "machine \<lparr>socket_fd = 0, bc_addr = inetaddr_zero\<rparr> net_start :: (SocketBC, net) mach"
  show ?thesis
    using system_calls_well_formed [OF frame_intact_sized [OF sample_intact(1)], of ?s ?bc
        "[Base (Call_bind ''udp://*:9000''), Call_sendto [1] (inet_of 0x0100007F 9000) 0, Base Call_available]"
        "[]" "[]"]
    by (simp add: wf_inet_def inet_of_def)
qed

end
