(* ===== verification/Floating.thy ===== *)
theory Floating
  imports Cpp_Std
begin

text \<open>
  What the example programs use of \<open>double\<close>: IEEE 754 binary64 values as their 64 bits, with the
  conversion from \<open>int\<close>, multiplication, comparison, and the text \<open>operator<<\<close> prints (\<open>%g\<close> with
  six significant digits).
\<close>

section \<open>Values\<close>

text \<open>\<open>Fin s m e\<close> is the number \<open>m * 2^e\<close>, negated if \<open>s\<close>.\<close>

datatype fp = Fin bool int int | Infinite bool | Not_a_number

definition decode_fp :: "64 word \<Rightarrow> fp" where
  "decode_fp w =
    (let s = (2 ^ 63 \<le> uint w); e = uint w div 2 ^ 52 mod 2048; f = uint w mod 2 ^ 52
     in if e = 2047 then (if f = 0 then Infinite s else Not_a_number)
        else if e = 0 then Fin s f (- 1074)
        else Fin s (f + 2 ^ 52) (e - 1075))"

text \<open>Division with rounding to the nearest integer, ties to even.\<close>

definition round_even :: "int \<Rightarrow> int \<Rightarrow> int" where
  "round_even n d =
    (let q = n div d; r = n mod d
     in if 2 * r < d \<or> (2 * r = d \<and> even q) then q else q + 1)"

fun bit_len :: "nat \<Rightarrow> nat" where
  "bit_len n = (if n = 0 then 0 else Suc (bit_len (n div 2)))"

declare bit_len.simps [simp del]

text \<open>
  The value nearest to \<open>m * 2^e\<close>: 53 significant bits, fewer below the normal range, infinite
  beyond it. The exponent field and the fraction add up, so that a fraction that is rounded up
  to a power of two carries into the exponent.
\<close>

definition encode_fp :: "bool \<Rightarrow> int \<Rightarrow> int \<Rightarrow> 64 word" where
  "encode_fp s m e =
    (let E = max (e + int (bit_len (nat m)) - 53) (- 1074);
         q = (if E \<le> e then m * 2 ^ nat (e - E) else round_even m (2 ^ nat (E - e)));
         b = (if m = 0 then 0 else min ((E + 1074) * 2 ^ 52 + q) (2047 * 2 ^ 52))
     in word_of_int ((if s then 2 ^ 63 else 0) + b))"

definition fp_of_int :: "int \<Rightarrow> 64 word" where
  "fp_of_int i = encode_fp (i < 0) \<bar>i\<bar> 0"

text \<open>The NaN an invalid operation gives.\<close>

definition default_nan :: "64 word" where "default_nan = 0xFFF8000000000000"

definition fp_mul :: "64 word \<Rightarrow> 64 word \<Rightarrow> 64 word" where
  "fp_mul a b = (case (decode_fp a, decode_fp b) of
      (Fin s m e, Fin t n f) \<Rightarrow> encode_fp (s \<noteq> t) (m * n) (e + f)
    | (Infinite s, Fin t n f) \<Rightarrow> if n = 0 then default_nan else encode_fp (s \<noteq> t) 1 1024
    | (Fin s m e, Infinite t) \<Rightarrow> if m = 0 then default_nan else encode_fp (s \<noteq> t) 1 1024
    | (Infinite s, Infinite t) \<Rightarrow> encode_fp (s \<noteq> t) 1 1024
    | _ \<Rightarrow> default_nan)"

definition fp_eq :: "64 word \<Rightarrow> 64 word \<Rightarrow> bool" where
  "fp_eq a b = (case (decode_fp a, decode_fp b) of
      (Fin s m e, Fin t n f) \<Rightarrow> a = b \<or> (m = 0 \<and> n = 0)
    | (Infinite s, Infinite t) \<Rightarrow> s = t
    | _ \<Rightarrow> False)"

section \<open>Text\<close>

definition strip_zeros :: "string \<Rightarrow> string" where
  "strip_zeros d = rev (dropWhile (\<lambda>c. c = CHR ''0'') (rev d))"

definition with_fraction :: "string \<Rightarrow> string \<Rightarrow> string" where
  "with_fraction ip fr = (let f = strip_zeros fr in if f = [] then ip else ip @ ''.'' @ f)"

text \<open>The decimal exponent of \<open>n / d\<close>, and the six digits after rounding.\<close>

definition decimal_exponent :: "int \<Rightarrow> int \<Rightarrow> int" where
  "decimal_exponent n d =
    (if d \<le> n then int (length (nat_digits (nat (n div d)))) - 1
     else - int (length (nat_digits (nat ((d - 1) div n)))))"

definition six_digits :: "int \<Rightarrow> int \<Rightarrow> int \<times> int" where
  "six_digits n d =
    (let X = decimal_exponent n d;
         q = (if X \<le> 5 then round_even (n * 10 ^ nat (5 - X)) d
              else round_even n (d * 10 ^ nat (X - 5)))
     in if q = 1000000 then (100000, X + 1) else (q, X))"

definition format_g :: "int \<Rightarrow> int \<Rightarrow> string" where
  "format_g q X =
    (let ds = nat_digits (nat q)
     in if - 4 \<le> X \<and> X < 6 then
          (if 0 \<le> X then with_fraction (take (nat X + 1) ds) (drop (nat X + 1) ds)
           else with_fraction ''0'' (replicate (nat (- X) - 1) (CHR ''0'') @ ds))
        else with_fraction (take 1 ds) (drop 1 ds) @ (if X < 0 then ''e-'' else ''e+'') @
          (if \<bar>X\<bar> < 10 then ''0'' else []) @ nat_digits (nat \<bar>X\<bar>))"

definition show_fp :: "64 word \<Rightarrow> string" where
  "show_fp w = (case decode_fp w of
      Fin s m e \<Rightarrow>
        (if s then ''-'' else []) @
        (if m = 0 then ''0''
         else case six_digits (m * 2 ^ nat e) (2 ^ nat (- e)) of (q, X) \<Rightarrow> format_g q X)
    | Infinite s \<Rightarrow> (if s then ''-inf'' else ''inf'')
    | Not_a_number \<Rightarrow> (if 2 ^ 63 \<le> uint w then ''-nan'' else ''nan''))"

section \<open>Encoding is the inverse of decoding\<close>

text \<open>The number of bits, and with it the encoding of a number whose size is known.\<close>

lemma bit_len_bounds: "0 < n \<Longrightarrow> 2 ^ (bit_len n - 1) \<le> n \<and> n < 2 ^ bit_len n"
proof (induction n rule: bit_len.induct)
  case (1 n)
  show ?case
  proof (cases "n div 2 = 0")
    case True
    then have "n = 1" using 1(2) by auto
    then show ?thesis by (simp add: bit_len.simps)
  next
    case False
    with 1 have IH: "2 ^ (bit_len (n div 2) - 1) \<le> n div 2" "n div 2 < 2 ^ bit_len (n div 2)" by auto
    have "bit_len (n div 2) \<noteq> 0" using False by (simp add: bit_len.simps)
    then have "2 * 2 ^ (bit_len (n div 2) - 1) = (2 :: nat) ^ bit_len (n div 2)"
      by (metis power_minus_mult mult.commute neq0_conv)
    with IH 1(2) show ?thesis by (simp add: bit_len.simps [of n]) linarith
  qed
qed
lemma bit_len_le: "n < 2 ^ k \<Longrightarrow> bit_len n \<le> k"
proof (cases "n = 0")
  case False
  assume "n < 2 ^ k"
  moreover have "2 ^ (bit_len n - 1) \<le> n" using bit_len_bounds [of n] False by simp
  ultimately have "(2 :: nat) ^ (bit_len n - 1) < 2 ^ k" by linarith
  then show ?thesis by simp
qed (simp add: bit_len.simps)

lemma bit_len_eq:
  assumes "2 ^ k \<le> m" and "m < 2 ^ Suc k"
  shows "bit_len (nat m) = Suc k"
proof -
  have n: "nat m < 2 ^ Suc k" "2 ^ k \<le> nat m" using assms by (simp_all add: nat_less_iff le_nat_iff)
  have "\<not> bit_len (nat m) \<le> k"
  proof
    assume "bit_len (nat m) \<le> k"
    then have "(2 :: nat) ^ bit_len (nat m) \<le> 2 ^ k" by simp
    moreover have "nat m < 2 ^ bit_len (nat m)" 
      using bit_len_bounds [of "nat m"] n(2) by (metis gr0I not_one_le_zero power_eq_0_iff le_zero_eq zero_neq_numeral)
    ultimately show False using n(2) by linarith
  qed
  with bit_len_le [OF n(1)] show ?thesis by simp
qed
lemma encode_at:
  assumes "2 ^ k \<le> m" and "m < 2 ^ Suc k" and "E = max (e + int k - 52) (- 1074)"
  shows "encode_fp s m e = word_of_int ((if s then 2 ^ 63 else 0) +
    min ((E + 1074) * 2 ^ 52 + (if E \<le> e then m * 2 ^ nat (e - E) else round_even m (2 ^ nat (E - e)))) (2047 * 2 ^ 52))"
proof -
  have "0 < (2 :: int) ^ k" by simp
  with assms(1) have "m \<noteq> 0" by linarith
  then show ?thesis using assms bit_len_eq [OF assms(1,2)] by (simp add: encode_fp_def Let_def algebra_simps)
qed
text \<open>A word is its sign, its exponent field and its fraction.\<close>

lemma exponent_top:
  fixes q :: int
  assumes "0 \<le> q" and "q < 4096"
  shows "q = (if 2048 \<le> q then 2048 else 0) + q mod 2048"
proof (cases "2048 \<le> q")
  case True
  have "q mod 2048 = (q - 2048) mod 2048" by simp
  also have "\<dots> = q - 2048" using True assms by (intro mod_pos_pos_trivial) simp_all
  finally show ?thesis using True by simp
qed (use assms in simp)

lemma int_fields:
  fixes u q r :: int
  assumes "u = 2 ^ 52 * q + r" and "0 \<le> r" and "r < 2 ^ 52" and "0 \<le> u" and "u < 2 ^ 64"
  shows "u = (if 2 ^ 63 \<le> u then 2 ^ 63 else 0) + (q mod 2048 * 2 ^ 52 + r)"
proof -
  have q: "0 \<le> q" "q < 4096" using assms by simp_all
  have t: "2048 \<le> q \<longleftrightarrow> 2 ^ 63 \<le> u" using assms(1-3) by (intro iffI) simp_all
  have "u = 2 ^ 52 * ((if 2 ^ 63 \<le> u then 2048 else 0) + q mod 2048) + r"
    unfolding t [symmetric] exponent_top [OF q, symmetric] by (rule assms(1))
  then show ?thesis by (cases "2 ^ 63 \<le> u") simp_all
qed

lemma word_fields:
  "w = word_of_int ((if 2 ^ 63 \<le> uint w then 2 ^ 63 else 0) +
    (uint w div 2 ^ 52 mod 2048 * 2 ^ 52 + uint w mod 2 ^ 52))" for w :: "64 word"
proof -
  have u: "uint w < 2 ^ 64" using unsigned_less [of w, where 'a = int] by simp
  have r: "0 \<le> uint w mod 2 ^ 52" "uint w mod 2 ^ 52 < 2 ^ 52"
    by (rule pos_mod_sign pos_mod_bound, simp)+
  have "uint w = (if 2 ^ 63 \<le> uint w then 2 ^ 63 else 0) +
      (uint w div 2 ^ 52 mod 2048 * 2 ^ 52 + uint w mod 2 ^ 52)"
    by (rule int_fields [OF mult_div_mod_eq [symmetric] r unsigned_greater_eq u])
  then show ?thesis by (metis word_of_int_uint)
qed

lemma encode_decode:
  assumes "decode_fp w = Fin s m e"
  shows "encode_fp s m e = w"
proof -
  define E where "E = uint w div 2 ^ 52 mod 2048"
  define F where "F = uint w mod 2 ^ 52"
  have F: "0 \<le> F" "F < 2 ^ 52" by (simp_all add: F_def)
  have E: "0 \<le> E" "E < 2048" by (simp_all add: E_def)
  have word: "w = word_of_int ((if 2 ^ 63 \<le> uint w then 2 ^ 63 else 0) + (E * 2 ^ 52 + F))"
    unfolding E_def F_def by (rule word_fields)
  show ?thesis
  proof (cases "E = 0")
    case True
    then have d: "s = (2 ^ 63 \<le> uint w)" "m = F" "e = - 1074"
      using assms unfolding decode_fp_def Let_def E_def [symmetric] F_def [symmetric] by simp_all
    have "bit_len (nat F) \<le> 52" using F by (intro bit_len_le) (simp add: nat_less_iff)
    then have E': "max (e + int (bit_len (nat m)) - 53) (- 1074) = - 1074" using d by simp
    have "encode_fp s m e = word_of_int ((if s then 2 ^ 63 else 0) + F)"
      using F unfolding encode_fp_def E' Let_def by (simp add: d)
    then show ?thesis using word True d(1) by simp
  next
    case False
    then have d: "E \<noteq> 2047" "s = (2 ^ 63 \<le> uint w)" "m = F + 2 ^ 52" "e = E - 1075"
      using assms unfolding decode_fp_def Let_def E_def [symmetric] F_def [symmetric]
      by (auto split: if_splits)
    have m: "2 ^ 52 \<le> m" "m < 2 ^ Suc 52" using F d by simp_all
    have "max (e + int 52 - 52) (- 1074) = e" using E False d by simp
    from encode_at [OF m, of e e s] this
    have "encode_fp s m e = word_of_int ((if s then 2 ^ 63 else 0) +
        min ((e + 1074) * 2 ^ 52 + m) (2047 * 2 ^ 52))" by simp
    also have "(e + 1074) * 2 ^ 52 + m = E * 2 ^ 52 + F" using d by simp
    also have "min (E * 2 ^ 52 + F) (2047 * 2 ^ 52) = E * 2 ^ 52 + F" using E F d(1) by simp
    finally show ?thesis using word d(2) by simp
  qed
qed


end
