(* ===== verification/Example_Messages.thy ===== *)
theory Example_Messages
  imports Example_Programs Floating Req_Rep Host_Info Socket_Info
begin

text \<open>
  The programs of \<open>examples/\<close> that send structs: \<open>msg.cpp\<close>, which packs and unpacks, \<open>ps.cpp\<close>, a
  publisher and a subscriber, and \<open>rr.cpp\<close>, a requester and a replier. \<open>main\<close> gets the command
  line; objects are constructed in raw memory, which is a parameter. An exception that leaves
  \<open>main\<close> ends the program.
\<close>

section \<open>The structs\<close>

definition le64 :: "64 word \<Rightarrow> byte list" where
  "le64 w = le32 (ucast w) @ le32 (ucast (drop_bit 32 w))"

definition of_le64 :: "byte list \<Rightarrow> 64 word" where
  "of_le64 bs = ucast (of_le32 (take 4 bs)) + push_bit 32 (ucast (of_le32 (drop 4 bs)))"

lemma length_le64 [simp]: "length (le64 w) = 8"
  by (simp add: le64_def)

unbundle bit_operations_syntax

lemma of_le64_le64 [simp]: "of_le64 (le64 w) = w"
proof -
  have "ucast (ucast w :: 32 word) + push_bit 32 (ucast (ucast (drop_bit 32 w) :: 32 word)) =
      (ucast (ucast w :: 32 word) OR push_bit 32 (ucast (ucast (drop_bit 32 w) :: 32 word)) :: 64 word)"
    by (rule disjunctive_add) (auto simp: bit_simps)
  also have "\<dots> = w"
    by (rule bit_word_eqI) (auto simp: bit_simps)
  finally show ?thesis by (simp add: le64_def of_le64_def)
qed

text \<open>
  \<open>data_t\<close> is not packed: after the \<open>int\<close> come four bytes of padding, which hold whatever the
  memory of the object held.
\<close>

record data_t =
  data_a :: "64 word"
  data_b :: "32 word"

definition sizeof_data :: nat where "sizeof_data = 16"

definition data_rep :: "(nat \<Rightarrow> byte) \<Rightarrow> nat \<Rightarrow> data_t \<Rightarrow> byte list" where
  "data_rep mem off d = le64 (data_a d) @ le32 (data_b d) @ map mem [off..<off + 4]"

definition data_val :: "byte list \<Rightarrow> data_t" where
  "data_val bs = \<lparr>data_a = of_le64 (take 8 bs), data_b = of_le32 (take 4 (drop 8 bs))\<rparr>"

interpretation data: trivially_copyable sizeof_data "data_rep mem off" data_val for mem off
  by unfold_locales (simp_all add: data_rep_def data_val_def sizeof_data_def)

definition data_text :: "data_t \<Rightarrow> string" where
  "data_text d = ''data_t '' @ show_fp (data_a d) @ '' '' @ to_string (sint (data_b d)) @
     '' size '' @ to_string (int sizeof_data)"

record request_t =
  req_a :: "64 word"
  req_b :: "32 word"

definition sizeof_request :: nat where "sizeof_request = 12"

definition request_rep :: "request_t \<Rightarrow> byte list" where
  "request_rep d = le64 (req_a d) @ le32 (req_b d)"

definition request_val :: "byte list \<Rightarrow> request_t" where
  "request_val bs = \<lparr>req_a = of_le64 (take 8 bs), req_b = of_le32 (drop 8 bs)\<rparr>"

interpretation req: trivially_copyable sizeof_request request_rep request_val
  by unfold_locales (simp_all add: request_rep_def request_val_def sizeof_request_def)

record response_t =
  resp_a :: "32 word"

definition sizeof_response :: nat where "sizeof_response = 4"

definition response_rep :: "response_t \<Rightarrow> byte list" where
  "response_rep d = le32 (resp_a d)"

definition response_val :: "byte list \<Rightarrow> response_t" where
  "response_val bs = \<lparr>resp_a = of_le32 bs\<rparr>"

interpretation resp: trivially_copyable sizeof_response response_rep response_val
  by unfold_locales (simp_all add: response_rep_def response_val_def sizeof_response_def)

lemmas struct_sizes = sizeof_data_def sizeof_request_def sizeof_response_def

section \<open>msg.cpp\<close>

text \<open>The two structs lie side by side, each with its padding.\<close>

definition msg_main :: "('w, 'p) platform_scheme \<Rightarrow> (('o, 'w) mach, int) act" where
  "msg_main P =
    (let d = \<lparr>data_a = 0x3FF199999999999A, data_b = 3\<rparr>;
         dd = \<lparr>data_a = 0x400199999999999A, data_b = 6\<rparr>;
         m = pack (data_rep (uninit P) 0) d; mm = pack (data_rep (uninit P) 4) dd
     in bnd (print (concat (map (\<lambda>b. to_string (uint b) @ '','') mm))) (\<lambda>_.
        bnd (lift_outcome (object_value (unpack sizeof_data data_val m))) (\<lambda>r.
        bnd (if fp_eq (data_a r) (data_a d) \<and> data_b r = data_b d
             then print (''good: '' @ show_fp (data_a r) @ '' '' @ to_string (sint (data_b r)))
             else print ''bad'') (\<lambda>_.
        let s = replicate 1024 (0 :: byte)
        in bnd (print (''size of contructed: '' @ to_string (int (length s)))) (\<lambda>_.
           ret 0)))))"

section \<open>ps.cpp\<close>

definition PS_PORT :: int where "PS_PORT = 3000"

definition MAX_LOOP :: nat where "MAX_LOOP = 10"

text \<open>What is published: \<open>a\<close> is 1.2.\<close>

definition ps_data :: "nat \<Rightarrow> data_t" where
  "ps_data i = \<lparr>data_a = 0x3FF3333333333333, data_b = of_nat i\<rparr>"

definition ps_pub ::
  "('w, 'p) platform_scheme \<Rightarrow> string \<Rightarrow> ((inetaddr_t Publisher, 'w) mach, unit) act" where
  "ps_pub P HOST =
    bnd (lift_outcome (inet_sockaddr P (''udp://'' @ HOST @ '':'' @ to_string PS_PORT))) (\<lambda>addr.
    scoped P (Publisher_ctor (SocketUDP_ctor P))
      (bnd (Publisher_register_addr addr) (\<lambda>_.
       for_each [0..<MAX_LOOP] (\<lambda>i.
         let m = pack (data_rep (uninit P) 0) (ps_data i) in PublisherUDP_publish P m))))"

definition ps_cb :: "('w, unit) callback" where
  "ps_cb m w = (case object_value (unpack sizeof_data data_val m) of
      Val s \<Rightarrow> (Val (), w, [data_text s])
    | Exn e \<Rightarrow> (Exn e, w, [])
    | Undef u \<Rightarrow> (Undef u, w, []))"

definition ps_sub :: "('w, 'p) platform_scheme \<Rightarrow> (('w Subscriber, 'w) mach, unit) act" where
  "ps_sub P =
    scoped P (Subscriber_ctor (SocketUDP_ctor P) sizeof_data)
      (bnd (Socket_bind P (''udp://*:'' @ to_string PS_PORT)) (\<lambda>_.
       bnd (Subscriber_register_cb ps_cb) (\<lambda>_.
       for_each [0..<MAX_LOOP] (\<lambda>i. SubscriberUDP_once P))))"

text \<open>\<open>HOST\<close> is a global, initialised before \<open>main\<close>.\<close>

definition ps_main ::
  "('w, 'p) platform_scheme \<Rightarrow> inetaddr_t Publisher \<Rightarrow> 'w Subscriber \<Rightarrow> string list \<Rightarrow>
    (('o, 'w) mach, int) act" where
  "ps_main P raw_p raw_s argv =
    bnd (get_host_ip P) (\<lambda>HOST.
    if length argv \<noteq> 2 then bnd (print ''Usage: ./ps p|s'') (\<lambda>_. ret 1)
    else
      let arg = argv ! 1
      in bnd (if arg = ''p'' then on_object raw_p (ps_pub P HOST)
              else if arg = ''s'' then on_object raw_s (ps_sub P)
              else print ''Usage: ./ps p|s'') (\<lambda>_.
         ret 0))"

section \<open>rr.cpp\<close>

definition RR_PORT :: "16 word" where "RR_PORT = 9999"

definition RR_LOOP :: nat where "RR_LOOP = 5"

text \<open>The requests: \<open>a\<close> is \<open>1.2345 * double(i)\<close>.\<close>

definition rr_data :: "nat \<Rightarrow> request_t" where
  "rr_data i = \<lparr>req_a = fp_mul 0x3FF3C083126E978D (fp_of_int (int i)), req_b = of_nat i\<rparr>"

definition rr_turn ::
  "('w, 'p) platform_scheme \<Rightarrow> inetaddr_t \<Rightarrow> nat \<Rightarrow> ((Request, 'w) mach, unit) act" where
  "rr_turn P addr i =
    (let msg = pack request_rep (rr_data i)
     in bnd (RequestUDP_request P msg addr) (\<lambda>rp.
        bnd (lift_outcome (object_value (unpack sizeof_response response_val rp))) (\<lambda>resp.
        print (''resp: '' @ to_string (sint (resp_a resp))))))"

definition rr_request :: "('w, 'p) platform_scheme \<Rightarrow> string \<Rightarrow> ((Request, 'w) mach, unit) act" where
  "rr_request P HOST =
    bnd (lift_outcome (inet_sockaddr P (''udp://'' @ HOST @ '':'' @ to_string (uint RR_PORT)))) (\<lambda>addr.
    bnd (print (''Request connecting to: '' @ inet2string P addr)) (\<lambda>_.
    scoped P (Request_ctor (SocketUDP_ctor P) sizeof_response)
      (bnd getSocketFD (\<lambda>fd.
       bnd (on_object (SocketInfo_ctor fd) (info P ''Connect'' UDP)) (\<lambda>_.
       for_each [0..<RR_LOOP] (rr_turn P addr))))))"

definition rr_cb :: "('w, message_t) callback" where
  "rr_cb m w = (case object_value (unpack sizeof_request request_val m) of
      Val s \<Rightarrow>
        (Val (pack response_rep \<lparr>resp_a = req_b s\<rparr>), w,
         [''cb: '' @ show_fp (req_a s) @ '' '' @ to_string (sint (req_b s)) @ '' '' @
          to_string (int sizeof_request)])
    | Exn e \<Rightarrow> (Exn e, w, [])
    | Undef u \<Rightarrow> (Undef u, w, []))"

definition rr_reply :: "('w, 'p) platform_scheme \<Rightarrow> string \<Rightarrow> (('w Reply, 'w) mach, unit) act" where
  "rr_reply P HOST =
    bnd (print (''Reply binding to: '' @ HOST @ '':'' @ to_string (uint RR_PORT))) (\<lambda>_.
    scoped P (Reply_ctor (SocketUDP_ctor P) sizeof_request)
      (bnd (Socket_bind P (''udp://*:'' @ to_string (uint RR_PORT))) (\<lambda>_.
       bnd getSocketFD (\<lambda>fd.
       bnd (on_object (SocketInfo_ctor fd) (info P ''Bind'' UDP)) (\<lambda>_.
       bnd (Reply_register_cb rr_cb) (\<lambda>_.
       for_each [0..<RR_LOOP] (\<lambda>i. ReplyUDP_once P)))))))"

definition rr_main ::
  "('w, 'p) platform_scheme \<Rightarrow> Request \<Rightarrow> 'w Reply \<Rightarrow> string list \<Rightarrow> (('o, 'w) mach, int) act" where
  "rr_main P raw_q raw_r argv =
    bnd (get_host_ip P) (\<lambda>HOST.
    if length argv \<noteq> 2 then bnd (print ''Usage: ./rr reply|request'') (\<lambda>_. ret 1)
    else
      let arg = argv ! 1
      in bnd (if arg = ''reply'' then on_object raw_r (rr_reply P HOST)
              else if arg = ''request'' then on_object raw_q (rr_request P HOST)
              else print ''Usage: ./rr reply|request'') (\<lambda>_.
         ret 0))"

end
