(* ===== verification/Example_Raw.thy ===== *)
theory Example_Raw
  imports Socket_Base Socket_Info
begin

text \<open>
  The program \<open>examples/simple.cpp\<close>: a publisher and a subscriber on the C sockets, without the
  library. No object is involved. The lines of \<open>perror\<close> are kept with those of \<open>cout\<close>. A function
  that may call \<open>exit\<close> gives \<open>Some\<close> status when it did and \<open>None\<close> when it returned.
\<close>

definition MAX_BUFFER_SIZE :: nat where "MAX_BUFFER_SIZE = 32"

definition simple_host :: string where "simple_host = ''127.0.0.1''"

definition simple_port :: "16 word" where "simple_port = 6666"

definition SIMPLE_LOOP :: nat where "SIMPLE_LOOP = 5"

definition EXIT_FAILURE :: int where "EXIT_FAILURE = 1"

section \<open>Addresses\<close>

definition getUdpAddr_ip :: "'x env_scheme \<Rightarrow> string \<Rightarrow> 16 word \<Rightarrow> inetaddr_t" where
  "getUdpAddr_ip P ip port =
    (let addr = inet_view (replicate sizeof_inet 0)
     in addr\<lparr>sin_family := AF_INET, s_addr := inet_addr P (c_str ip), sin_port := htons port\<rparr>)"

definition getUdpAddr_any :: "16 word \<Rightarrow> inetaddr_t" where
  "getUdpAddr_any port =
    (let addr = inet_view (replicate sizeof_inet 0)
     in addr\<lparr>sin_family := AF_INET, s_addr := INADDR_ANY, sin_port := htons port\<rparr>)"

definition get_ip_port :: "'x env_scheme \<Rightarrow> inetaddr_t \<Rightarrow> string" where
  "get_ip_port P addr = ntop_buf P (s_addr addr) 32 @ '':'' @ to_string (uint (ntohs (sin_port addr)))"

text \<open>The result of the call is not looked at.\<close>

definition simple_getsockname :: "('w, 'p) platform_scheme \<Rightarrow> int \<Rightarrow> (('o, 'w) mach, string) act" where
  "simple_getsockname P fd =
    bnd (sys P (Sys_getsockname fd sizeof_inet)) (\<lambda>r.
    ret (get_ip_port P (inet_view (overwrite (replicate sizeof_inet 0) (r_addr r)))))"

section \<open>info\<close>

text \<open>
  \<open>getsockopt(fd, level, name, &val, &size)\<close>: \<open>val\<close> is one byte; it and \<open>size\<close> keep their values when
  the call fails.
\<close>

definition byte_opt ::
  "('w, 'p) platform_scheme \<Rightarrow> int \<Rightarrow> int \<Rightarrow> int \<Rightarrow> byte \<times> nat \<Rightarrow> (('o, 'w) mach, byte \<times> nat) act" where
  "byte_opt P fd level name vs =
    bnd (sys P (Sys_getsockopt fd level name (snd vs))) (\<lambda>r.
    ret (if r_ret r < 0 then vs
         else (hd (overwrite [fst vs] (take (snd vs) (r_data r))), min (snd vs) (length (r_data r)))))"

definition simple_info :: "('w, 'p) platform_scheme \<Rightarrow> int \<Rightarrow> (('o, 'w) mach, unit) act" where
  "simple_info P fd =
    bnd (simple_getsockname P fd) (\<lambda>hostinfo.
    bnd (print ''Socket ====================================='') (\<lambda>_.
    bnd (print (''  bind/connect to: '' @ c_str hostinfo)) (\<lambda>_.
    bnd (print (''  fd: '' @ to_string fd)) (\<lambda>_.
    bnd (byte_opt P fd IPPROTO_IP IP_MULTICAST_LOOP (uninit P 0, 1)) (\<lambda>vs.
    bnd (print (''  multicast loopback: '' @ (if fst vs \<noteq> 0 then ''enabled'' else ''disabled''))) (\<lambda>_.
    bnd (byte_opt P fd SOL_SOCKET SO_ACCEPTCONN vs) (\<lambda>vs.
    bnd (print (''  accept connections: '' @ (if fst vs \<noteq> 0 then ''enabled'' else ''disabled''))) (\<lambda>_.
    bnd (byte_opt P fd SOL_SOCKET SO_REUSEADDR vs) (\<lambda>vs.
    bnd (print (''  reuse addr: '' @ (if fst vs \<noteq> 0 then ''true'' else ''false''))) (\<lambda>_.
    bnd (byte_opt P fd SOL_SOCKET SO_REUSEPORT vs) (\<lambda>vs.
    print (''  reuse port: '' @ (if fst vs \<noteq> 0 then ''true'' else ''false'')))))))))))))"

section \<open>The subscriber\<close>

definition perror :: "'x env_scheme \<Rightarrow> string \<Rightarrow> (('o, 'w) mach, unit) act" where
  "perror P msg = bnd (gets errno) (\<lambda>e. print (msg @ '': '' @ strerror P e))"

definition fail_exit :: "'x env_scheme \<Rightarrow> string \<Rightarrow> (('o, 'w) mach, int option) act" where
  "fail_exit P msg = bnd (perror P msg) (\<lambda>_. ret (Some EXIT_FAILURE))"

text \<open>
  The body of the loop: the buffer is printed as a C string, so a datagram that fills it without
  a NUL is read beyond its end.
\<close>

fun sub_loop :: "('w, 'p) platform_scheme \<Rightarrow> int \<Rightarrow> nat \<Rightarrow> (('o, 'w) mach, int option) act" where
  "sub_loop P fd 0 = ret None"
| "sub_loop P fd (Suc n) =
    bnd (sys P (Sys_recvfrom fd MAX_BUFFER_SIZE 0 True)) (\<lambda>r.
    if r_ret r < 0 then fail_exit P ''Error in receiving data''
    else
      let buffer = overwrite (replicate MAX_BUFFER_SIZE 0) (r_data r);
          client_addr = inet_view (overwrite (replicate sizeof_inet 0) (r_addr r))
      in bnd (lift_outcome (read_c_string buffer)) (\<lambda>text.
         bnd (print (''Received '' @ text @ '' from '' @ get_ip_port P client_addr)) (\<lambda>_.
         sub_loop P fd n)))"

definition simple_sub :: "('w, 'p) platform_scheme \<Rightarrow> (('o, 'w) mach, int option) act" where
  "simple_sub P =
    bnd (sys P (Sys_socket (uint AF_INET) SOCK_DGRAM 0)) (\<lambda>r.
    let sockfd = r_ret r
    in if sockfd < 0 then fail_exit P ''Failed to create socket''
       else
         bnd (sys P (Sys_setsockopt sockfd SOL_SOCKET SO_REUSEADDR (Opt_int 1))) (\<lambda>_.
         bnd (sys P (Sys_setsockopt sockfd SOL_SOCKET SO_REUSEPORT (Opt_int 1))) (\<lambda>_.
         bnd (sys P (Sys_bind sockfd (inet_bytes (getUdpAddr_any simple_port)))) (\<lambda>b.
         if r_ret b < 0 then fail_exit P ''Binding failed''
         else
           bnd (simple_info P sockfd) (\<lambda>_.
           bnd (sub_loop P sockfd SIMPLE_LOOP) (\<lambda>e. case e of
               Some code \<Rightarrow> ret (Some code)
             | None \<Rightarrow> bnd (sys P (Sys_close sockfd)) (\<lambda>_. ret None)))))))"

section \<open>The publisher\<close>

fun pub_loop ::
  "('w, 'p) platform_scheme \<Rightarrow> int \<Rightarrow> byte list \<Rightarrow> inetaddr_t \<Rightarrow> nat \<Rightarrow> (('o, 'w) mach, int option) act" where
  "pub_loop P fd buffer addr 0 = ret None"
| "pub_loop P fd buffer addr (Suc n) =
    bnd (sys P (Sys_sendto fd buffer 0 (inet_bytes addr))) (\<lambda>r.
    if r_ret r < 0 then fail_exit P ''Error in sending data''
    else bnd (print ''Reply sent to client '') (\<lambda>_. pub_loop P fd buffer addr n))"

definition simple_pub :: "('w, 'p) platform_scheme \<Rightarrow> (('o, 'w) mach, int option) act" where
  "simple_pub P =
    (let buffer = map byte_of_char ''hello''
     in bnd (sys P (Sys_socket (uint AF_INET) SOCK_DGRAM 0)) (\<lambda>r.
        let sockfd = r_ret r
        in if sockfd < 0 then fail_exit P ''Failed to create socket''
           else
             let server_addr = getUdpAddr_ip P simple_host simple_port
             in bnd (simple_info P sockfd) (\<lambda>_.
                bnd (pub_loop P sockfd buffer server_addr SIMPLE_LOOP) (\<lambda>e. case e of
                    Some code \<Rightarrow> ret (Some code)
                  | None \<Rightarrow> bnd (sys P (Sys_close sockfd)) (\<lambda>_. ret None)))))"

text \<open>The status the program ends with.\<close>

definition simple_main ::
  "('w, 'p) platform_scheme \<Rightarrow> string list \<Rightarrow> (('o, 'w) mach, int) act" where
  "simple_main P argv =
    (if length argv \<noteq> 2 then bnd (print ''Usage: ./ps p|s'') (\<lambda>_. ret 1)
     else
       let arg = argv ! 1
       in bnd (if arg = ''p'' then simple_pub P
               else if arg = ''s'' then simple_sub P
               else bnd (print ''Usage: ./ps p|s'') (\<lambda>_. ret None)) (\<lambda>e. case e of
            Some code \<Rightarrow> ret code
          | None \<Rightarrow> ret 0))"

section \<open>How the functions end\<close>

text \<open>\<open>no_throw\<close>: no exception; \<open>exits\<close>: moreover a return or the exit status of a failure.\<close>

definition no_throw :: "('s, 'a) act \<Rightarrow> bool" where
  "no_throw m \<longleftrightarrow> (\<forall>s e. fst (m s) \<noteq> Exn e)"

definition exits :: "('s, int option) act \<Rightarrow> bool" where
  "exits m \<longleftrightarrow> no_throw m \<and> (\<forall>s e. fst (m s) = Val e \<longrightarrow> e = None \<or> e = Some EXIT_FAILURE)"

named_theorems exits_intros \<open>rules for functions that return or exit\<close>

lemma no_throw_basic [exits_intros]:
  "no_throw (sys P c)" "no_throw (print line)" "no_throw (ret x)" "no_throw (lift_outcome (read_c_string bs))"
  "no_throw (gets f)"
  by (simp_all add: no_throw_def sys_Val print_apply ret_apply lift_outcome_apply gets_apply read_c_string_def)

lemma no_throw_bnd [exits_intros]: "no_throw m \<Longrightarrow> (\<And>x. no_throw (f x)) \<Longrightarrow> no_throw (bnd m f)"
  unfolding no_throw_def by (simp add: bnd_case split: outcome.split)

lemma exits_bnd [exits_intros]: "no_throw m \<Longrightarrow> (\<And>x. exits (f x)) \<Longrightarrow> exits (bnd m f)"
  unfolding exits_def no_throw_def by (simp add: bnd_case split: outcome.split)

lemma exits_ends [exits_intros]: "exits (ret None)" "exits (fail_exit P msg)"
  by (simp_all add: exits_def fail_exit_def perror_def no_throw_def bnd_case gets_apply print_apply ret_apply)

lemma exits_if [exits_intros]: "exits m \<Longrightarrow> exits n \<Longrightarrow> exits (if b then m else n)"
  by simp

lemma no_throw_info [exits_intros]: "no_throw (simple_info P fd)"
  unfolding simple_info_def simple_getsockname_def byte_opt_def by (intro exits_intros)

lemma exits_sub_loop: "exits (sub_loop P fd n)"
  by (induction n) (auto simp: Let_def intro!: exits_intros)

lemma exits_pub_loop: "exits (pub_loop P fd buffer addr n)"
  by (induction n) (auto intro!: exits_intros)

text \<open>Calls that neither open nor close keep what is open.\<close>

definition open_are :: "int multiset \<Rightarrow> ('o, 'w) mach \<Rightarrow> bool" where
  "open_are L s \<longleftrightarrow> live (trace s) = L"

lemma open_basic [keeps_intros]:
  "plain_call c \<Longrightarrow> keeps (open_are L) (sys P c)" "keeps (open_are L) (print line)"
  by (simp_all add: keeps_def open_are_def sys_Val print_apply)

lemma open_fail_exit [keeps_intros]: "keeps (open_are L) (fail_exit P msg)"
  unfolding fail_exit_def perror_def by (intro keeps_intros)

lemma open_info [keeps_intros]: "keeps (open_are L) (simple_info P fd)"
  unfolding simple_info_def simple_getsockname_def byte_opt_def by (intro keeps_intros) simp_all

lemma open_sub_loop [keeps_intros]: "keeps (open_are L) (sub_loop P fd n)"
  by (induction n) (auto simp: Let_def intro!: keeps_intros)

lemma open_pub_loop [keeps_intros]: "keeps (open_are L) (pub_loop P fd buffer addr n)"
  by (induction n) (auto intro!: keeps_intros)

text \<open>
  The frame of both functions: with a descriptor that is open, run the body and close it if the
  body returned.
\<close>

definition closing :: "('w, 'p) platform_scheme \<Rightarrow> int \<Rightarrow> (('o, 'w) mach, int option) act \<Rightarrow>
    (('o, 'w) mach, int option) act" where
  "closing P fd body = bnd body (\<lambda>e. case e of
      Some code \<Rightarrow> ret (Some code)
    | None \<Rightarrow> bnd (sys P (Sys_close fd)) (\<lambda>_. ret None))"

definition released :: "int \<Rightarrow> int multiset \<Rightarrow> (('o, 'w) mach, int option) act \<Rightarrow> ('o, 'w) mach \<Rightarrow> bool" where
  "released fd L m s \<longleftrightarrow> (\<forall>x. fst (m s) \<noteq> Exn x) \<and>
    (\<forall>e. fst (m s) = Val e \<longrightarrow>
      (e = None \<and> live (trace (snd (m s))) = L) \<or>
      (e = Some EXIT_FAILURE \<and> live (trace (snd (m s))) = add_mset fd L))"

lemma released_closing:
  assumes "exits body" and "keeps (open_are (add_mset fd L)) body" and "open_are (add_mset fd L) s"
  shows "released fd L (closing P fd body) s"
  using assms(1) keepsD [OF assms(2,3)]
  by (auto simp: released_def closing_def exits_def no_throw_def open_are_def bnd_case sys_Val ret_apply
      split: outcome.splits option.splits)

lemma released_bnd:
  assumes "no_throw m" and "keeps (open_are (add_mset fd L)) m" and "open_are (add_mset fd L) s"
    and "\<And>x t. open_are (add_mset fd L) t \<Longrightarrow> released fd L (f x) t"
  shows "released fd L (bnd m f) s"
  using assms(1) keepsD [OF assms(2,3)] assms(4) [of "snd (m s)"]
  by (cases "fst (m s)") (auto simp: released_def bnd_case no_throw_def)

lemma released_fail: "open_are (add_mset fd L) s \<Longrightarrow> released fd L (fail_exit P msg) s"
  by (simp add: released_def fail_exit_def perror_def bnd_case gets_apply print_apply ret_apply open_are_def)

lemma released_eq: "m s = g t \<Longrightarrow> released fd L g t \<Longrightarrow> released fd L m s"
  by (simp add: released_def)

text \<open>Creating the descriptor.\<close>

definition dgram_fd :: "('w, 'p) platform_scheme \<Rightarrow> 'w \<Rightarrow> int" where
  "dgram_fd P w = r_ret (fst (kernel P (Sys_socket (uint AF_INET) SOCK_DGRAM 0) w))"

lemma dgram_fd_open:
  "0 \<le> dgram_fd P (world s) \<Longrightarrow>
    open_are (add_mset (dgram_fd P (world s)) (live (trace s)))
      (snd (sys P (Sys_socket (uint AF_INET) SOCK_DGRAM 0) s))"
  by (simp add: open_are_def sys_Val dgram_fd_def)

lemma bnd_sys: "bnd (sys P c) f s = f (fst (kernel P c (world s))) (snd (sys P c s))"
  by (simp add: bnd_case sys_Val)

lemma simple_pub_released:
  assumes "0 \<le> dgram_fd P (world s)"
  shows "released (dgram_fd P (world s)) (live (trace s)) (simple_pub P) s"
proof -
  let ?fd = "dgram_fd P (world s)"
  let ?loop = "pub_loop P ?fd (map byte_of_char ''hello'') (getUdpAddr_ip P simple_host simple_port) SIMPLE_LOOP"
  let ?g = "bnd (simple_info P ?fd) (\<lambda>_. closing P ?fd ?loop)"
  have "released ?fd (live (trace s)) ?g (snd (sys P (Sys_socket (uint AF_INET) SOCK_DGRAM 0) s))"
    by (intro released_bnd released_closing exits_intros exits_pub_loop keeps_intros dgram_fd_open assms)
  then show ?thesis
    by (rule released_eq [rotated])
      (use assms in \<open>simp add: simple_pub_def closing_def bnd_sys dgram_fd_def Let_def\<close>)
qed

lemma simple_sub_released:
  assumes "0 \<le> dgram_fd P (world s)"
  shows "released (dgram_fd P (world s)) (live (trace s)) (simple_sub P) s"
proof -
  let ?fd = "dgram_fd P (world s)"
  let ?g = "bnd (sys P (Sys_setsockopt ?fd SOL_SOCKET SO_REUSEADDR (Opt_int 1))) (\<lambda>_.
    bnd (sys P (Sys_setsockopt ?fd SOL_SOCKET SO_REUSEPORT (Opt_int 1))) (\<lambda>_.
    bnd (sys P (Sys_bind ?fd (inet_bytes (getUdpAddr_any simple_port)))) (\<lambda>b.
    if r_ret b < 0 then fail_exit P ''Binding failed''
    else bnd (simple_info P ?fd) (\<lambda>_. closing P ?fd (sub_loop P ?fd SIMPLE_LOOP)))))"
  have tail: "released ?fd L (if b then fail_exit P ''Binding failed''
      else bnd (simple_info P ?fd) (\<lambda>_. closing P ?fd (sub_loop P ?fd SIMPLE_LOOP))) t"
    if "open_are (add_mset ?fd L) t" for L b t
    using that
    by (cases b) (auto intro!: released_fail released_bnd released_closing exits_intros exits_sub_loop keeps_intros)
  have "released ?fd (live (trace s)) ?g (snd (sys P (Sys_socket (uint AF_INET) SOCK_DGRAM 0) s))"
    by (intro released_bnd tail exits_intros keeps_intros dgram_fd_open assms) simp_all
  then show ?thesis
    by (rule released_eq [rotated])
      (use assms in \<open>simp add: simple_sub_def closing_def bnd_sys dgram_fd_def Let_def\<close>)
qed

lemma simple_no_socket:
  assumes "dgram_fd P (world s) < 0"
  shows "fst (simple_pub P s) = Val (Some EXIT_FAILURE)" and "live (trace (snd (simple_pub P s))) = live (trace s)"
    and "fst (simple_sub P s) = Val (Some EXIT_FAILURE)" and "live (trace (snd (simple_sub P s))) = live (trace s)"
  using assms
  by (simp_all add: simple_pub_def simple_sub_def dgram_fd_def bnd_case sys_Val fail_exit_def perror_def
      gets_apply print_apply ret_apply Let_def)

text \<open>One turn of the subscriber, by the reply of the kernel.\<close>

lemma sub_loop_Suc:
  assumes "r = fst (kernel P (Sys_recvfrom fd MAX_BUFFER_SIZE 0 True) (world s))"
    and "s' = snd (sys P (Sys_recvfrom fd MAX_BUFFER_SIZE 0 True) s)"
  shows "sub_loop P fd (Suc n) s =
    (if r_ret r < 0 then fail_exit P ''Error in receiving data'' s'
     else case read_c_string (overwrite (replicate MAX_BUFFER_SIZE 0) (r_data r)) of
         Val text \<Rightarrow> sub_loop P fd n (s'\<lparr>cout := cout s @ [''Received '' @ text @ '' from '' @
           get_ip_port P (inet_view (overwrite (replicate sizeof_inet 0) (r_addr r)))]\<rparr>)
       | Exn e \<Rightarrow> (Exn e, s')
       | Undef u \<Rightarrow> (Undef u, s'))"
proof -
  have "cout s' = cout s" by (simp add: assms(2) sys_Val)
  then show ?thesis
    unfolding sub_loop.simps bnd_sys assms [symmetric] Let_def
    by (simp add: bnd_case lift_outcome_apply print_apply split: outcome.split)
qed

lemma buffer_full:
  assumes "length bs = MAX_BUFFER_SIZE" and "0 \<notin> set bs"
  shows "read_c_string (overwrite (replicate MAX_BUFFER_SIZE 0) bs) = Undef Unterminated_string"
  using assms by (simp add: overwrite_full read_c_string_def)

lemma buffer_text:
  assumes "length text < MAX_BUFFER_SIZE" and "CHR 0x00 \<notin> set text"
  shows "read_c_string (overwrite (replicate MAX_BUFFER_SIZE 0) (map byte_of_char text)) = Val text"
proof -
  obtain k where "MAX_BUFFER_SIZE - length text = Suc k"
    using assms(1) by (metis Suc_diff_Suc)
  then have "overwrite (replicate MAX_BUFFER_SIZE 0) (map byte_of_char text) =
      map byte_of_char text @ 0 # replicate k 0"
    using assms(1) by (simp add: overwrite_def)
  then show ?thesis using read_c_string_terminated [OF assms(2)] by simp
qed

end
