(* ===== verification/Example_Properties.thy ===== *)
theory Example_Properties
  imports Sample_Network Example_Messages Example_Raw
begin

text \<open>
  The properties of the exchange of requests and replies over a network that delivers, and of the
  example programs \<open>rr.cpp\<close>, \<open>ps.cpp\<close>, \<open>msg.cpp\<close> and \<open>simple.cpp\<close>.
\<close>

section \<open>A request over a network\<close>

text \<open>
  Over a network that delivers, with a replier that takes its turn while the requester waits, a
  request gets exactly what the replier's callback returns for it, and leaves nothing behind: no datagram
  waits at either socket, and the next request finds the same situation. The replier answers to the
  address the request came from, so the requester needs no address of its own.
\<close>
lemma request_reply_exchange:
  assumes "dgram_law P queue addr_of reaches"
    and "idle_pair queue addr_of reaches sizeof_inet (socket_fd (self s)) (socket_fd (self p)) (inet_bytes addr) (world s)"
    and "length m = rep_msg_size (self p)" and "m \<noteq> []"
    and "callback (self p) = Some cb" and "\<And>w. fst (cb m w) = Val r \<and> fst (snd (cb m w)) = w"
    and "length r = req_msg_size (self s)"
  shows "\<exists>t. RequestUDP_request (during_receive (replier_turn P p) P) m addr s = (Val r, t) \<and>
    self t = self s \<and>
    idle_pair queue addr_of reaches sizeof_inet (socket_fd (self s)) (socket_fd (self p)) (inet_bytes addr) (world t)"
  using udp_request_answered [OF assms] by blast

text \<open>A requester and a replier in the sample network, the replier bound to port 9999 of any address.\<close>

definition lan_pair :: lan where
  "lan_pair = \<lparr>lan_open = [4, 3],
     lan_addr = (\<lambda>fd. if fd = 3 then inet_bytes (inet_of 0 9999) else inet_bytes (inet_of 0x0100007F 40004)),
     lan_queue = (\<lambda>_. [])\<rparr>"

definition lan_replier :: "(lan, message_t) callback \<Rightarrow> nat \<Rightarrow> (lan Reply, lan) mach" where
  "lan_replier cb n = lan_machine \<lparr>socket_fd = 3, callback = Some cb, rep_msg_size = n\<rparr> lan_pair"

definition lan_requester :: "nat \<Rightarrow> (Request, lan) mach" where
  "lan_requester n = lan_machine \<lparr>socket_fd = 4, req_msg_size = n\<rparr> lan_pair"

lemma lan_pair_simps [simp]:
  "self (lan_replier cb n) = \<lparr>socket_fd = 3, callback = Some cb, rep_msg_size = n\<rparr>"
  "self (lan_requester n) = \<lparr>socket_fd = 4, req_msg_size = n\<rparr>"
  "world (lan_requester n) = lan_pair" "cout (lan_requester n) = []"
  by (simp_all add: lan_replier_def lan_requester_def)

lemma replicate_4: "replicate 4 x = [x, x, x, x]"
  by (simp add: numeral_eq_Suc)

lemma lan_idle:
  "idle_pair lan_queue lan_addr lan_reaches sizeof_inet 4 3 (inet_bytes (inet_of 0x0100007F 9999)) lan_pair"
proof -
  have "lan_reaches lan_pair (inet_bytes (inet_of 0x0100007F 9999)) g \<longleftrightarrow> g = 3"
    "lan_reaches lan_pair (inet_bytes (inet_of 0x0100007F 40004)) g \<longleftrightarrow> g = 4" for g
    by (auto simp: lan_reaches_def lan_pair_def inet_bytes_def inet_of_def htons_def le16_def le32_def
        replicate_4 AF_INET_def AF_UNIX_def)
  moreover have "overwrite (replicate sizeof_inet 0) (inet_bytes (inet_of 0x0100007F 40004)) =
      inet_bytes (inet_of 0x0100007F 40004)"
    by (rule overwrite_full) (simp add: inet_bytes_def inet_of_def sizeof_inet_def)
  ultimately show ?thesis
    by (simp add: idle_pair_def lan_pair_def)
qed

lemma lan_two_idle:
  "idle_pair lan_queue lan_addr lan_reaches sizeof_inet 4 3 (inet_bytes (inet_of 0x0100007F 9999))
    (lan_two (inet_bytes (inet_of 0 9999)) (inet_bytes (inet_of 0x0100007F 40004)))"
proof -
  let ?w = "lan_two (inet_bytes (inet_of 0 9999)) (inet_bytes (inet_of 0x0100007F 40004))"
  have "lan_addr ?w g = lan_addr lan_pair g" if "g = 3 \<or> g = 4" for g
    using that by (auto simp: lan_two_def lan_pair_def)
  moreover have "set (lan_open ?w) = {3, 4}" "set (lan_open lan_pair) = {3, 4}" "lan_queue ?w = lan_queue lan_pair"
    by (auto simp: lan_two_def lan_pair_def)
  ultimately have "lan_reaches ?w = lan_reaches lan_pair" "lan_addr ?w 4 = lan_addr lan_pair 4"
    "lan_queue ?w = lan_queue lan_pair"
    by (auto simp: lan_reaches_def fun_eq_iff)
  then show ?thesis using lan_idle unfolding idle_pair_def by simp
qed

definition reverse_cb :: "(lan, message_t) callback" where
  "reverse_cb m w = (Val (rev m), w, [''reversed''])"

lemma request_reply_exchange_witness:
  "\<exists>t. RequestUDP_request (during_receive (replier_turn lan_platform (lan_replier reverse_cb 2)) lan_platform)
    [7, 8] (inet_of 0x0100007F 9999) (lan_requester 2) = (Val [8, 7], t)"
  using request_reply_exchange [OF lan_dgram_law, of "lan_requester 2" "lan_replier reverse_cb 2"
      "inet_of 0x0100007F 9999" "[7, 8]" reverse_cb "[8, 7]"] lan_idle
  by (auto simp: reverse_cb_def)

section \<open>rr.cpp\<close>

lemma int_text: "n < 2 ^ 31 \<Longrightarrow> to_string (sint (of_nat n :: 32 word)) = nat_digits n"
  by (simp add: signed_of_nat signed_take_bit_int_eq_self to_string_nonneg)

lemma rr_cb_answers:
  "fst (rr_cb (pack request_rep d) w) = Val (pack response_rep \<lparr>resp_a = req_b d\<rparr>) \<and>
    fst (snd (rr_cb (pack request_rep d) w)) = w"
  by (simp add: rr_cb_def req.unpack_pack [simplified])

lemma rr_turn_prints:
  assumes "dgram_law P queue addr_of reaches"
    and "idle_pair queue addr_of reaches sizeof_inet (socket_fd (self s)) (socket_fd (self p)) (inet_bytes addr) (world s)"
    and "rep_msg_size (self p) = sizeof_request" and "callback (self p) = Some rr_cb"
    and "req_msg_size (self s) = sizeof_response" and "i < 2 ^ 31"
  shows "\<exists>t. rr_turn (during_receive (replier_turn P p) P) addr i s = (Val (), t) \<and> self t = self s \<and>
    cout t = cout s @ [''resp: '' @ nat_digits i] \<and>
    idle_pair queue addr_of reaches sizeof_inet (socket_fd (self s)) (socket_fd (self p)) (inet_bytes addr) (world t)"
proof -
  let ?m = "pack request_rep (rr_data i)" and ?r = "pack response_rep \<lparr>resp_a = of_nat i\<rparr>"
  have len: "length ?m = sizeof_request" "length ?r = sizeof_response"
    by (rule req.pack_length resp.pack_length)+
  then have ne: "?m \<noteq> []" "?r \<noteq> []"
    by (metis list.size(3) zero_neq_numeral struct_sizes(2,3))+
  have cb: "\<And>w. fst (rr_cb ?m w) = Val ?r \<and> fst (snd (rr_cb ?m w)) = w"
    using rr_cb_answers [of "rr_data i"] by (simp add: rr_data_def)
  obtain t where "RequestUDP_request (during_receive (replier_turn P p) P) ?m addr s = (Val ?r, t)"
    "self t = self s" "cout t = cout s"
    "idle_pair queue addr_of reaches sizeof_inet (socket_fd (self s)) (socket_fd (self p)) (inet_bytes addr) (world t)"
    using udp_request_answered [OF assms(1,2) _ ne(1) assms(4) cb] assms(3,5) len by metis
  moreover have "unpack sizeof_response response_val ?r = Val (Determinate \<lparr>resp_a = of_nat i\<rparr>)"
    by (rule resp.unpack_pack)
  ultimately show ?thesis
    using int_text [OF assms(6)]
    by (intro exI [of _ "t\<lparr>cout := cout t @ [''resp: '' @ nat_digits i]\<rparr>"])
      (simp add: rr_turn_def Let_def bnd_case lift_outcome_apply print_apply)
qed

lemma rr_turns_print:
  assumes "dgram_law P queue addr_of reaches"
    and "idle_pair queue addr_of reaches sizeof_inet (socket_fd (self s)) (socket_fd (self p)) (inet_bytes addr) (world s)"
    and "rep_msg_size (self p) = sizeof_request" and "callback (self p) = Some rr_cb"
    and "req_msg_size (self s) = sizeof_response" and "\<forall>i \<in> set is. i < 2 ^ 31"
  shows "\<exists>t. for_each is (rr_turn (during_receive (replier_turn P p) P) addr) s = (Val (), t) \<and>
    self t = self s \<and> cout t = cout s @ map (\<lambda>i. ''resp: '' @ nat_digits i) is"
  using assms(2,5,6)
proof (induction "is" arbitrary: s)
  case Nil
  then show ?case by (simp add: ret_apply)
next
  case (Cons i js)
  obtain t where t: "rr_turn (during_receive (replier_turn P p) P) addr i s = (Val (), t)" "self t = self s"
    "cout t = cout s @ [''resp: '' @ nat_digits i]"
    "idle_pair queue addr_of reaches sizeof_inet (socket_fd (self s)) (socket_fd (self p)) (inet_bytes addr) (world t)"
    using rr_turn_prints [OF assms(1) Cons.prems(1) assms(3,4) Cons.prems(2), of i] Cons.prems(3) by auto
  obtain u where "for_each js (rr_turn (during_receive (replier_turn P p) P) addr) t = (Val (), u)"
    "self u = self t" "cout u = cout t @ map (\<lambda>i. ''resp: '' @ nat_digits i) js"
    using Cons.IH [of t] t(2,4) Cons.prems by auto
  with t show ?case by (simp add: bnd_case)
qed

text \<open>The requests as \<open>double\<close>s: 1.2345 times 0 to 4, and what is printed of them.\<close>

lemma decode_values:
  "decode_fp 0 = Fin False 0 (- 1074)"
  "decode_fp 0x3FF0000000000000 = Fin False 0x10000000000000 (- 52)"
  "decode_fp 0x4000000000000000 = Fin False 0x10000000000000 (- 51)"
  "decode_fp 0x4008000000000000 = Fin False 0x18000000000000 (- 51)"
  "decode_fp 0x4010000000000000 = Fin False 0x10000000000000 (- 50)"
  "decode_fp 0x3FF3C083126E978D = Fin False 0x13C083126E978D (- 52)"
  "decode_fp 0x4003C083126E978D = Fin False 0x13C083126E978D (- 51)"
  "decode_fp 0x400DA0C49BA5E354 = Fin False 0x1DA0C49BA5E354 (- 51)"
  "decode_fp 0x4013C083126E978D = Fin False 0x13C083126E978D (- 50)"
  "decode_fp 0x3FF199999999999A = Fin False 0x1199999999999A (- 52)"
  "decode_fp 0x3FF3333333333333 = Fin False 0x13333333333333 (- 52)"
  by (simp_all add: decode_fp_def Let_def)

lemma of_int_values:
  "fp_of_int 0 = 0" "fp_of_int 1 = 0x3FF0000000000000" "fp_of_int 2 = 0x4000000000000000"
  "fp_of_int 3 = 0x4008000000000000" "fp_of_int 4 = 0x4010000000000000"
  subgoal by (simp add: fp_of_int_def encode_fp_def Let_def)
  subgoal by (simp add: fp_of_int_def encode_at [where k = 0])
  subgoal by (simp add: fp_of_int_def encode_at [where k = 1])
  subgoal by (simp add: fp_of_int_def encode_at [where k = 1])
  subgoal by (simp add: fp_of_int_def encode_at [where k = 2])
  done

lemma mul_values:
  "fp_mul 0x3FF3C083126E978D 0 = 0"
  "fp_mul 0x3FF3C083126E978D 0x3FF0000000000000 = 0x3FF3C083126E978D"
  "fp_mul 0x3FF3C083126E978D 0x4000000000000000 = 0x4003C083126E978D"
  "fp_mul 0x3FF3C083126E978D 0x4008000000000000 = 0x400DA0C49BA5E354"
  "fp_mul 0x3FF3C083126E978D 0x4010000000000000 = 0x4013C083126E978D"
  subgoal by (simp add: fp_mul_def decode_values encode_fp_def Let_def)
  subgoal by (simp add: fp_mul_def decode_values encode_at [where k = 104] round_even_def Let_def)
  subgoal by (simp add: fp_mul_def decode_values encode_at [where k = 104] round_even_def Let_def)
  subgoal by (simp add: fp_mul_def decode_values encode_at [where k = 104] round_even_def Let_def)
  subgoal by (simp add: fp_mul_def decode_values encode_at [where k = 104] round_even_def Let_def)
  done

lemma show_values:
  "show_fp 0 = ''0''" "show_fp 0x3FF3C083126E978D = ''1.2345''" "show_fp 0x4003C083126E978D = ''2.469''"
  "show_fp 0x400DA0C49BA5E354 = ''3.7035''" "show_fp 0x4013C083126E978D = ''4.938''"
  "show_fp 0x3FF199999999999A = ''1.1''" "show_fp 0x3FF3333333333333 = ''1.2''"
  by (simp_all add: show_fp_def decode_values six_digits_def decimal_exponent_def round_even_def format_g_def
      with_fraction_def strip_zeros_def nat_digits.simps digit_char_eqs Let_def)

lemma small_digits:
  "nat_digits 0 = ''0''" "nat_digits (Suc 0) = ''1''" "nat_digits 2 = ''2''" "nat_digits 3 = ''3''"
  "nat_digits 4 = ''4''" "nat_digits 12 = ''12''" "nat_digits 16 = ''16''" "nat_digits 1024 = ''1024''"
  by (simp_all add: nat_digits.simps digit_char_eqs)

lemma rr_cb_prints:
  assumes "i < 2 ^ 31"
  shows "snd (snd (rr_cb (pack request_rep (rr_data i)) w)) =
    [''cb: '' @ show_fp (req_a (rr_data i)) @ '' '' @ nat_digits i @ '' 12'']"
proof -
  have u: "unpack sizeof_request request_val (pack request_rep (rr_data i)) = Val (Determinate (rr_data i))"
    by (rule req.unpack_pack)
  show ?thesis
    using int_text [OF assms] to_string_nonneg [of 12] small_digits(6)
    unfolding rr_cb_def u by (simp add: rr_data_def sizeof_request_def)
qed

lemma rr_lines:
  "snd (snd (rr_cb (pack request_rep (rr_data 0)) w)) = [''cb: 0 0 12'']"
  "snd (snd (rr_cb (pack request_rep (rr_data (Suc 0))) w)) = [''cb: 1.2345 1 12'']"
  "snd (snd (rr_cb (pack request_rep (rr_data 2)) w)) = [''cb: 2.469 2 12'']"
  "snd (snd (rr_cb (pack request_rep (rr_data 3)) w)) = [''cb: 3.7035 3 12'']"
  "snd (snd (rr_cb (pack request_rep (rr_data 4)) w)) = [''cb: 4.938 4 12'']"
  by (subst rr_cb_prints, simp, simp add: rr_data_def of_int_values mul_values show_values small_digits)+

lemma rr_turns: "[0..<RR_LOOP] = [0, Suc 0, 2, 3, 4]"
  by (simp add: RR_LOOP_def upt_rec numeral_2_eq_2 numeral_3_eq_3)

text \<open>The endpoints of the program when their loops begin.\<close>

definition rr_request_ready ::
  "('w, 'p) platform_scheme \<Rightarrow> inetaddr_t \<Rightarrow> ((Request, 'w) mach, unit) act" where
  "rr_request_ready P addr =
    bnd (print (''Request connecting to: '' @ inet2string P addr)) (\<lambda>_.
    bnd (Request_ctor (SocketUDP_ctor P) sizeof_response) (\<lambda>_.
    bnd getSocketFD (\<lambda>fd. on_object (SocketInfo_ctor fd) (info P ''Connect'' UDP))))"

definition rr_reply_ready :: "('w, 'p) platform_scheme \<Rightarrow> string \<Rightarrow> (('w Reply, 'w) mach, unit) act" where
  "rr_reply_ready P HOST =
    bnd (print (''Reply binding to: '' @ HOST @ '':'' @ to_string (uint RR_PORT))) (\<lambda>_.
    bnd (Reply_ctor (SocketUDP_ctor P) sizeof_request) (\<lambda>_.
    bnd (Socket_bind P (''udp://*:'' @ to_string (uint RR_PORT))) (\<lambda>_.
    bnd getSocketFD (\<lambda>fd.
    bnd (on_object (SocketInfo_ctor fd) (info P ''Bind'' UDP)) (\<lambda>_.
    Reply_register_cb rr_cb)))))"

lemma on_object_Val: "on_object obj m s = (Val x, t) \<Longrightarrow> self t = self s"
  by (auto simp: on_object_eq)

lemma rr_request_ready_Val:
  assumes "rr_request_ready P addr s = (Val (), t)"
  shows "req_msg_size (self t) = sizeof_response"
  using assms
  by (auto simp: rr_request_ready_def Request_ctor_def bnd_Val_iff modify_apply print_apply get_fd_apply getSocketFD_def
      dest!: on_object_Val)

lemma rr_reply_ready_Val:
  assumes "rr_reply_ready P HOST s = (Val (), t)"
  shows "rep_msg_size (self t) = sizeof_request" and "callback (self t) = Some rr_cb"
  using assms
  by (auto simp: rr_reply_ready_def Reply_ctor_def Reply_register_cb_def bnd_Val_iff modify_apply print_apply
      get_fd_apply getSocketFD_def dest!: on_object_Val bind_Val_self)

text \<open>The listing of a socket makes no receive.\<close>

lemma during_receive_texts:
  "ntop_buf (during_receive turn P) = ntop_buf P" "inet2string (during_receive turn P) = inet2string P"
  by (simp_all add: fun_eq_iff ntop_buf_def inet2string_def during_receive_def)

lemma during_receive_opt: "read_opt (during_receive turn P) = read_opt P"
  by (simp add: fun_eq_iff read_opt_def during_receive_sys)

lemma during_receive_so_line: "so_line (during_receive turn P) = so_line P"
  by (simp add: fun_eq_iff so_line_def during_receive_opt)

lemma during_receive_so_lines: "so_lines (during_receive turn P) ms = so_lines P ms"
proof (induction ms)
  case Nil
  show ?case by (rule ext) simp
next
  case (Cons m ms)
  then show ?case by (intro ext) (simp add: during_receive_so_line)
qed

lemma during_receive_info: "info (during_receive turn P) = info P"
  by (simp add: fun_eq_iff info_def info_so_def info_ip_def SocketInfo_getsockname_def during_receive_texts
      during_receive_opt during_receive_so_lines during_receive_sys Let_def cong: if_cong)

text \<open>A requester that got as far as its loop prints the answers and closes.\<close>

lemma rr_request_prints:
  assumes "inet_sockaddr P (''udp://'' @ HOST @ '':'' @ to_string (uint RR_PORT)) = Val addr"
    and "rr_request_ready P addr s = (Val (), t)"
    and "for_each [0..<RR_LOOP] (rr_turn (during_receive turn P) addr) t = (Val (), u)"
  shows "\<exists>v. rr_request (during_receive turn P) HOST s = (Val (), v) \<and> socket_fd (self v) = - 1 \<and> cout v = cout u"
proof -
  let ?P = "during_receive turn P" and ?ctor = "Request_ctor (SocketUDP_ctor P) sizeof_response"
  let ?body = "bnd getSocketFD (\<lambda>fd. bnd (on_object (SocketInfo_ctor fd) (info P ''Connect'' UDP)) (\<lambda>_.
      for_each [0..<RR_LOOP] (rr_turn (during_receive turn P) addr)))"
  obtain s1 s2 s3 where s: "print (''Request connecting to: '' @ inet2string P addr) s = (Val (), s1)"
    "?ctor s1 = (Val (), s2)" "getSocketFD s2 = (Val (socket_fd (self s2)), s2)"
    "on_object (SocketInfo_ctor (socket_fd (self s2))) (info P ''Connect'' UDP) s2 = (Val (), t)"
    using assms(2) by (auto simp: rr_request_ready_def bnd_Val_iff getSocketFD_def get_fd_apply)
  have "?body s2 = (Val (), u)" using s(3,4) assms(3) by (simp add: bnd_case)
  from scoped_prints [where P = ?P and ctor = ?ctor and body = ?body, OF s(2) this] s(1) assms(1)
  show ?thesis
    by (simp add: rr_request_def during_receive_addresses during_receive_texts during_receive_ctors
        during_receive_info bnd_case lift_outcome_apply)
qed


text \<open>Both endpoints on the network in memory; the listing of a socket changes nothing there.\<close>

lemma lan_still:
  "keeps (\<lambda>s. world s = w) (print line)"
  "keeps (\<lambda>s. world s = w) (socketTypes_at k)"
  "keeps (\<lambda>s. world s = w) (sys lan_platform (Sys_getsockname fd n))"
  "keeps (\<lambda>s. world s = w) (read_opt lan_platform level name buf sz)"
  by (simp_all add: keeps_def print_apply socketTypes_at_def read_opt_def bnd_case gets_apply modify_apply sys_Val
      ret_apply split: option.split)

lemma lan_so_lines: "keeps (\<lambda>s. world s = w) (so_lines lan_platform ms vs)"
  by (induction ms arbitrary: vs) (auto simp: so_line_def Let_def intro!: keeps_intros lan_still)

lemma lan_info: "\<exists>t. on_object (SocketInfo_ctor fd) (info lan_platform name UDP) s = (Val (), t) \<and>
    self t = self s \<and> world t = world s"
proof -
  have "keeps (\<lambda>u. world u = world s) (info lan_platform name UDP)"
    unfolding info_def info_so_def info_ip_def SocketInfo_getsockname_def Let_def
    by (auto split: prod.split intro!: keeps_intros lan_still lan_so_lines)
  moreover have "world (with_self (SocketInfo_ctor fd) s) = world s" by simp
  ultimately have "world (snd (info lan_platform name UDP (with_self (SocketInfo_ctor fd) s))) = world s"
    by (rule keepsD)
  moreover obtain x where "fst (info lan_platform name UDP (with_self (SocketInfo_ctor fd) s)) = Val x"
    using returns_info unfolding returns_def by blast
  ultimately show ?thesis by (simp add: on_object_eq)
qed

lemma rr_port: "to_string (uint RR_PORT) = ''9999''"
  by (simp add: RR_PORT_def to_string_nonneg nat_digits.simps digit_char_eqs)

lemma lan_rr_replier:
  "\<exists>p. rr_reply_ready lan_platform host (lan_machine r lan_start) = (Val (), p) \<and> socket_fd (self p) = 3 \<and>
    world p = lan_one (inet_bytes (inet_of 0 9999))"
proof -
  have l: "leftmost proto_at ''udp://*:9999'' = Some (''udp'', ''*:9999'')" by code_simp
  let ?s = "snd (print (''Reply binding to: '' @ host @ '':9999'') (lan_machine r lan_start))"
  obtain t where t: "Reply_ctor (SocketUDP_ctor lan_platform) sizeof_request ?s = (Val (), t)" "socket_fd (self t) = 3"
    "world t = snd (lan_kernel (Sys_socket 2 2 0) lan_start)"
    by (simp add: Reply_ctor_def bnd_case lan_built modify_apply print_apply lan_start_def fresh_fd_def)
  obtain u where u: "Socket_bind lan_platform ''udp://*:9999'' t = (Val (), u)" "self u = self t"
    "world u = (world t)\<lparr>lan_addr := (lan_addr (world t))(3 := inet_bytes (inet_of 0 9999))\<rparr>"
    using lan_bound [OF l lan_udp_addresses(1), of t] t(2) by auto
  obtain v where v: "on_object (SocketInfo_ctor 3) (info lan_platform ''Bind'' UDP) u = (Val (), v)" "self v = self u"
    "world v = world u" using lan_info by blast
  have "world v = lan_one (inet_bytes (inet_of 0 9999))"
    by (simp add: v u t lan_one_def lan_start_def fresh_fd_def Let_def fun_eq_iff)
  then show ?thesis
    using t u v
    by (simp add: rr_reply_ready_def rr_port bnd_case print_apply getSocketFD_def get_fd_apply
        Reply_register_cb_def modify_apply)
qed

lemma lan_rr_requester:
  "\<exists>s. rr_request_ready lan_platform addr (lan_machine q (lan_one a)) = (Val (), s) \<and> socket_fd (self s) = 4 \<and>
    world s = lan_two a (inet_bytes (inet_of 0x0100007F 40004))"
proof -
  let ?s = "snd (print (''Request connecting to: '' @ inet2string lan_platform addr) (lan_machine q (lan_one a)))"
  obtain t where t: "Request_ctor (SocketUDP_ctor lan_platform) sizeof_response ?s = (Val (), t)" "socket_fd (self t) = 4"
    "world t = snd (lan_kernel (Sys_socket 2 2 0) (lan_one a))"
    by (simp add: Request_ctor_def bnd_case lan_built modify_apply print_apply lan_one_def fresh_fd_def)
  obtain v where v: "on_object (SocketInfo_ctor 4) (info lan_platform ''Connect'' UDP) t = (Val (), v)" "self v = self t"
    "world v = world t" using lan_info by blast
  have "world v = lan_two a (inet_bytes (inet_of 0x0100007F 40004))"
    by (simp add: v t lan_one_def lan_two_def fresh_fd_def Let_def fun_eq_iff)
  then show ?thesis
    using t v by (simp add: rr_request_ready_def bnd_case print_apply getSocketFD_def get_fd_apply)
qed


section \<open>ps.cpp\<close>

lemma ps_cb_prints:
  assumes "length pad = 4" and "i < 2 ^ 31"
  shows "ps_cb (le64 0x3FF3333333333333 @ le32 (of_nat i) @ pad) w =
    (Val (), w, [''data_t 1.2 '' @ nat_digits i @ '' size 16''])"
proof -
  have "length (le64 0x3FF3333333333333 @ le32 (of_nat i) @ pad) = sizeof_data"
    using assms(1) by (simp add: sizeof_data_def)
  moreover have "data_val (le64 0x3FF3333333333333 @ le32 (of_nat i) @ pad) =
      \<lparr>data_a = 0x3FF3333333333333, data_b = of_nat i\<rparr>"
    by (simp add: data_val_def)
  ultimately show ?thesis
    using int_text [OF assms(2)] to_string_nonneg [of 16] small_digits(7)
    by (simp add: ps_cb_def unpack_exact data_text_def show_values sizeof_data_def)
qed

definition ps_message :: "(nat \<Rightarrow> byte) \<Rightarrow> nat \<Rightarrow> message_t" where
  "ps_message mem i = pack (data_rep mem 0) (ps_data i)"

lemma ps_message_bytes: "ps_message mem i = le64 0x3FF3333333333333 @ le32 (of_nat i) @ map mem [0..<4]"
  by (simp add: ps_message_def data_rep_def ps_data_def)

lemma ps_pub_sends:
  assumes "inet_sockaddr P (''udp://'' @ HOST @ '':3000'') = Val addr"
    and "Publisher_ctor (SocketUDP_ctor P) s = (Val (), s1)"
  shows "\<exists>t. ps_pub P HOST s = (Val (), t) \<and> socket_fd (self t) = - 1 \<and>
    map fst (trace t) = map fst (trace s1) @
      map (\<lambda>i. Sys_sendto (socket_fd (self s1)) (ps_message (uninit P) i) 0 (inet_bytes addr)) [0..<MAX_LOOP] @
      [Sys_close (socket_fd (self s1))]"
proof -
  have port: "to_string PS_PORT = ''3000''"
    by (simp add: PS_PORT_def to_string_nonneg nat_digits.simps digit_char_eqs)
  obtain u where "SocketUDP_ctor P s = (Val (), u)" "s1 = u\<lparr>self := (self u)\<lparr>clientaddrs := []\<rparr>\<rparr>"
    using assms(2) by (auto simp: Publisher_ctor_def bnd_Val_iff modify_apply)
  then have fd: "0 \<le> socket_fd (self s1)" and c: "clientaddrs (self s1) = []"
    using SocketUDP_ctor_Val [of P s u] by simp_all
  let ?s2 = "s1\<lparr>self := (self s1)\<lparr>clientaddrs := [addr]\<rparr>\<rparr>"
  obtain t where t: "for_each [0..<MAX_LOOP] (\<lambda>i. PublisherUDP_publish P (ps_message (uninit P) i)) ?s2 = (Val (), t)"
    "self t = self ?s2" "map fst (trace t) = map fst (trace s1) @
      map (\<lambda>i. Sys_sendto (socket_fd (self s1)) (ps_message (uninit P) i) 0 (inet_bytes addr)) [0..<MAX_LOOP]"
    using pub_udp.publish_series [of "[0..<MAX_LOOP]" P "ps_message (uninit P)" ?s2]
    unfolding PublisherUDP_publish_def by auto
  have "bnd (Publisher_register_addr addr) (\<lambda>_. for_each [0..<MAX_LOOP] (\<lambda>i.
      let m = pack (data_rep (uninit P) 0) (ps_data i) in PublisherUDP_publish P m)) s1 = (Val (), t)"
    using t(1) c unfolding Let_def ps_message_def [symmetric]
    by (simp add: bnd_case Publisher_register_addr_def modify_apply)
  note body = this
  have "scoped P (Publisher_ctor (SocketUDP_ctor P)) (bnd (Publisher_register_addr addr) (\<lambda>_.
      for_each [0..<MAX_LOOP] (\<lambda>i.
        let m = pack (data_rep (uninit P) 0) (ps_data i) in PublisherUDP_publish P m))) s =
    (Val (), snd (Socket_close P t))"
    by (rule scoped_Val, rule assms(2), rule body)
  then have "ps_pub P HOST s = (Val (), snd (Socket_close P t))"
    unfolding ps_pub_def port using assms(1) by (simp add: bnd_case lift_outcome_apply)
  moreover have "map fst (trace (snd (Socket_close P t))) = map fst (trace t) @ [Sys_close (socket_fd (self s1))]"
    using fd t(2) by (simp add: calls_close)
  ultimately show ?thesis
    by (intro exI [of _ "snd (Socket_close P t)"] conjI) (simp_all only: Socket_close_fd t(3) append_assoc)
qed

text \<open>
  C19: the demonstration of publish and subscribe. A publisher that could build its socket sends ten
  datagrams of 16 bytes to the address of its host text and closes: the \<open>double\<close> 1.2, the \<open>int\<close>s 0 to 9,
  and each time the four bytes of padding that were in memory, which leave the program. The callback of the
  subscriber prints such a message whatever its padding.
\<close>
theorem ps_demo:
  assumes "inet_sockaddr P (''udp://'' @ HOST @ '':3000'') = Val addr"
    and "Publisher_ctor (SocketUDP_ctor P) s = (Val (), s1)" and "length pad = 4" and "i < 10"
  shows "(\<exists>t. ps_pub P HOST s = (Val (), t) \<and> socket_fd (self t) = - 1 \<and>
      map fst (trace t) = map fst (trace s1) @
        map (\<lambda>i. Sys_sendto (socket_fd (self s1))
          (le64 0x3FF3333333333333 @ le32 (of_nat i) @ map (uninit P) [0..<4]) 0 (inet_bytes addr)) [0..<10] @
        [Sys_close (socket_fd (self s1))]) \<and>
    ps_cb (le64 0x3FF3333333333333 @ le32 (of_nat i) @ pad) w =
      (Val (), w, [''data_t 1.2 '' @ nat_digits i @ '' size 16''])"
proof
  have ten: "[0..<10] = [0..<MAX_LOOP]" by (simp only: MAX_LOOP_def)
  show "\<exists>t. ps_pub P HOST s = (Val (), t) \<and> socket_fd (self t) = - 1 \<and>
      map fst (trace t) = map fst (trace s1) @
        map (\<lambda>i. Sys_sendto (socket_fd (self s1))
          (le64 0x3FF3333333333333 @ le32 (of_nat i) @ map (uninit P) [0..<4]) 0 (inet_bytes addr)) [0..<10] @
        [Sys_close (socket_fd (self s1))]"
    unfolding ten ps_message_bytes [symmetric] by (rule ps_pub_sends [OF assms(1,2)])
  show "ps_cb (le64 0x3FF3333333333333 @ le32 (of_nat i) @ pad) w =
      (Val (), w, [''data_t 1.2 '' @ nat_digits i @ '' size 16''])"
    using assms(4) by (intro ps_cb_prints [OF assms(3)]) simp
qed

theorem ps_demo_witness:
  "\<exists>t. ps_pub sample ''127.0.0.1'' (machine \<lparr>socket_fd = 0, clientaddrs = []\<rparr> net_start) = (Val (), t) \<and>
    socket_fd (self t) = - 1"
proof -
  let ?s = "machine \<lparr>socket_fd = 0, clientaddrs = []\<rparr> net_start :: (inetaddr_t Publisher, net) mach"
  have ip: "ip_text ''127.0.0.1''" by (simp add: ip_text_def in_class_def ip_class_def is_digit_def)
  have "int 3000 \<le> INT_MAX" by (simp add: INT_MAX_def)
  moreover have "nat_digits 3000 = ''3000''" by (simp add: nat_digits.simps digit_char_eqs)
  ultimately obtain a where a: "inet_sockaddr sample (''udp://'' @ ''127.0.0.1'' @ '':3000'') = Val a"
    using literal_address [OF sample_intact(1) ip, of 3000] by simp
  have "fst (Publisher_ctor (SocketUDP_ctor sample) ?s) = Val ()"
    by (simp add: Publisher_ctor_def SocketUDP_ctor_def Socket_ctor_def makeSocket_def bnd_case on_throw_def
        set_fd_apply sys_Val ret_apply modify_apply net_start_def)
  then obtain t where t: "Publisher_ctor (SocketUDP_ctor sample) ?s = (Val (), t)"
    by (metis prod.collapse)
  from ps_demo [where w = net_start, OF a t, of "[0, 0, 0, 0]" 0] show ?thesis by auto
qed

section \<open>msg.cpp\<close>

text \<open>
  The program \<open>msg.cpp\<close> finds the struct it packed unchanged, \<open>double\<close> included, and prints what it
  says; but the listing of the other message ends with four bytes of padding that were never written.
\<close>
lemma msg_demo:
  "msg_main P s = (Val 0, s\<lparr>cout := cout s @
    [concat (map (\<lambda>b. to_string (uint b) @ '','')
       ([154, 153, 153, 153, 153, 153, 1, 64, 6, 0, 0, 0] @ map (uninit P) [4..<8])),
     ''good: 1.1 3'', ''size of contructed: 1024'']\<rparr>)"
proof -
  let ?d = "\<lparr>data_a = 0x3FF199999999999A, data_b = 3\<rparr>"
  have u: "unpack sizeof_data data_val (pack (data_rep (uninit P) 0) ?d) = Val (Determinate ?d)"
    by (rule data.unpack_pack)
  have e: "fp_eq 0x3FF199999999999A 0x3FF199999999999A" by (simp add: fp_eq_def decode_values)
  have p: "pack (data_rep (uninit P) 4) \<lparr>data_a = 0x400199999999999A, data_b = 6\<rparr> =
      [154, 153, 153, 153, 153, 153, 1, 64, 6, 0, 0, 0] @ map (uninit P) [4..<8]"
    by (simp add: data_rep_def le64_def le32_def)
  have n: "to_string (int (length (replicate 1024 (0 :: byte)))) = ''1024''"
    "to_string 3 = ''3''"
    by (simp_all add: to_string_nonneg small_digits)
  show ?thesis
    unfolding msg_main_def Let_def p n(1)
    by (simp add: u e n(2) show_values bnd_case print_apply lift_outcome_apply ret_apply
        del: pack_eq_rep map_append map_map)
qed

section \<open>simple.cpp\<close>

text \<open>
  C39: the two programs on the C sockets never throw. When one of them returns, it has closed the
  descriptor it opened; when it leaves through \<open>exit\<close>, with status 1, the descriptor is still open, if
  there is one.
\<close>
theorem simple_closes_unless_exit:
  assumes "m = simple_pub P \<or> m = simple_sub P"
    and "fd = r_ret (fst (kernel P (Sys_socket 2 2 0) (world s)))"
  shows "(\<forall>x. fst (m s) \<noteq> Exn x) \<and>
    (\<forall>e. fst (m s) = Val e \<longrightarrow>
      (e = None \<and> 0 \<le> fd \<and> live (trace (snd (m s))) = live (trace s)) \<or>
      (e = Some 1 \<and> live (trace (snd (m s))) =
        (if 0 \<le> fd then add_mset fd (live (trace s)) else live (trace s))))"
proof -
  have fd: "fd = dgram_fd P (world s)" using assms(2) by (simp add: dgram_fd_def AF_INET_def SOCK_DGRAM_def)
  show ?thesis
  proof (cases "0 \<le> fd")
    case True
    have "released fd (live (trace s)) m s"
      using assms(1) True simple_pub_released [of P s] simple_sub_released [of P s] unfolding fd by blast
    with True show ?thesis by (simp add: released_def EXIT_FAILURE_def)
  next
    case False
    then have "fst (m s) = Val (Some EXIT_FAILURE)" "live (trace (snd (m s))) = live (trace s)"
      using assms(1) simple_no_socket [of P s] unfolding fd by (auto simp: not_le)
    with False show ?thesis by (simp add: EXIT_FAILURE_def)
  qed
qed

theorem simple_closes_unless_exit_witness:
  "fst (simple_pub refusing (machine () net_start)) = Val (Some 1)"
proof -
  have "fst (simple_pub refusing (machine () net_start)) \<noteq> Undef u" for u
    by (simp add: simple_pub_def bnd_case sys_Val fail_exit_def perror_def gets_apply print_apply ret_apply Let_def)
  with simple_closes_unless_exit [of "simple_pub refusing" refusing "- 1" "machine () net_start"]
  show ?thesis by (cases "fst (simple_pub refusing (machine () net_start))") auto
qed

text \<open>
  One turn of the subscriber of \<open>simple.cpp\<close>. An error of the kernel ends the program with its
  text; a text of less than 32 characters is printed with its source; a datagram that fills the buffer of
  32 bytes without a NUL is printed beyond the end of the buffer.
\<close>
lemma simple_sub_turn:
  assumes "r = fst (kernel P (Sys_recvfrom fd 32 0 True) (world s))"
    and "s' = snd (sys P (Sys_recvfrom fd 32 0 True) s)"
  shows "(r_ret r < 0 \<longrightarrow> sub_loop P fd (Suc n) s = (Val (Some 1),
      s'\<lparr>cout := cout s @ [''Error in receiving data: '' @ strerror P (errno s')]\<rparr>)) \<and>
    (0 \<le> r_ret r \<and> r_data r = map byte_of_char line \<and> length line < 32 \<and> CHR 0x00 \<notin> set line \<longrightarrow>
      sub_loop P fd (Suc n) s = sub_loop P fd n (s'\<lparr>cout := cout s @ [''Received '' @ line @ '' from '' @
        get_ip_port P (inet_view (overwrite (replicate 16 0) (r_addr r)))]\<rparr>)) \<and>
    (0 \<le> r_ret r \<and> length (r_data r) = 32 \<and> 0 \<notin> set (r_data r) \<longrightarrow>
      sub_loop P fd (Suc n) s = (Undef Unterminated_string, s'))"
proof -
  have "cout s' = cout s" by (simp add: assms(2) sys_Val)
  moreover have sizes: "32 = MAX_BUFFER_SIZE" "16 = sizeof_inet"
    by (simp_all add: MAX_BUFFER_SIZE_def sizeof_inet_def)
  ultimately show ?thesis
    using sub_loop_Suc [OF assms [unfolded sizes], of n] buffer_text [of line] buffer_full [of "r_data r"]
    unfolding sizes
    by (simp add: fail_exit_def perror_def bnd_case gets_apply print_apply ret_apply EXIT_FAILURE_def)
qed

lemma simple_sub_turn_witness:
  "fst (sub_loop sample 3 1 (machine () (net_start\<lparr>inbox := [(replicate 32 65, [])]\<rparr>))) =
    Undef Unterminated_string"
proof -
  let ?s = "machine () (net_start\<lparr>inbox := [(replicate 32 65, [])]\<rparr>)"
  let ?r = "fst (kernel sample (Sys_recvfrom 3 32 0 True) (world ?s))"
  have "r_ret ?r = 32" "r_data ?r = replicate 32 65" by (simp_all add: take_datagram_def)
  with simple_sub_turn [of ?r sample 3 ?s, OF refl refl, of 0] show ?thesis by simp
qed

end
