(* ===== verification/Address_Reference.thy ===== *)
theory Address_Reference
  imports Sample_Platform
begin

text \<open>
  A reference for the address texts of \<open>sockaddr.hpp\<close>: a parser in two stages, without regular expressions,
  unions or system types, and the proof that \<open>inet_sockaddr\<close> computes what it describes on every text.
\<close>

section \<open>The reference\<close>

datatype address =
    No_address
  | Unix_path string
  | Host_port string string

text \<open>
  The leftmost scheme with a body; for \<open>udp\<close> and \<open>tcp\<close> the leftmost run of host characters in the body that a
  colon and port characters follow.
\<close>

definition parse_address :: "string \<Rightarrow> address" where
  "parse_address text = (case leftmost proto_at text of
      None \<Rightarrow> No_address
    | Some (sch, body) \<Rightarrow>
        if sch = ''unix'' then Unix_path body
        else case leftmost ipport_at body of None \<Rightarrow> No_address | Some (ip, port) \<Rightarrow> Host_port ip port)"

text \<open>The number in front of a port text, \<open>*\<close> for any port; a port text has digits, stars and commas only.\<close>

definition port_number :: "string \<Rightarrow> nat outcome" where
  "port_number port =
    (let ds = takeWhile is_digit port
     in if port = ''*'' then Val 0
        else if ds = [] then Exn (Invalid_argument ''stoi'')
        else if 2 ^ 31 \<le> digits_val ds then Exn (Out_of_range ''stoi'')
        else Val (digits_val ds))"

text \<open>The first bytes of a path, read as an internet address.\<close>

definition path_as_inet :: "string \<Rightarrow> inetaddr_t" where
  "path_as_inet path =
    (let bs = take 14 (map byte_of_char path @ replicate 14 0)
     in \<lparr>sin_family = AF_UNIX, sin_port = of_le16 (take 2 bs), s_addr = of_le32 (take 4 (drop 2 bs)),
         sin_zero = drop 6 bs\<rparr>)"

definition inet_reference :: "'x env_scheme \<Rightarrow> address \<Rightarrow> inetaddr_t outcome" where
  "inet_reference P addr = (case addr of
      No_address \<Rightarrow> Val \<lparr>sin_family = 100, sin_port = 0, s_addr = 0, sin_zero = replicate 8 0\<rparr>
    | Unix_path path \<Rightarrow> (if 108 < length path then Undef Buffer_overflow else Val (path_as_inet path))
    | Host_port ip port \<Rightarrow>
        bind_outcome (port_number port) (\<lambda>n. Val (inet_of (host_addr P ip) (of_nat (n mod 65536)))))"

section \<open>The code computes the reference\<close>

lemma leftmost_proto_parts:
  assumes "leftmost proto_at text = Some (sch, body)"
  shows "sch = ''udp'' \<or> sch = ''tcp'' \<or> sch = ''unix''" and "unix_text body"
  using leftmost_Some [OF assms] proto_at_Some by (auto simp: unix_text_def)

lemma leftmost_ipport_parts:
  assumes "leftmost ipport_at body = Some (ip, port)"
  shows "ip_text ip" and "port \<noteq> []" and "\<forall>c \<in> set port. in_class port_class c"
  using leftmost_Some [OF assms]
  by (auto simp: ipport_at_def ip_text_def Let_def split: if_splits dest: set_takeWhileD)

lemma stoi_port:
  assumes "port \<noteq> []" and "\<forall>c \<in> set port. in_class port_class c" and "port \<noteq> ''*''"
  shows "stoi port = bind_outcome (port_number port) (\<lambda>n. Val (int n))"
proof -
  let ?ds = "takeWhile is_digit port"
  have port: "port = ?ds @ dropWhile is_digit port" by simp
  show ?thesis
  proof (cases "?ds = []")
    case True
    then obtain c cs where c: "port = c # cs" "\<not> is_digit c" using assms(1) by (cases port) (auto split: if_splits)
    then have "c = CHR ''*'' \<or> c = CHR '',''" using assms(2) by (auto simp: in_class_def port_class_def)
    then have "stoi port = Exn (Invalid_argument ''stoi'')"
      using c by (intro stoi_no_digit) (auto simp: is_space_def is_digit_def)
    with True assms(3) show ?thesis by (simp add: port_number_def)
  next
    case False
    have "\<forall>c \<in> set ?ds. is_digit c" by (auto dest: set_takeWhileD)
    moreover have "dropWhile is_digit port = [] \<or> \<not> is_digit (hd (dropWhile is_digit port))"
      using hd_dropWhile by blast
    ultimately have "stoi port = (if int (digits_val ?ds) \<le> INT_MAX then Val (int (digits_val ?ds)) else Exn (Out_of_range ''stoi''))"
      using stoi_digits [OF False] port by metis
    with False assms(3) show ?thesis by (auto simp: port_number_def Let_def INT_MAX_def)
  qed
qed

lemma inet_view_error:
  "inet_view (set_family (ucast AF_ERROR) (SockAddr_zero P)) =
    \<lparr>sin_family = 100, sin_port = 0, s_addr = 0, sin_zero = replicate 8 0\<rparr>"
proof -
  have "inet_view (SockAddr_zero P) = \<lparr>sin_family = 0, sin_port = 0, s_addr = 0, sin_zero = replicate 8 0\<rparr>"
    by (simp add: inet_view_def SockAddr_zero_def sizeof_defs of_le16_def of_le32_def)
  moreover have "length (SockAddr_zero P) = 112" by (simp add: SockAddr_zero_def sizeof_defs)
  ultimately show ?thesis by (simp add: inet_view_sets AF_ERROR_def)
qed

lemma inet_view_path:
  "inet_view (put_at 2 (map byte_of_char path) (set_family AF_UNIX (set_family f (SockAddr_zero P)))) = path_as_inet path"
proof -
  let ?p = "map byte_of_char path" and ?u = "set_family AF_UNIX (set_family f (SockAddr_zero P))"
  let ?mem = "put_at 2 ?p ?u" and ?bs = "take 14 (map byte_of_char path @ replicate 14 0)"
  have fam: "take 2 ?mem = le16 AF_UNIX" by (simp add: put_at_def family_set_family)
  have "drop 2 ?mem = ?p @ drop (length ?p) (drop 2 ?u)" by (simp add: put_at_def add.commute)
  also have "drop 2 ?u = replicate 14 0 @ map (uninit P) [16..<112]"
    by (simp add: drop_set_family SockAddr_zero_def sizeof_defs)
  finally have "take 14 (drop 2 ?mem) = ?bs"
    by (cases "length path \<le> 14") (simp_all add: min_def)
  then have bs: "?bs = take 14 (drop 2 ?mem)" by simp
  have "take 2 (drop 2 ?mem) = take 2 ?bs" unfolding bs by (simp only: take_take) simp
  moreover have "take 4 (drop 4 ?mem) = take 4 (drop 2 ?bs)"
    unfolding bs by (simp only: drop_take drop_drop take_take) simp
  moreover have "take 8 (drop 8 ?mem) = drop 6 ?bs"
    unfolding bs by (simp only: drop_take drop_drop) simp
  ultimately show ?thesis using fam by (simp add: inet_view_def path_as_inet_def Let_def)
qed

lemma filter_inet_view:
  assumes "frame_intact P"
  shows "inet_sockaddr P text = bind_outcome (filter_addr P text) (\<lambda>u. Val (inet_view u))"
  by (simp add: inet_sockaddr_def read_filter_intact [OF assms])

lemma inet_sockaddr_reference:
  assumes "frame_intact P"
  shows "inet_sockaddr P text = inet_reference P (parse_address text)"
proof (cases "leftmost proto_at text")
  case None
  then show ?thesis
    by (simp add: filter_inet_view [OF assms] filter_no_match parse_address_def inet_reference_def inet_view_error)
next
  case (Some r)
  obtain sch body where r: "leftmost proto_at text = Some (sch, body)" using Some by (cases r) auto
  note parts = leftmost_proto_parts [OF r]
  show ?thesis
  proof (cases "sch = ''unix''")
    case True
    with r have "filter_addr P text = set_path body (length body)
        (set_family AF_UNIX (set_family (ucast AF_ERROR) (SockAddr_zero P)))" by (simp add: filter_unix)
    then show ?thesis
      using r True strncpy_path [OF unix_text_not_nul [OF parts(2)]]
      by (simp add: filter_inet_view [OF assms] set_path_def sizeof_defs parse_address_def inet_reference_def inet_view_path)
  next
    case False
    with parts have sch: "sch = ''udp'' \<or> sch = ''tcp''" by blast
    show ?thesis
    proof (cases "leftmost ipport_at body")
      case None
      from filter_inet_no_port [OF r sch None, of P] show ?thesis
        using r False None
        by (simp add: filter_inet_view [OF assms] parse_address_def inet_reference_def inet_view_error)
    next
      case (Some q)
      obtain ip port where q: "leftmost ipport_at body = Some (ip, port)" using Some by (cases q) auto
      note ipport = leftmost_ipport_parts [OF q]
      have c: "c_str ip = ip"
        using ipport(1) by (auto simp: ip_text_def dest: ip_class_not_nul intro: c_str_id)
      have num: "(if port = ''*'' then Val 0 else stoi port) = bind_outcome (port_number port) (\<lambda>n. Val (int n))"
        using stoi_port [OF ipport(2,3)] by (auto simp: port_number_def)
      have mod: "(of_nat (n mod 65536) :: 16 word) = of_nat n" for n
        by (rule word_unat_eq_iff [THEN iffD2]) (simp add: unat_of_nat)
      have host: "(if ip = ''*'' then INADDR_ANY else if ip = ''bc'' then INADDR_BROADCAST
          else inet_addr P (c_str ip)) = host_addr P ip" by (simp add: host_addr_def c)
      show ?thesis
        using r False q filter_inet [OF r sch q, of P]
        by (cases "port_number port")
          (simp_all add: filter_inet_view [OF assms] parse_address_def inet_reference_def num host
            inet_view_filter mod)
    qed
  qed
qed

section \<open>The property\<close>

text \<open>
  C9: on every text, \<open>inet_sockaddr\<close>, that is the two regular expressions, \<open>stoi\<close>, the casts and the stores through
  the union, gives what the two-stage parser of the reference describes: the error family for a text without an
  address, the bytes of a path or the overflow of \<open>sun_path\<close>, the host and the port modulo 65536, or what \<open>stoi\<close>
  throws for a port that starts with a star or comma or exceeds \<open>INT_MAX\<close>.
\<close>
theorem address_parser_reference:
  assumes "frame_intact P"
  shows "inet_sockaddr P text = inet_reference P (parse_address text)"
  by (rule inet_sockaddr_reference [OF assms])

lemma parse_sample: "parse_address ''at tcp://9.9.9.9:70000,1!'' = Host_port ''9.9.9.9'' ''70000,1''"
  by code_simp

lemma sample_port: "port_number ''70000,1'' = Val 70000"
  by (simp add: port_number_def is_digit_def digits_val_def digit_val_def)

theorem address_parser_reference_witness:
  "inet_sockaddr sample ''at tcp://9.9.9.9:70000,1!'' = Val (inet_of 0x09090909 4464)"
  using address_parser_reference [of sample "''at tcp://9.9.9.9:70000,1!''"]
  by (simp add: parse_sample sample_port inet_reference_def host_addr_def sample_inet_addr_def)

end
