(* ===== verification/Address_Properties.thy ===== *)
theory Address_Properties
  imports Address_Reference
begin

text \<open>
  The properties of \<open>sockaddr.hpp\<close>: what an address string becomes, and what of it comes back when
  the address is printed.
\<close>

section \<open>Internet addresses\<close>

text \<open>
  C6: an address \<open>udp://host:port\<close> or \<open>tcp://host:port\<close> with a port of 16 bits gives the IPv4 structure
  with the host's address, the port in network order and a zeroed tail, and printing it gives
  \<open>host:port\<close> back, for a host text that \<open>inet_ntop\<close> gives back.
\<close>
theorem inet_address_round_trip:
  assumes "frame_intact P" and "sch = ''udp'' \<or> sch = ''tcp''" and "ip_text ip"
    and "ip \<noteq> ''*''" and "ip \<noteq> ''bc''"
    and "inet_ntop P (inet_addr P ip) = ip" and "length ip < 32" and "n < 65536"
  shows "\<exists>a. inet_sockaddr P (sch @ ''://'' @ ip @ '':'' @ nat_digits n) = Val a \<and>
    a = \<lparr>sin_family = AF_INET, sin_port = htons (of_nat n), s_addr = inet_addr P ip,
         sin_zero = replicate 8 0\<rparr> \<and>
    inet2string P a = ip @ '':'' @ nat_digits n"
proof -
  have n: "int n \<le> INT_MAX" using assms(8) by (simp add: INT_MAX_def)
  have u: "unat (of_nat n :: 16 word) = n" using assms(8) by (simp add: unat_of_nat)
  have "CHR 0x00 \<notin> set ip" using assms(3) by (auto simp: ip_text_def dest: ip_class_not_nul)
  then have c: "c_str ip = ip" by (rule c_str_id)
  have "inet2string P (inet_of (inet_addr P ip) (of_nat n)) = ip @ '':'' @ nat_digits n"
    using assms(6,7) u by (simp add: inet2string_def inet_of_def ntop_buf_def c to_string_def Let_def)
  then show ?thesis
    using inet_sockaddr_host_port [OF assms(1-3) n] assms(4,5)
    by (simp add: host_addr_def inet_of_def)
qed

lemma loopback_text: "ip_text ''127.0.0.1''"
  by (simp add: ip_text_def in_class_def ip_class_def is_digit_def)

lemma digits_9000: "nat_digits 9000 = ''9000''"
  by (simp add: nat_digits.simps digit_char_eqs)

theorem inet_address_round_trip_witness:
  "\<exists>a. inet_sockaddr sample ''udp://127.0.0.1:9000'' = Val a \<and> s_addr a = 0x0100007F \<and>
    inet2string sample a = ''127.0.0.1:9000''"
  using inet_address_round_trip [of sample "''udp''" "''127.0.0.1''" 9000] loopback_text
  by (auto simp: digits_9000 sample_inet_addr_def sample_inet_ntop_def)

text \<open>
  C30: the port is not checked against 1-65535: any number up to \<open>INT_MAX\<close> is taken modulo 65536, and
  only a larger one is refused, by \<open>stoi\<close>.
\<close>
theorem port_taken_modulo:
  assumes "frame_intact P" and "sch = ''udp'' \<or> sch = ''tcp''" and "ip_text ip"
  shows "inet_sockaddr P (sch @ ''://'' @ ip @ '':'' @ nat_digits n) =
    (if n < 2147483648 then Val (inet_of (host_addr P ip) (of_nat (n mod 65536)))
     else Exn (Out_of_range ''stoi''))"
proof (cases "n < 2147483648")
  case True
  then have "int n \<le> INT_MAX" by (simp add: INT_MAX_def)
  moreover have "(of_nat (n mod 65536) :: 16 word) = of_nat n"
    by (rule word_unat_eq_iff [THEN iffD2]) (simp add: unat_of_nat)
  ultimately show ?thesis using True inet_sockaddr_host_port [OF assms, of n] by simp
next
  case False
  then have "\<not> int n \<le> INT_MAX" by (simp add: INT_MAX_def)
  then have "filter_addr P (sch @ ''://'' @ ip @ '':'' @ nat_digits n) = Exn (Out_of_range ''stoi'')"
    using filter_host_number [OF assms(2,3), of P n] by simp
  with False show ?thesis by (simp add: inet_sockaddr_def read_filter_intact [OF assms(1)])
qed

theorem port_taken_modulo_witness:
  "inet_sockaddr sample ''udp://127.0.0.1:74536'' = Val (inet_of 0x0100007F 9000)"
proof -
  have d: "nat_digits 74536 = ''74536''" by (simp add: nat_digits.simps digit_char_eqs)
  show ?thesis
    using port_taken_modulo [of sample "''udp''" "''127.0.0.1''" 74536] loopback_text
    by (simp add: d host_addr_def sample_inet_addr_def)
qed

lemma family_bytes: "le16 AF_INET = [2, 0]"
  by (simp add: le16_def AF_INET_def)

lemma wildcard_words: "le32 INADDR_ANY = [0, 0, 0, 0]" "le32 INADDR_BROADCAST = [255, 255, 255, 255]"
  by (simp_all add: le32_def INADDR_ANY_def INADDR_BROADCAST_def)

lemma zeros: "[2, 0] @ rev (le16 0) @ [0, 0, 0, 0] @ replicate 8 0 = [2 :: byte, 0] @ replicate 14 0"
  by (simp add: le16_def eval_nat_numeral)

text \<open>
  The wildcards: \<open>*\<close> as a host is \<open>INADDR_ANY\<close>, \<open>bc\<close> is the broadcast address, \<open>*\<close> as a port is
  port 0, which leaves the choice to the kernel. The bytes that reach the kernel are these.
\<close>
lemma wildcard_bytes:
  assumes "frame_intact P" and "port < 65536"
  shows "bind_outcome (inet_sockaddr P (''udp://*:'' @ nat_digits port)) (\<lambda>a. Val (inet_bytes a)) =
      Val ([2, 0] @ rev (le16 (of_nat port)) @ [0, 0, 0, 0] @ replicate 8 0) \<and>
    bind_outcome (inet_sockaddr P (''udp://bc:'' @ nat_digits port)) (\<lambda>a. Val (inet_bytes a)) =
      Val ([2, 0] @ rev (le16 (of_nat port)) @ [255, 255, 255, 255] @ replicate 8 0) \<and>
    bind_outcome (inet_sockaddr P ''udp://*:*'') (\<lambda>a. Val (inet_bytes a)) =
      Val ([2, 0] @ replicate 14 0)"
proof -
  have any: "ip_text ''*''" and bc: "ip_text ''bc''"
    by (simp_all add: ip_text_def in_class_def ip_class_def)
  have n: "int port \<le> INT_MAX" using assms(2) by (simp add: INT_MAX_def)
  have bytes: "inet_bytes (inet_of ip p) = [2, 0] @ rev (le16 p) @ le32 ip @ replicate 8 0" for ip p
    by (simp only: inet_bytes_def inet_of_def inetaddr_t.simps le16_htons family_bytes)
  show ?thesis
  proof (intro conjI)
    have "inet_sockaddr P (''udp'' @ ''://'' @ ''*'' @ '':'' @ nat_digits port) =
        Val (inet_of INADDR_ANY (of_nat port))"
      using inet_sockaddr_host_port [OF assms(1) _ any n, of "''udp''"]
      by (simp only: host_addr_def simp_thms if_True)
    then show "bind_outcome (inet_sockaddr P (''udp://*:'' @ nat_digits port)) (\<lambda>a. Val (inet_bytes a)) =
        Val ([2, 0] @ rev (le16 (of_nat port)) @ [0, 0, 0, 0] @ replicate 8 0)"
      by (simp only: append_Cons append_Nil bind_outcome.simps bytes wildcard_words)
    have "inet_sockaddr P (''udp'' @ ''://'' @ ''bc'' @ '':'' @ nat_digits port) =
        Val (inet_of INADDR_BROADCAST (of_nat port))"
      using inet_sockaddr_host_port [OF assms(1) _ bc n, of "''udp''"] by (simp add: host_addr_def)
    then show "bind_outcome (inet_sockaddr P (''udp://bc:'' @ nat_digits port)) (\<lambda>a. Val (inet_bytes a)) =
        Val ([2, 0] @ rev (le16 (of_nat port)) @ [255, 255, 255, 255] @ replicate 8 0)"
      by (simp only: append_Cons append_Nil bind_outcome.simps bytes wildcard_words)
    have "inet_sockaddr P (''udp'' @ ''://'' @ ''*'' @ '':*'') = Val (inet_of INADDR_ANY 0)"
      using inet_sockaddr_any_port [OF assms(1) _ any, of "''udp''"]
      by (simp only: host_addr_def simp_thms if_True)
    then show "bind_outcome (inet_sockaddr P ''udp://*:*'') (\<lambda>a. Val (inet_bytes a)) =
        Val ([2, 0] @ replicate 14 0)"
      by (simp only: append_Cons append_Nil bind_outcome.simps bytes wildcard_words zeros [unfolded append_Cons append_Nil])
  qed
qed

lemma wildcard_bytes_witness:
  "bind_outcome (inet_sockaddr sample (''udp://bc:'' @ nat_digits 9000)) (\<lambda>a. Val (inet_bytes a)) =
    Val ([2, 0, 0x23, 0x28, 255, 255, 255, 255] @ replicate 8 0)"
  using wildcard_bytes [of sample 9000] by (simp add: le16_def)

text \<open>
  An address that has no match - a wrong scheme, or a host without a port - is no exception: it
  becomes a structure of family \<open>AF_ERROR\<close>, whose printed form as a union is \<open>ERROR\<close> and as an IPv4
  address is empty.
\<close>
lemma no_match_is_error_family:
  assumes "frame_intact P"
    and "leftmost proto_at address = None \<or>
      (\<exists>sch ss. leftmost proto_at address = Some (sch, ss) \<and> sch \<noteq> ''unix'' \<and> leftmost ipport_at ss = None)"
  shows "\<exists>u. read_filter P address = Val u \<and> show_SockAddr P u = Val ''ERROR'' \<and>
    (\<exists>a. inet_sockaddr P address = Val a \<and> sin_family a = 100 \<and> inet2string P a = [])"
proof -
  let ?u = "set_family (ucast AF_ERROR) (SockAddr_zero P)"
  have f: "filter_addr P address = Val ?u"
  proof (cases "leftmost proto_at address")
    case None
    then show ?thesis by (rule filter_no_match)
  next
    case (Some p)
    then obtain sch ss where p: "p = (sch, ss)" "sch \<noteq> ''unix''" "leftmost ipport_at ss = None"
      using assms(2) by auto
    then have "sch = ''udp'' \<or> sch = ''tcp''"
      using leftmost_proto_scheme Some by blast
    then show ?thesis using filter_inet_no_port Some p by blast
  qed
  have fam: "sin_family (inet_view ?u) = 100" by (simp add: inet_view_sets AF_ERROR_def)
  then have "show_SockAddr P ?u = Val ''ERROR''" by (simp add: show_SockAddr_def af_defs Let_def)
  moreover have "inet2string P (inet_view ?u) = []" using fam by (simp add: inet2string_def AF_INET_def)
  ultimately show ?thesis using fam
    by (simp add: inet_sockaddr_def read_filter_intact [OF assms(1)] f)
qed

lemma no_match_is_error_family_witness:
  "\<exists>u. read_filter sample ''udp://127.0.0.1'' = Val u \<and> show_SockAddr sample u = Val ''ERROR''"
proof -
  have "leftmost proto_at ''udp://127.0.0.1'' = Some (''udp'', ''127.0.0.1'')"
    "leftmost ipport_at ''127.0.0.1'' = None" by code_simp+
  then show ?thesis using no_match_is_error_family [of sample "''udp://127.0.0.1''"] by auto
qed

text \<open>
  \<open>filter\<close> returns a reference to its local. If the compiler makes use of that, no address at all,
  well-formed or not, has a value.
\<close>
lemma dangling_reference_no_value:
  assumes "\<And>u. stale P u = None"
  shows "inet_sockaddr P address \<noteq> Val a \<and> unix_sockaddr P address \<noteq> Val b"
  using assms by (cases "filter_addr P address")
    (simp_all add: inet_sockaddr_def unix_sockaddr_def read_filter_def)

section \<open>Unix addresses\<close>

text \<open>
  C28: a path of at most 13 characters comes back when its address is printed. A longer one, up to 107, does so exactly when the byte that follows it on the stack, which
  nothing initialises, happens to be zero.
\<close>
theorem unix_path_round_trip:
  assumes "frame_intact P" and "unix_text path" and "length path < 108"
  shows "\<exists>a. unix_sockaddr P (''unix://'' @ path) = Val a \<and> sun_family a = AF_UNIX \<and>
    take (length path) (sun_path a) = map byte_of_char path \<and>
    (unix2string a = Val path \<longleftrightarrow> length path < 14 \<or> uninit P (length path + 2) = 0)"
proof -
  let ?a = "\<lparr>sun_family = AF_UNIX, sun_path = map byte_of_char path @ path_tail P (length path)\<rparr>"
  have a: "unix_sockaddr P (''unix://'' @ path) = Val ?a"
    using unix_sockaddr_path [OF assms(1,2)] assms(3) by simp
  have "unix2string ?a \<noteq> Val path" if "\<not> (length path < 14 \<or> uninit P (length path + 2) = 0)"
    using that by (intro unix2string_unterminated [OF assms(2,3)]) auto
  moreover have "unix2string ?a = Val path" if "length path < 14 \<or> uninit P (length path + 2) = 0"
    using unix2string_path [OF assms(2)] that assms(3) by auto
  ultimately show ?thesis using a by auto
qed

theorem unix_path_round_trip_witness:
  "\<exists>a. unix_sockaddr sample ''unix:///tmp/marko'' = Val a \<and> unix2string a = Val ''/tmp/marko''"
proof -
  have "unix_text ''/tmp/marko''" by (simp add: unix_text_def in_class_def proto_class_def)
  then show ?thesis using unix_path_round_trip [of sample "''/tmp/marko''"] by auto
qed

text \<open>
  C29: the limits of \<open>sun_path\<close>: a path of exactly 108 characters fills the array without a terminator,
  so printing it reads past the end; a longer one is written past the end.
\<close>
theorem unix_path_limits:
  assumes "frame_intact P" and "unix_text path" and "108 \<le> length path"
  shows "(length path = 108 \<longrightarrow> (\<exists>a. unix_sockaddr P (''unix://'' @ path) = Val a \<and>
      unix2string a = Undef Unterminated_string)) \<and>
    (108 < length path \<longrightarrow> unix_sockaddr P (''unix://'' @ path) = Undef Buffer_overflow)"
proof (intro conjI impI)
  assume len: "length path = 108"
  have "path_tail P 108 = []" by (simp add: path_tail_def)
  with len have "unix_sockaddr P (''unix://'' @ path) =
      Val \<lparr>sun_family = AF_UNIX, sun_path = map byte_of_char path\<rparr>"
    using unix_sockaddr_path [OF assms(1,2)] by simp
  moreover have "unix2string \<lparr>sun_family = AF_UNIX, sun_path = map byte_of_char path\<rparr> =
      Undef Unterminated_string"
    using read_c_string_no_nul [OF unix_text_not_nul [OF assms(2)]] by (simp add: unix2string_def)
  ultimately show "\<exists>a. unix_sockaddr P (''unix://'' @ path) = Val a \<and>
      unix2string a = Undef Unterminated_string" by blast
next
  assume "108 < length path"
  then show "unix_sockaddr P (''unix://'' @ path) = Undef Buffer_overflow"
    using filter_unix_path [OF assms(2), of P]
    by (simp add: unix_sockaddr_def read_filter_intact [OF assms(1)])
qed

theorem unix_path_limits_witness:
  "unix_sockaddr sample (''unix://'' @ replicate 109 (CHR ''a'')) = Undef Buffer_overflow"
proof -
  have "unix_text (replicate 109 (CHR ''a''))"
    by (simp add: unix_text_def in_class_def proto_class_def)
  then show ?thesis using unix_path_limits [of sample "replicate 109 (CHR ''a'')"]
    by simp
qed

end
