(* ===== verification/Signals.thy ===== *)
theory Signals
  imports Platform
begin

text \<open>
  Component \<open>signals.hpp\<close>: the class \<open>SignalFunc\<close>, which installs one signal handler, once.
\<close>

record SignalFunc =
  enabled :: bool

definition SIGINT :: int where "SIGINT = 2"

definition SIGKILL :: int where "SIGKILL = 9"

definition SIGSTOP :: int where "SIGSTOP = 19"

definition SignalFunc_ctor :: SignalFunc where
  "SignalFunc_ctor = \<lparr>enabled = False\<rparr>"

text \<open>\<open>f\<close> is the address of the handler. The result of \<open>sigaction\<close> is not looked at.\<close>

definition SignalFunc_enable ::
  "('w, 'p) platform_scheme \<Rightarrow> int \<Rightarrow> int \<Rightarrow> (('y SignalFunc_scheme, 'w) mach, int) act" where
  "SignalFunc_enable P f signum =
    bnd (gets (\<lambda>s. enabled (self s))) (\<lambda>en.
    if en then ret 0
    else if signum = SIGKILL \<or> signum = SIGSTOP then
      throw (Invalid_argument ''** Cannot capture signals SIGKILL or SIGSTOP **'')
    else
      bnd (sys P (Sys_sigaction signum f)) (\<lambda>r.
      bnd (modify (\<lambda>s. s\<lparr>self := (self s)\<lparr>enabled := True\<rparr>\<rparr>)) (\<lambda>_.
      ret 0)))"

lemma enable_again: "enabled (self s) \<Longrightarrow> SignalFunc_enable P f signum s = (Val 0, s)"
  by (simp add: SignalFunc_enable_def bnd_case gets_apply ret_def)

lemma enable_refused:
  "\<not> enabled (self s) \<Longrightarrow> signum = SIGKILL \<or> signum = SIGSTOP \<Longrightarrow>
    SignalFunc_enable P f signum s =
      (Exn (Invalid_argument ''** Cannot capture signals SIGKILL or SIGSTOP **''), s)"
  by (auto simp: SignalFunc_enable_def bnd_case gets_apply throw_def)

lemma enable_first:
  assumes "\<not> enabled (self s)" and "signum \<noteq> SIGKILL" and "signum \<noteq> SIGSTOP"
  shows "\<exists>t. SignalFunc_enable P f signum s = (Val 0, t) \<and> enabled (self t) \<and>
    trace t = trace s @ [(Sys_sigaction signum f,
      r_ret (fst (kernel P (Sys_sigaction signum f) (world s))))]"
  using assms
  by (simp add: SignalFunc_enable_def bnd_case gets_apply sys_Val modify_apply ret_def)

text \<open>A series of calls, with the exceptions caught by the caller.\<close>

fun enable_all ::
  "('w, 'p) platform_scheme \<Rightarrow> (int \<times> int) list \<Rightarrow> ('y SignalFunc_scheme, 'w) mach \<Rightarrow>
    ('y SignalFunc_scheme, 'w) mach" where
  "enable_all P [] s = s"
| "enable_all P ((f, signum) # cs) s = enable_all P cs (snd (SignalFunc_enable P f signum s))"

lemma enable_all_enabled: "enabled (self s) \<Longrightarrow> enable_all P cs s = s"
  by (induction P cs s rule: enable_all.induct) (simp_all add: enable_again)

text \<open>
  Over a series of calls exactly one handler is installed: that of the first call for a signal
  that can be caught.
\<close>

lemma enable_all_first:
  assumes "\<not> enabled (self s)"
  shows "\<exists>rets. map fst (trace (enable_all P cs s)) = map fst (trace s) @ rets \<and>
    rets = (case filter (\<lambda>(f, signum). signum \<noteq> SIGKILL \<and> signum \<noteq> SIGSTOP) cs of
        [] \<Rightarrow> [] | (f, signum) # _ \<Rightarrow> [Sys_sigaction signum f])"
  using assms
proof (induction P cs s rule: enable_all.induct)
  case (1 P s)
  then show ?case by simp
next
  case (2 P f signum cs s)
  show ?case
  proof (cases "signum = SIGKILL \<or> signum = SIGSTOP")
    case True
    then show ?thesis using 2 by (auto simp: enable_refused)
  next
    case False
    then obtain t where "SignalFunc_enable P f signum s = (Val 0, t)" "enabled (self t)"
      "trace t = trace s @ [(Sys_sigaction signum f,
        r_ret (fst (kernel P (Sys_sigaction signum f) (world s))))]"
      using enable_first [OF "2.prems"] by blast
    with False show ?thesis by (simp add: enable_all_enabled)
  qed
qed

end
