(* ===== verification/Socket_Properties.thy ===== *)
theory Socket_Properties
  imports Sample_Platform Signals
begin

text \<open>
  The properties of \<open>socket.hpp\<close>, \<open>socket_udp.hpp\<close>, \<open>socket_uds.hpp\<close>, of the host queries of
  \<open>sockaddr.hpp\<close>, of \<open>info.hpp\<close> and of \<open>signals.hpp\<close>.
\<close>

section \<open>Failures\<close>

text \<open>
  A negative result makes \<open>guard\<close> close the descriptor, print the message and throw it; the object
  ends closed whether it was open or not. As the closing comes first, the text is that of the failed
  call only if closing does not fail as well. Any other result does nothing.
\<close>
lemma guard_effect:
  "(0 \<le> err \<longrightarrow> guard P err msg s = (Val (), s)) \<and>
   (err < 0 \<longrightarrow> (\<exists>text t. guard P err msg s = (Exn (Runtime_error text), t) \<and>
      self t = (self s)\<lparr>socket_fd := - 1\<rparr> \<and> cout t = cout s @ [text] \<and>
      (let fd = socket_fd (self s); r = fst (kernel P (Sys_close fd) (world s))
       in trace t = trace s @ (if fd = - 1 then [] else [(Sys_close fd, r_ret r)]) \<and>
          text = msg @ strerror P (if fd \<noteq> - 1 \<and> r_ret r < 0 then r_errno r else errno s))))"
proof (cases "socket_fd (self s) = - 1")
  case True
  then have "(self s)\<lparr>socket_fd := - 1\<rparr> = self s" by (cases "self s") simp
  with True show ?thesis
    by (simp add: guard_fail ret_def failure_def Socket_close_closed Let_def)
next
  case False
  then show ?thesis
    by (simp add: guard_fail ret_def failure_def Socket_close_open sys_Val Let_def)
qed

lemma guard_effect_witness:
  "\<exists>text t. guard sample (- 1) ''bind(): '' (machine \<lparr>socket_fd = 5\<rparr> net_start) =
      (Exn (Runtime_error text), t) \<and>
    self t = \<lparr>socket_fd = - 1\<rparr> \<and> map fst (trace t) = [Sys_close 5] \<and> text = ''bind(): error 0''"
proof -
  have "to_string 0 = ''0''" by (simp add: to_string_def nat_digits.simps digit_char_eqs)
  then show ?thesis
    using guard_effect [of "- 1" sample "''bind(): ''" "machine \<lparr>socket_fd = 5\<rparr> net_start"]
    by (auto simp: Let_def)
qed

text \<open>
  Closing releases an open descriptor with exactly one \<open>close\<close> and leaves the object closed;
  closing again, or destroying the object, makes no further call.
\<close>
lemma close_releases_once:
  "fst (Socket_close P s) = Val () \<and>
   map fst (trace (snd (Socket_close P s))) = map fst (trace s) @
     (if socket_fd (self s) = - 1 then [] else [Sys_close (socket_fd (self s))]) \<and>
   self (snd (Socket_close P s)) = (self s)\<lparr>socket_fd := - 1\<rparr> \<and>
   Socket_dtor P (snd (Socket_close P s)) = (Val (), snd (Socket_close P s))"
proof -
  have "Socket_dtor P (snd (Socket_close P s)) = (Val (), snd (Socket_close P s))"
    unfolding Socket_dtor_def by (rule Socket_close_closed) (rule Socket_close_fd)
  then show ?thesis by (simp add: Socket_close_Val self_close calls_close)
qed

section \<open>bind and connect\<close>

lemma inet_search:
  assumes "sch = ''udp'' \<or> sch = ''tcp''" and "ip_text ip"
  shows "leftmost proto_at (sch @ ''://'' @ ip @ '':'' @ nat_digits n) = Some (sch, ip @ '':'' @ nat_digits n)"
  by (rule inet_matches [OF assms nat_digits_nonempty]) (auto dest: nat_digits_digits simp: digit_in_classes)

text \<open>
  C26: \<open>bind\<close> and \<open>connect\<close> with a UDP or TCP address make one system call, with the descriptor of the
  object and the bytes of exactly the address in the text. If the kernel accepts it the object is as it
  was; if not, the socket is closed and the failure is thrown.
\<close>
theorem bind_connect_inet:
  assumes "frame_intact P" and "sch = ''udp'' \<or> sch = ''tcp''" and "ip_text ip" and "n < 65536"
    and "type = CONNECT \<and> c = Sys_connect fd a \<or> type = BIND \<and> c = Sys_bind fd a"
    and "fd = socket_fd (self s)" and "a = inet_bytes (inet_of (host_addr P ip) (of_nat n))"
  shows "\<exists>r t. setSocket P (sch @ ''://'' @ ip @ '':'' @ nat_digits n) type s = (r, t) \<and>
    (if 0 \<le> r_ret (fst (kernel P c (world s)))
     then r = Val () \<and> self t = self s \<and> map fst (trace t) = map fst (trace s) @ [c]
     else (\<exists>text. r = Exn (Runtime_error text)) \<and> self t = (self s)\<lparr>socket_fd := - 1\<rparr> \<and>
       map fst (trace t) = map fst (trace s) @ c # (if fd = - 1 then [] else [Sys_close fd]))"
proof -
  have "int n \<le> INT_MAX" using assms(4) by (simp add: INT_MAX_def)
  note addr = inet_sockaddr_host_port [OF assms(1-3) this]
  have eq: "setSocket P (sch @ ''://'' @ ip @ '':'' @ nat_digits n) type s =
      guard P (r_ret (fst (kernel P c (world s)))) ''Socket::bind() failed: '' (snd (sys P c s))"
    using assms(5-7) by (intro setSocket_inet [OF inet_search [OF assms(2,3)] assms(2) addr]) auto
  show ?thesis
    unfolding eq assms(6) by (rule guarded_call)
qed

theorem bind_connect_inet_witness:
  "\<exists>r t. Socket_bind sample ''udp://127.0.0.1:9000'' (machine \<lparr>socket_fd = 3\<rparr> net_start) = (r, t) \<and>
    r = Val () \<and> map fst (trace t) = [Sys_bind 3 (inet_bytes (inet_of 0x0100007F 9000))]"
proof -
  have d: "nat_digits 9000 = ''9000''" by (simp add: nat_digits.simps digit_char_eqs)
  have ip: "ip_text ''127.0.0.1''"
    by (simp add: ip_text_def in_class_def ip_class_def is_digit_def)
  have host: "host_addr sample ''127.0.0.1'' = 0x0100007F"
    by (simp add: host_addr_def sample_inet_addr_def)
  let ?s = "machine \<lparr>socket_fd = 3\<rparr> net_start :: (Socket, net) mach"
  let ?a = "inet_bytes (inet_of 0x0100007F 9000)"
  have "\<exists>r t. setSocket sample (''udp'' @ ''://'' @ ''127.0.0.1'' @ '':'' @ nat_digits 9000) BIND ?s = (r, t) \<and>
    (if 0 \<le> r_ret (fst (kernel sample (Sys_bind 3 ?a) (world ?s)))
     then r = Val () \<and> self t = self ?s \<and> map fst (trace t) = map fst (trace ?s) @ [Sys_bind 3 ?a]
     else (\<exists>text. r = Exn (Runtime_error text)) \<and> self t = (self ?s)\<lparr>socket_fd := - 1\<rparr> \<and>
       map fst (trace t) = map fst (trace ?s) @ Sys_bind 3 ?a # (if (3 :: int) = - 1 then [] else [Sys_close 3]))"
    by (rule bind_connect_inet [OF sample_intact(1) _ ip]) (simp_all add: host)
  then show ?thesis by (auto simp: d Socket_bind_def)
qed

text \<open>
  C31: with a Unix address, \<open>connect\<close> as well as \<open>bind\<close> first unlinks the path, then makes its call with
  the bytes of that path. So a client that connects removes the name its server is bound to.
\<close>
theorem unix_unlinks_first:
  assumes "frame_intact P" and "unix_text path" and "length path \<le> 108"
    and "type = CONNECT \<and> c = Sys_connect fd a \<or> type = BIND \<and> c = Sys_bind fd a"
    and "fd = socket_fd (self s)"
    and "a = le16 AF_UNIX @ map byte_of_char path @ path_tail P (length path)"
    and "w = snd (kernel P (Sys_unlink path) (world s))"
  shows "\<exists>r t. setSocket P (''unix://'' @ path) type s = (r, t) \<and>
    (if 0 \<le> r_ret (fst (kernel P c w))
     then r = Val () \<and> self t = self s \<and> map fst (trace t) = map fst (trace s) @ [Sys_unlink path, c]
     else (\<exists>text. r = Exn (Runtime_error text)) \<and> self t = (self s)\<lparr>socket_fd := - 1\<rparr> \<and>
       map fst (trace t) = map fst (trace s) @
         [Sys_unlink path, c] @ (if fd = - 1 then [] else [Sys_close fd]))"
proof -
  let ?u = "snd (sys P (Sys_unlink path) s)"
  let ?msg = "if type = CONNECT then ''Socket UDS couldn't connect: '' else ''Socket UDS couldn't bind: ''"
  have "c_str path = path" by (rule c_str_id) (rule unix_text_not_nul [OF assms(2)])
  moreover have "leftmost proto_at (''unix://'' @ path) = Some (''unix'', path)"
    using leftmost_proto_at [of "''unix''" path "[]"] assms(2) by (simp add: unix_text_def)
  note setSocket_unix [OF this unix_sockaddr_path [OF assms(1-3)], of type c s ?msg]
  ultimately have eq: "setSocket P (''unix://'' @ path) type s =
      guard P (r_ret (fst (kernel P c (world ?u)))) ?msg (snd (sys P c ?u))"
    using assms(4-6) by (auto simp: Let_def unix_bytes_def)
  have u: "self ?u = self s" "map fst (trace ?u) = map fst (trace s) @ [Sys_unlink path]"
    "world ?u = w" using assms(7) by (simp_all add: sys_Val)
  show ?thesis
    using guarded_call [of P c ?u ?msg] unfolding eq unfolding u assms(5) append_assoc append_Cons append_Nil .
qed

theorem unix_unlinks_first_witness:
  "\<exists>r t. Socket_connect sample ''unix:///tmp/s'' (machine \<lparr>socket_fd = 3\<rparr> net_start) = (r, t) \<and>
    map fst (trace t) = [Sys_unlink ''/tmp/s'',
      Sys_connect 3 (le16 AF_UNIX @ map byte_of_char ''/tmp/s'' @ path_tail sample (length ''/tmp/s''))]"
proof -
  let ?a = "le16 AF_UNIX @ map byte_of_char ''/tmp/s'' @ path_tail sample (length ''/tmp/s'')"
  have "unix_text ''/tmp/s''" by (simp add: unix_text_def in_class_def proto_class_def)
  from unix_unlinks_first [OF sample_intact(1) this _ _ _ refl refl,
      of CONNECT "Sys_connect 3 ?a" 3 "machine \<lparr>socket_fd = 3\<rparr> net_start"]
  show ?thesis by (auto simp: Socket_connect_def)
qed


text \<open>
  A text in which no address is found closes the socket, bound or connected before or not, and
  throws; no other system call is made.
\<close>
lemma bad_address_closes:
  assumes "leftmost proto_at address = None"
  shows "\<exists>text t. setSocket P address type s = (Exn (Runtime_error text), t) \<and>
    self t = (self s)\<lparr>socket_fd := - 1\<rparr> \<and>
    map fst (trace t) = map fst (trace s) @
      (if socket_fd (self s) = - 1 then [] else [Sys_close (socket_fd (self s))])"
  by (simp add: setSocket_none [OF assms] guard_fail self_close calls_close)

section \<open>Datagrams\<close>

text \<open>
  C27: a UDP receive never throws and makes one call. A timeout, an error and an empty datagram all give
  the empty message; any other datagram gives a message of the size asked for: what came in, cut to that
  size or followed by zero bytes, so the size that came in is lost.
\<close>
theorem udp_recv_padded:
  assumes "c = Sys_recvfrom (socket_fd (self s)) n flags False" and "r = fst (kernel P c (world s))"
    and "length (r_data r) \<le> n"
  shows "\<exists>t. SocketUDP_recv P n flags s =
      (Val (if r_ret r = - 1 \<or> r_ret r = 0 then [] else r_data r @ replicate (n - length (r_data r)) 0), t) \<and>
    self t = self s \<and> trace t = trace s @ [(c, r_ret r)]"
  using assms by (simp add: SocketUDP_recv_eq Let_def overwrite_def)

theorem udp_recv_padded_witness:
  "fst (SocketUDP_recv sample 5 0 (machine \<lparr>socket_fd = 3\<rparr> (net_start\<lparr>inbox := [([1, 2], [])]\<rparr>))) =
    Val [1, 2, 0, 0, 0]"
  using udp_recv_padded [OF refl refl,
      of sample "machine \<lparr>socket_fd = 3\<rparr> (net_start\<lparr>inbox := [([1, 2], [])]\<rparr>)" 5 0]
  by (auto simp: take_datagram_def net_start_def eval_nat_numeral)

text \<open>
  Sending never throws and never closes the socket, whatever the kernel reports: the guard is given
  a truth value, which is not negative, so a short or a failed send is only visible in the result.
\<close>
lemma send_failures_silent:
  "(\<exists>t. SocketUDP_sendto P msg a flags s =
      (Val (r_ret (fst (kernel P (Sys_sendto (socket_fd (self s)) msg flags (inet_bytes a)) (world s)))), t) \<and>
      self t = self s \<and> cout t = cout s) \<and>
   (\<exists>t. SocketUnix_sendto P msg b flags s =
      (Val (r_ret (fst (kernel P (Sys_sendto (socket_fd (self s)) msg flags (unix_bytes b)) (world s)))), t) \<and>
      self t = self s \<and> cout t = cout s)"
  by (simp add: SocketUDP_sendto_eq SocketUnix_sendto_eq Let_def sys_Val)

text \<open>
  A receive timeout closes a Unix socket and throws, where a UDP socket returns an empty message and
  stays open, although both are documented to return a message of size 0.
\<close>
lemma recv_timeout_differs:
  assumes "r_ret (fst (kernel P (Sys_recv (socket_fd (self s)) n flags) (world s))) = - 1"
    and "r_ret (fst (kernel P (Sys_recvfrom (socket_fd (self s)) n flags False) (world s))) = - 1"
  shows "(\<exists>text t. SocketUnix_recv P n flags s = (Exn (Runtime_error text), t) \<and>
      self t = (self s)\<lparr>socket_fd := - 1\<rparr>) \<and>
    (\<exists>t. SocketUDP_recv P n flags s = (Val [], t) \<and> self t = self s)"
  using assms by (simp add: SocketUnix_recv_fail SocketUDP_recv_eq Let_def self_close)

lemma recv_timeout_differs_witness:
  "(\<exists>text t. SocketUnix_recv sample 8 0 (machine \<lparr>socket_fd = 3\<rparr> net_start) = (Exn (Runtime_error text), t) \<and>
      self t = \<lparr>socket_fd = - 1\<rparr>) \<and>
   fst (SocketUDP_recv sample 8 0 (machine \<lparr>socket_fd = 3\<rparr> net_start)) = Val []"
  using recv_timeout_differs [of sample "machine \<lparr>socket_fd = 3\<rparr> net_start" 8 0]
  by (auto simp: take_datagram_def net_start_def)

text \<open>
  C33: \<open>available\<close> and \<open>availableForWrite\<close> are undefined on a closed socket, as \<open>FD_SET\<close> has no bit for
  \<open>-1\<close>, and on a descriptor beyond \<open>FD_SETSIZE\<close>. Otherwise they make one \<open>select\<close> with a timeout of
  1 ms and say whether the descriptor is in the set that comes back, or close the socket and throw if
  the call fails.
\<close>
theorem available_cases:
  assumes "fd = socket_fd (self s)"
    and "op = available P \<and> c = Sys_select (fd + 1) [fd] [] (Timeval 0 1000) \<or>
      op = availableForWrite P \<and> c = Sys_select (fd + 1) [] [fd] (Timeval 0 1000)"
    and "r = fst (kernel P c (world s))"
  shows "if fd < 0 \<or> 1024 \<le> fd then op s = (Undef Bad_fd_set, s)
    else map fst (take (length (trace s) + 1) (trace (snd (op s)))) = map fst (trace s) @ [c] \<and>
      (if 0 \<le> r_ret r then fst (op s) = Val (fd \<in> set (r_fds r)) \<and> self (snd (op s)) = self s
       else (\<exists>text. fst (op s) = Exn (Runtime_error text)) \<and>
         self (snd (op s)) = (self s)\<lparr>socket_fd := - 1\<rparr>)"
  using assms
  by (auto simp: available_def availableForWrite_def bnd_case get_fd_apply lift_outcome_apply FD_SET_def
      FD_SETSIZE_def sys_Val ret_apply guard_fail self_close Socket_close_open)

theorem available_cases_witness:
  "fst (available sample (machine \<lparr>socket_fd = - 1\<rparr> net_start)) = Undef Bad_fd_set \<and>
   fst (available sample (machine \<lparr>socket_fd = 3\<rparr> net_start)) = Val True"
  using available_cases [OF refl _ refl, of "available sample" sample
      "Sys_select 0 [- 1] [] (Timeval 0 1000)" "machine \<lparr>socket_fd = - 1\<rparr> net_start"]
    available_cases [OF refl _ refl, of "available sample" sample
      "Sys_select 4 [3] [] (Timeval 0 1000)" "machine \<lparr>socket_fd = 3\<rparr> net_start"]
  by simp

section \<open>Queries\<close>

text \<open>
  \<open>get_hostname\<close> asks once for the name of 127.0.0.1, with a size of 265 for its buffer of 256 bytes,
  and returns a name that fits the buffer with its NUL. A longer reply, which the size allows, overflows
  the buffer; one of 256 bytes without a NUL is read beyond it.
\<close>
lemma hostname_buffer:
  assumes "frame_intact P"
    and "c = Sys_getnameinfo (inet_bytes (inet_of (inet_addr P ''127.0.0.1'') 9000)) 265"
    and "bs = r_data (fst (kernel P c (world s)))"
  shows "map fst (trace (snd (get_hostname P s))) = map fst (trace s) @ [c] \<and>
    (\<forall>name. bs = map byte_of_char name @ [0] \<and> CHR 0x00 \<notin> set name \<and> length name < 256 \<longrightarrow>
      fst (get_hostname P s) = Val name) \<and>
    (256 < length bs \<longrightarrow> fst (get_hostname P s) = Undef Buffer_overflow) \<and>
    (length bs = 256 \<and> 0 \<notin> set bs \<longrightarrow> fst (get_hostname P s) = Undef Unterminated_string)"
proof -
  have c: "name_call P = c" by (simp add: name_call_def assms(2))
  have "map fst (trace (snd (get_hostname P s))) = map fst (trace s) @ [c]"
    by (simp add: get_hostname_def loopback_address [OF assms(1)] bnd_case lift_outcome_apply sys_Val assms(2))
  moreover have "fst (get_hostname P s) = (if 256 < length bs then Undef Buffer_overflow
      else read_c_string (overwrite (replicate 256 0) bs))"
    using get_hostname_eq [OF assms(1), of s] unfolding c assms(3) [symmetric] by (simp add: Let_def)
  moreover have "length bs = 256 \<Longrightarrow> overwrite (replicate 256 0) bs = bs" by (simp add: overwrite_full)
  ultimately show ?thesis using hostname_read by (auto simp: read_c_string_def)
qed

lemma hostname_buffer_witness:
  "fst (get_hostname sample (machine () net_start)) = Val ''localhost''"
  using hostname_buffer [OF sample_intact(1) refl refl, of "machine () net_start"] by auto

text \<open>
  C38: \<open>get_host_ip\<close> opens one descriptor. It closes it and returns the text of the local address,
  unless \<open>getsockname\<close> fails: then it returns the empty text and the descriptor stays open for good.
\<close>
theorem host_ip_leaks_on_failure:
  assumes "frame_intact P" and "0 \<le> host_fd P (world s)"
  shows "if 0 \<le> r_ret (host_reply P (world s))
    then live (trace (snd (get_host_ip P s))) = live (trace s) \<and>
      (length (r_addr (host_reply P (world s))) = sizeof_inet \<longrightarrow> fst (get_host_ip P s) =
        Val (c_str (inet_ntoa P (s_addr (inet_view (r_addr (host_reply P (world s))))))))
    else fst (get_host_ip P s) = Val [] \<and>
      live (trace (snd (get_host_ip P s))) = add_mset (host_fd P (world s)) (live (trace s))"
  using get_host_ip_closed [OF assms] get_host_ip_leak [OF assms] by simp

text \<open>A kernel on which \<open>getsockname\<close> fails.\<close>

fun nameless_kernel :: "syscall \<Rightarrow> net \<Rightarrow> reply \<times> net" where
  "nameless_kernel (Sys_getsockname fd n) w = (answer (- 1) [] [] [], w)"
| "nameless_kernel c w = sample_kernel c w"

theorem host_ip_leaks_on_failure_witness:
  "live (trace (snd (get_host_ip (sample\<lparr>kernel := nameless_kernel\<rparr>) (machine () net_start)))) = {#3#}"
proof -
  have "frame_intact (sample\<lparr>kernel := nameless_kernel\<rparr>)" by (simp add: frame_intact_def sample_def env.defs sample_env_def)
  from host_ip_leaks_on_failure [OF this, of "machine () net_start"]
  show ?thesis by (simp add: host_fd_def host_reply_def Let_def net_start_def)
qed



text \<open>
  \<open>info\<close> always returns, keeps the descriptor it was given, and makes only calls that ask about
  this descriptor: it neither opens nor closes one.
\<close>
lemma info_only_asks:
  "\<exists>t. info P name st s = (Val (), t) \<and> info_fd (self t) = info_fd (self s) \<and>
    live (trace t) = live (trace s) \<and>
    (\<exists>es. trace t = trace s @ es \<and> (\<forall>e \<in> set es. call_fd (fst e) = Some (info_fd (self s))))"
proof -
  obtain t where t: "info P name st s = (Val (), t)"
    using returns_info [of P name st] unfolding returns_def by (metis old.unit.exhaust prod.collapse)
  moreover have "only_asks (info_fd (self s)) (trace s) (snd (info P name st s))"
    by (rule keepsD [OF only_asks_info only_asks_start])
  ultimately have "only_asks (info_fd (self s)) (trace s) t" by simp
  then obtain es where "info_fd (self t) = info_fd (self s)" "trace t = trace s @ es"
    and es: "\<forall>e \<in> set es. call_fd (fst e) = Some (info_fd (self s)) \<and> plain_call (fst e)"
    by (auto simp: only_asks_def)
  moreover have "foldl live_step M es = M" for M
    using es by (induction es arbitrary: M) auto
  ultimately show ?thesis using t by (auto simp: live_append)
qed

section \<open>Signals\<close>

text \<open>
  C36: over any series of \<open>enable\<close> calls on a fresh object, with the exceptions caught, exactly one
  handler is installed: that of the first call for a signal that can be caught. Calls for
  \<open>SIGKILL\<close> and \<open>SIGSTOP\<close> before it install nothing, later calls of any kind neither.
\<close>
theorem first_handler_only:
  assumes "self s = SignalFunc_ctor"
  shows "map fst (trace (enable_all P cs s)) = map fst (trace s) @
    (case filter (\<lambda>(f, signum). signum \<noteq> SIGKILL \<and> signum \<noteq> SIGSTOP) cs of
       [] \<Rightarrow> [] | (f, signum) # _ \<Rightarrow> [Sys_sigaction signum f])"
  using enable_all_first [of s P cs] assms by (simp add: SignalFunc_ctor_def)

theorem first_handler_only_witness:
  "map fst (trace (enable_all sample [(1, SIGKILL), (2, SIGINT), (3, SIGINT), (4, SIGSTOP)]
    (machine SignalFunc_ctor net_start))) = [Sys_sigaction SIGINT 2]"
  using first_handler_only [of "machine SignalFunc_ctor net_start" sample
      "[(1, SIGKILL), (2, SIGINT), (3, SIGINT), (4, SIGSTOP)]"]
  by (simp add: SIGINT_def SIGKILL_def SIGSTOP_def)

end
