(* ===== verification/Event_Loop.thy ===== *)
theory Event_Loop
  imports Pub_Sub
begin

text \<open>
  \<open>loop(event)\<close> beside other threads that set and clear its event at any time: the loop as a state
  machine that tests the flag and takes its turns, interleaved with the operations on the event. What
  the loop leaves with is what the sequential function gives for the flags its tests have read; once
  the event is cleared for good, at most one more turn begins.
\<close>

section \<open>The loop and the other threads\<close>

text \<open>The loop is about to test the event, in a turn, or has been left with an outcome.\<close>

datatype 's loop_state = Testing 's | Turning 's | Left "unit outcome" 's

datatype loop_label = Loops | Sets | Clears

inductive loop_step ::
  "('s, unit) act \<Rightarrow> Event \<times> 's loop_state \<Rightarrow> loop_label \<Rightarrow> Event \<times> 's loop_state \<Rightarrow> bool" for once where
  go_on: "Event_is_set e \<Longrightarrow> loop_step once (e, Testing s) Loops (e, Turning s)"
| leave: "\<not> Event_is_set e \<Longrightarrow> loop_step once (e, Testing s) Loops (e, Left (Val ()) s)"
| turn: "once s = (Val (), t) \<Longrightarrow> loop_step once (e, Turning s) Loops (e, Testing t)"
| abort: "once s = (r, t) \<Longrightarrow> r \<noteq> Val () \<Longrightarrow> loop_step once (e, Turning s) Loops (e, Left r t)"
| set: "loop_step once (e, c) Sets (Event_set e, c)"
| clear: "loop_step once (e, c) Clears (Event_clear e, c)"

inductive_cases loop_stepE: "loop_step once (e, c) l q"
inductive_cases loops_stepE: "loop_step once (e, c) Loops q"

inductive loop_run ::
  "('s, unit) act \<Rightarrow> Event \<times> 's loop_state \<Rightarrow> loop_label list \<Rightarrow> Event \<times> 's loop_state \<Rightarrow> bool" for once s where
  start: "loop_run once s [] s"
| more: "loop_run once s ls t \<Longrightarrow> loop_step once t l u \<Longrightarrow> loop_run once s (ls @ [l]) u"

lemma loop_run_append:
  assumes "loop_run once q ls q'" and "loop_run once q' ks q''"
  shows "loop_run once q (ls @ ks) q''"
  using assms(2)
proof (induction rule: loop_run.induct)
  case start
  show ?case using assms(1) by simp
next
  case (more ks t l u)
  then have "loop_run once q ((ls @ ks) @ [l]) u" by (intro loop_run.more)
  then show ?case by simp
qed

text \<open>Where a loop that started in \<open>s\<close> can be: after some complete turns.\<close>

fun after_turns :: "('s, unit) act \<Rightarrow> 's \<Rightarrow> 's loop_state \<Rightarrow> bool" where
  "after_turns once s (Testing t) \<longleftrightarrow> (\<exists>n. iterate n once s = (Val (), t))"
| "after_turns once s (Turning t) \<longleftrightarrow> (\<exists>n. iterate n once s = (Val (), t))"
| "after_turns once s (Left r t) \<longleftrightarrow>
    (if r = Val () then \<exists>n. iterate n once s = (Val (), t)
     else \<exists>n u. iterate n once s = (Val (), u) \<and> once u = (r, t))"

lemma iterate_snoc:
  "iterate n once s = (Val (), t) \<Longrightarrow> once t = (Val (), u) \<Longrightarrow> iterate (Suc n) once s = (Val (), u)"
proof (induction n arbitrary: s)
  case 0
  then show ?case by (simp add: iterate_Suc_Val ret_apply)
next
  case (Suc n)
  then obtain s' where "once s = (Val (), s')" "iterate n once s' = (Val (), t)" by (auto simp: iterate_Suc_Val)
  with Suc.IH [of s'] Suc.prems(2) show ?case by (auto simp: iterate_Suc_Val [of "Suc n"])
qed

lemma step_after_turns:
  assumes "loop_step once q l q'" and "after_turns once s (snd q)"
  shows "after_turns once s (snd q')"
  using assms
proof cases
  case (turn u t e)
  then obtain n where "iterate n once s = (Val (), u)" using assms(2) by auto
  from iterate_snoc [OF this turn(4)] turn show ?thesis by auto
qed auto

lemma run_after_turns:
  assumes "loop_run once q ls q'" and "after_turns once s (snd q)"
  shows "after_turns once s (snd q')"
  using assms by (induction rule: loop_run.induct) (auto dest: step_after_turns)

text \<open>What a loop leaves with is what the sequential loop gives for some flags read by its tests.\<close>

lemma loop_event_aborts:
  assumes "iterate n once s = (Val (), t)" and "once t = (r, u)" and "r \<noteq> Val ()"
  shows "loop_event (\<lambda>_. True) once i s = Some (r, u)"
  using assms(1)
proof (induction n arbitrary: i s)
  case 0
  with assms(2,3) show ?case by (cases r) (simp_all add: loop_event.simps [of _ once i] ret_apply)
next
  case (Suc n)
  then obtain s' where "once s = (Val (), s')" "iterate n once s' = (Val (), t)" by (auto simp: iterate_Suc_Val)
  with Suc.IH [of s' "Suc i"] show ?case by (simp add: loop_event.simps [of _ once i])
qed

lemma left_is_loop_event:
  assumes "loop_run once (e, Testing s) ls (e', Left r t)"
  shows "\<exists>ev :: nat \<Rightarrow> Event. loop_event (\<lambda>i. Event_is_set (ev i)) once 0 s = Some (r, t)"
proof -
  have "after_turns once s (Left r t)"
    using run_after_turns [OF assms, of s] iterate_0 [of once s] by (metis after_turns.simps(1) snd_conv)
  then show ?thesis
  proof (cases "r = Val ()")
    case True
    with \<open>after_turns once s (Left r t)\<close> obtain n where n: "iterate n once s = (Val (), t)" by auto
    let ?ev = "\<lambda>i. if i < n then Event_set Event_ctor else Event_ctor"
    have "loop_event (\<lambda>i. Event_is_set (?ev i)) once 0 s = Some (Val (), t)"
      by (rule loop_event_returns [where n = n]) (simp_all add: n)
    with True show ?thesis by (intro exI [of _ ?ev]) simp
  next
    case False
    with \<open>after_turns once s (Left r t)\<close> obtain n u where "iterate n once s = (Val (), u)" "once u = (r, t)"
      by auto
    from loop_event_aborts [OF this False, of 0]
    have "loop_event (\<lambda>i. Event_is_set (Event_set Event_ctor)) once 0 s = Some (r, t)" by simp
    then show ?thesis by (rule exI [where x = "\<lambda>_. Event_set Event_ctor"])
  qed
qed

section \<open>Leaving the loop\<close>

text \<open>The steps the loop itself still takes when the event is clear and nobody sets it.\<close>

fun steps_left :: "'s loop_state \<Rightarrow> nat" where
  "steps_left (Turning s) = 2"
| "steps_left (Testing s) = 1"
| "steps_left (Left r s) = 0"

lemma cleared_steps:
  assumes "loop_run once q ls q'" and "\<not> Event_is_set (fst q)" and "Sets \<notin> set ls"
  shows "\<not> Event_is_set (fst q') \<and> count_list ls Loops + steps_left (snd q') \<le> steps_left (snd q)"
  using assms
proof (induction rule: loop_run.induct)
  case start
  then show ?case by simp
next
  case (more ls t l u)
  then have IH: "\<not> Event_is_set (fst t)" "count_list ls Loops + steps_left (snd t) \<le> steps_left (snd q)"
    "l \<noteq> Sets" by auto
  from more.hyps(2) IH show ?case by cases auto
qed

text \<open>A loop that has not been left can always go on.\<close>

lemma loop_goes_on:
  assumes "\<And>q. \<not> loop_step once (e, c) Loops q"
  shows "\<exists>r t. c = Left r t"
proof (cases c)
  case (Testing s)
  then show ?thesis using assms loop_step.go_on loop_step.leave by metis
next
  case (Turning s)
  then show ?thesis using assms loop_step.turn loop_step.abort by (metis prod.collapse)
qed simp

end
