(* ===== verification/Endpoint_Properties.thy ===== *)
theory Endpoint_Properties
  imports Sample_Platform Event_Loop Req_Rep
begin

text \<open>
  The properties of \<open>pub_sub.hpp\<close>, \<open>request_reply.hpp\<close> and \<open>socket_bc.hpp\<close>: what reaches the
  callbacks, what is sent and to whom, and when the loops end. They rest on the interface of a
  datagram socket, through its interpretations.
\<close>

section \<open>Subscribers\<close>

text \<open>
  C12: one turn of a UDP subscriber makes one receive of \<open>data_size\<close> bytes. Without a datagram no
  callback runs; with one, every callback gets the message, in registration order, until one does not
  return, and the turn ends as that one did; what they print is printed. The object is never changed.
\<close>
theorem subscriber_turn:
  assumes "c = Sys_recvfrom (socket_fd (self s)) (data_size (self s)) 0 False"
    and "kernel P c (world s) = (r, w)"
    and "m = (if r_ret r = - 1 \<or> r_ret r = 0 then [] else overwrite (replicate (data_size (self s)) 0) (r_data r))"
    and "run = (if m = [] then (Val (), w, []) else run_callbacks (callbacks (self s)) m w)"
  shows "\<exists>t. SubscriberUDP_once P s = (fst run, t) \<and> self t = self s \<and> world t = fst (snd run) \<and>
    cout t = cout s @ snd (snd run) \<and> trace t = trace s @ [(c, r_ret r)]"
proof -
  have "SocketUDP_recv P (data_size (self s)) 0 s = (Val m, snd (sys P c s))"
    using assms(1-3) by (simp add: SocketUDP_recv_eq Let_def)
  then show ?thesis
    using assms(1,2,4) sub_udp.once_received(1) [of P s m]
    by (auto simp: SubscriberUDP_once_def sys_Val)
qed

text \<open>A callback that records what it gets.\<close>

definition record_cb :: "byte \<Rightarrow> (net, unit) callback" where
  "record_cb tag m w = (Val (), w\<lparr>outbox := outbox w @ [(tag # m, [])]\<rparr>, [])"

definition sample_subscriber :: "net Subscriber" where
  "sample_subscriber = \<lparr>socket_fd = 3, callbacks = [record_cb 1, record_cb 2], data_size = 2\<rparr>"

lemma sample_subscriber_simps [simp]:
  "socket_fd sample_subscriber = 3" "data_size sample_subscriber = 2"
  "callbacks sample_subscriber = [record_cb 1, record_cb 2]"
  by (simp_all add: sample_subscriber_def)

lemma sample_callbacks_return: "callbacks_return [record_cb 1, record_cb 2]"
  by (simp add: callbacks_return_def record_cb_def)

theorem subscriber_turn_witness:
  "\<exists>t. SubscriberUDP_once sample (machine sample_subscriber (net_start\<lparr>inbox := [([7, 8], [])]\<rparr>)) =
      (Val (), t) \<and> outbox (world t) = [([1, 7, 8], []), ([2, 7, 8], [])]"
proof -
  let ?s = "machine sample_subscriber (net_start\<lparr>inbox := [([7, 8], [])]\<rparr>)"
  have k: "kernel sample (Sys_recvfrom 3 2 0 False) (world ?s) = (answer 2 [7, 8] [] [], net_start)"
    by (simp add: take_datagram_def net_start_def)
  from subscriber_turn [OF _ k refl refl] show ?thesis
    by (auto simp: overwrite_def record_cb_def net_start_def eval_nat_numeral)
qed

text \<open>
  Over a UDP socket, with callbacks that return, \<open>loop()\<close> never ends: it is not left by timeouts,
  errors of the socket or closing it.
\<close>
lemma subscriber_loop_never_ends:
  assumes "callbacks_return (callbacks (self s))"
  shows "Subscriber_loop (\<lambda>n. SocketUDP_recv P n 0) s = None"
  by (rule sub_udp.loop_diverges [OF assms])

lemma subscriber_loop_never_ends_witness:
  "Subscriber_loop (\<lambda>n. SocketUDP_recv sample n 0) (machine sample_subscriber net_start) = None"
  by (rule subscriber_loop_never_ends) (simp add: sample_callbacks_return)

text \<open>
  \<open>loop(event)\<close> of a UDP subscriber runs one turn for each test that finds the event set and returns
  at the first test that finds it clear.
\<close>
lemma subscriber_event_loop:
  assumes "callbacks_return (callbacks (self s))"
    and "\<forall>k < n. Event_is_set (ev k)" and "\<not> Event_is_set (ev n)"
  shows "\<exists>t. iterate n (SubscriberUDP_once P) s = (Val (), t) \<and> self t = self s \<and>
    Subscriber_loop_event (\<lambda>n. SocketUDP_recv P n 0) ev s = Some (Val (), t)"
proof -
  obtain t where t: "iterate n (SubscriberUDP_once P) s = (Val (), t)"
    "Subscriber_loop_event (\<lambda>n. SocketUDP_recv P n 0) ev s = Some (Val (), t)"
    using sub_udp.loop_event_ends [OF assms, of P] unfolding SubscriberUDP_once_def by blast
  moreover have "self t = self s"
    using sub_udp.iterate_once_returns [OF assms(1), of n P] t(1)
    unfolding SubscriberUDP_once_def by auto
  ultimately show ?thesis by blast
qed

lemma subscriber_event_loop_witness:
  "\<exists>t. Subscriber_loop_event (\<lambda>n. SocketUDP_recv sample n 0)
    (\<lambda>i. if i < 3 then Event_set Event_ctor else Event_ctor) (machine sample_subscriber net_start) =
      Some (Val (), t)"
  using subscriber_event_loop [of "machine sample_subscriber net_start" 3
      "\<lambda>i. if i < 3 then Event_set Event_ctor else Event_ctor" sample]
  by (auto simp: sample_callbacks_return)



text \<open>
  C32: over a Unix socket \<open>loop()\<close> ends at the first receive that fails, a timeout included: with an
  exception and the socket closed.
\<close>
theorem unix_subscriber_loop_dies:
  assumes "iterate n (SubscriberUnix_once P) s = (Val (), t)"
    and "r_ret (fst (kernel P (Sys_recv (socket_fd (self t)) (data_size (self t)) 0) (world t))) < 0"
  shows "\<exists>text u. Subscriber_loop (\<lambda>n. SocketUnix_recv P n 0) s = Some (Exn (Runtime_error text), u) \<and>
    self u = (self t)\<lparr>socket_fd := - 1\<rparr>"
proof -
  obtain msg u where u: "SocketUnix_recv P (data_size (self t)) 0 t = (Exn (Runtime_error msg), u)"
    "self u = (self t)\<lparr>socket_fd := - 1\<rparr>"
    using assms(2) by (simp add: SocketUnix_recv_fail Let_def self_close)
  have "SubscriberUnix_once P t = (Exn (Runtime_error msg), u)"
    unfolding SubscriberUnix_once_def by (rule sub_uds.once_recv_throws [OF u(1)])
  with loop_forever_throws [OF assms(1)] u(2) show ?thesis
    by (auto simp: Subscriber_loop_def SubscriberUnix_once_def)
qed

theorem unix_subscriber_loop_dies_witness:
  "\<exists>text u. Subscriber_loop (\<lambda>n. SocketUnix_recv sample n 0)
      (machine sample_subscriber (net_start\<lparr>inbox := [([7, 8], [])]\<rparr>)) =
    Some (Exn (Runtime_error text), u) \<and> socket_fd (self u) = - 1"
proof -
  let ?s = "machine sample_subscriber (net_start\<lparr>inbox := [([7, 8], [])]\<rparr>)"
  have "SocketUnix_recv sample 2 0 ?s =
      (Val [7, 8], snd (sys sample (Sys_recv 3 2 0) ?s))"
    by (simp add: SocketUnix_recv_ok take_datagram_def overwrite_def net_start_def eval_nat_numeral Let_def)
  then obtain t where t: "iterate 1 (SubscriberUnix_once sample) ?s = (Val (), t)"
    and w: "inbox (world t) = []" "self t = sample_subscriber"
    using sub_uds.once_received(1) [of sample ?s "[7, 8]"]
    by (auto simp: SubscriberUnix_once_def iterate_Suc_Val iterate_0 ret_apply record_cb_def sys_Val
        take_datagram_def net_start_def)
  from unix_subscriber_loop_dies [OF t] w show ?thesis by (auto simp: take_datagram_def)
qed

section \<open>Publishers\<close>

text \<open>
  C11: \<open>publish\<close> sends the message to every registered address, once each and in registration order,
  from the publisher's descriptor, over UDP and over Unix sockets; no failure of a send stops it or is
  reported. Registering puts an address at the end.
\<close>
theorem publish_to_all:
  "(\<exists>t. PublisherUDP_publish P data s = (Val (), t) \<and> self t = self s \<and>
     map fst (trace t) = map fst (trace s) @
       map (\<lambda>a. Sys_sendto (socket_fd (self s)) data 0 (inet_bytes a)) (clientaddrs (self s))) \<and>
   (\<exists>t. PublisherUnix_publish P data u = (Val (), t) \<and> self t = self u \<and>
     map fst (trace t) = map fst (trace u) @
       map (\<lambda>a. Sys_sendto (socket_fd (self u)) data 0 (unix_bytes a)) (clientaddrs (self u))) \<and>
   clientaddrs (self (snd (Publisher_register_addr b v))) = clientaddrs (self v) @ [b]"
proof -
  show ?thesis
    using pub_udp.publish_calls [of P data s] pub_uds.publish_calls [of P data u]
    unfolding PublisherUDP_publish_def PublisherUnix_publish_def
    by (simp add: Publisher_register_addr_def modify_apply)
qed

section \<open>Repliers\<close>

text \<open>
  C10: one turn of a UDP replier that gets a datagram runs the callback once, on a message of
  \<open>msg_size\<close> bytes, and sends what the callback returns, once, to exactly the address bytes the kernel
  gave as the source of the request. As every message has the size asked for, the comparison of the
  sizes never drops a request that is too short.
\<close>
theorem reply_once_answers:
  assumes "c = Sys_recvfrom (socket_fd (self s)) n 0 True" and "n = rep_msg_size (self s)"
    and "kernel P c (world s) = (r, w)" and "r_ret r \<noteq> - 1" and "r_ret r \<noteq> 0" and "0 < n"
    and "length (r_addr r) = 16" and "callback (self s) = Some cb"
    and "cb (overwrite (replicate n 0) (r_data r)) w = (Val answer_msg, w', out)"
  shows "\<exists>num t. ReplyUDP_once P s = (Val (), t) \<and> self t = self s \<and>
    trace t = trace s @ [(c, r_ret r), (Sys_sendto (socket_fd (self s)) answer_msg 0 (r_addr r), num)]"
proof -
  let ?m = "overwrite (replicate n 0) (r_data r)" and ?t = "snd (sys P c s)"
  have rcv: "SocketUDP_recvfrom P (rep_msg_size (self s)) (Some inetaddr_zero) 0 s =
      (Val (?m, Some (inet_view (r_addr r))), ?t)"
    using assms(1-5,7) by (simp add: SocketUDP_recvfrom_eq Let_def overwrite_full)
  have "?m \<noteq> []" using assms(6) by (metis length_overwrite length_replicate list.size(3) less_irrefl)
  moreover have "cb ?m (world ?t) = (Val answer_msg, w', out)" using assms(3,9) by (simp add: sys_Val)
  ultimately show ?thesis
    using rep_udp.once_request(2) [OF rcv _ assms(8)] inet_bytes_view [OF assms(7)] assms(3)
    unfolding ReplyUDP_once_def by fastforce
qed

definition echo_cb :: "(net, message_t) callback" where
  "echo_cb m w = (Val (rev m), w, [])"

definition sample_replier :: "net Reply" where
  "sample_replier = \<lparr>socket_fd = 3, callback = Some echo_cb, rep_msg_size = 2\<rparr>"

lemma sample_replier_simps [simp]:
  "socket_fd sample_replier = 3" "rep_msg_size sample_replier = 2"
  "callback sample_replier = Some echo_cb"
  by (simp_all add: sample_replier_def)

theorem reply_once_answers_witness:
  "\<exists>t. ReplyUDP_once sample (machine sample_replier (net_start\<lparr>inbox := [([7, 8], replicate 16 9)]\<rparr>)) =
      (Val (), t) \<and> map fst (trace t) = [Sys_recvfrom 3 2 0 True, Sys_sendto 3 [8, 7] 0 (replicate 16 9)]"
proof -
  let ?s = "machine sample_replier (net_start\<lparr>inbox := [([7, 8], replicate 16 9)]\<rparr>)"
  have k: "kernel sample (Sys_recvfrom 3 2 0 True) (world ?s) =
      (answer 2 [7, 8] (replicate 16 9) [], net_start)"
    by (simp add: take_datagram_def net_start_def)
  have cb: "echo_cb (overwrite (replicate 2 0) [7, 8]) net_start = (Val [8, 7], net_start, [])"
    by (simp add: echo_cb_def overwrite_def)
  from reply_once_answers [of "Sys_recvfrom 3 2 0 True" ?s 2 sample, OF _ _ k _ _ _ _ _ ] cb
  show ?thesis by fastforce
qed

text \<open>
  When the callback throws, or none is registered (an empty \<open>std::function\<close> throws
  \<open>bad_function_call\<close>), nothing is sent and the exception leaves the turn. Without a datagram the
  callback does not run and nothing is sent.
\<close>
lemma reply_once_silent:
  assumes "c = Sys_recvfrom (socket_fd (self s)) n 0 True" and "n = rep_msg_size (self s)" and "0 < n"
    and "kernel P c (world s) = (r, w)"
  shows "if r_ret r = - 1 \<or> r_ret r = 0
    then \<exists>t. ReplyUDP_once P s = (Val (), t) \<and> self t = self s \<and> trace t = trace s @ [(c, r_ret r)]
    else \<forall>e. (case callback (self s) of
          None \<Rightarrow> e = Bad_function_call
        | Some cb \<Rightarrow> fst (cb (overwrite (replicate n 0) (r_data r)) w) = Exn e) \<longrightarrow>
      (\<exists>t. ReplyUDP_once P s = (Exn e, t) \<and> trace t = trace s @ [(c, r_ret r)])"
proof (cases "r_ret r = - 1 \<or> r_ret r = 0")
  case True
  then have rcv: "SocketUDP_recvfrom P (rep_msg_size (self s)) (Some inetaddr_zero) 0 s =
      (Val ([], Some (inet_view (overwrite (replicate 16 0) (r_addr r)))), snd (sys P c s))"
    using assms by (auto simp: SocketUDP_recvfrom_eq Let_def)
  from True show ?thesis using rep_udp.once_empty [OF rcv] assms(4) by (simp add: ReplyUDP_once_def)
next
  case False
  let ?m = "overwrite (replicate n 0) (r_data r)"
  from False have rcv: "SocketUDP_recvfrom P (rep_msg_size (self s)) (Some inetaddr_zero) 0 s =
      (Val (?m, Some (inet_view (overwrite (replicate 16 0) (r_addr r)))), snd (sys P c s))"
    using assms by (auto simp: SocketUDP_recvfrom_eq Let_def)
  have m: "?m \<noteq> []" using assms(3) by (metis length_overwrite length_replicate list.size(3) less_irrefl)
  have w: "world (snd (sys P c s)) = w" using assms(4) by (simp add: sys_Val)
  from False show ?thesis
    using rep_udp.once_no_reply [OF rcv m] assms(4) unfolding w ReplyUDP_once_def by simp
qed

lemma reply_once_silent_witness:
  "\<exists>t. ReplyUDP_once sample (machine (sample_replier\<lparr>callback := None\<rparr>)
      (net_start\<lparr>inbox := [([7, 8], replicate 16 9)]\<rparr>)) = (Exn Bad_function_call, t) \<and>
    map fst (trace t) = [Sys_recvfrom 3 2 0 True]"
proof -
  let ?s = "machine (sample_replier\<lparr>callback := None\<rparr>) (net_start\<lparr>inbox := [([7, 8], replicate 16 9)]\<rparr>)"
  have k: "kernel sample (Sys_recvfrom 3 2 0 True) (world ?s) =
      (answer 2 [7, 8] (replicate 16 9) [], net_start)"
    by (simp add: take_datagram_def net_start_def)
  from reply_once_silent [of "Sys_recvfrom 3 2 0 True" ?s 2 sample, OF _ _ _ k] show ?thesis by fastforce
qed

section \<open>Requesters\<close>

text \<open>
  A UDP request is one send followed by one receive, whatever the send returned; it never throws,
  and gives the empty message or one of \<open>msg_size\<close> bytes. The receive accepts a datagram from anyone:
  it asks for no address.
\<close>
lemma request_send_then_receive:
  "\<exists>num k m t. RequestUDP_request P msg a s = (Val m, t) \<and> self t = self s \<and>
    (m = [] \<or> length m = req_msg_size (self s)) \<and>
    trace t = trace s @ [(Sys_sendto (socket_fd (self s)) msg 0 (inet_bytes a), num),
      (Sys_recvfrom (socket_fd (self s)) (req_msg_size (self s)) 0 False, k)]"
proof -
  obtain num t where t: "self t = self s"
    "trace t = trace s @ [(Sys_sendto (socket_fd (self s)) msg 0 (inet_bytes a), num)]"
    "RequestUDP_request P msg a s = SocketUDP_recv P (req_msg_size (self s)) 0 t"
    using req_udp.request_steps [of P msg a s] unfolding RequestUDP_request_def by blast
  then show ?thesis
    by (auto simp: SocketUDP_recv_eq Let_def)
qed

section \<open>Broadcast\<close>

lemma sample_bc_ctor:
  "let s = machine \<lparr>socket_fd = 0, bc_addr = inetaddr_zero\<rparr> net_start; r = SocketBC_ctor sample port s
   in fst r = Val () \<and> socket_fd (self (snd r)) = 3 \<and> map fst (trace (snd r)) =
     [Sys_socket 2 2 0, Sys_setsockopt 3 1 6 (Opt_int 1), Sys_setsockopt 3 0 34 (Opt_int 1)]"
  using bc_address [OF sample_intact(1), of port]
  by (simp add: SocketBC_ctor_def SocketUDP_ctor_def Socket_ctor_def makeSocket_def bnd_case on_throw_def
      set_fd_apply sys_Val ret_apply setsockopt_eq lift_outcome_apply modify_apply net_start_def Let_def
      AF_INET_def SOCK_DGRAM_def SOL_SOCKET_def SO_BROADCAST_def IPPROTO_IP_def IP_MULTICAST_LOOP_def)

text \<open>
  A broadcast socket that could be built has made its descriptor, allowed it to broadcast and
  switched multicast loopback on, in that order; what \<open>cast\<close> then sends goes, in one datagram, to
  255.255.255.255 and the port of the constructor.
\<close>
lemma broadcast_to_port:
  assumes "frame_intact P" and "SocketBC_ctor P port s = (Val (), t)"
  shows "let fd = socket_fd (self t) in
    0 \<le> fd \<and> map fst (trace t) = map fst (trace s) @
      [Sys_socket 2 2 0, Sys_setsockopt fd 1 6 (Opt_int 1), Sys_setsockopt fd 0 34 (Opt_int 1)] \<and>
    (\<exists>num u. SocketBC_cast P msg t = (Val num, u) \<and> trace u = trace t @
      [(Sys_sendto fd msg 0 ([2, 0] @ rev (le16 port) @ [255, 255, 255, 255] @ replicate 8 0), num)])"
proof -
  have bytes: "inet_bytes (inet_of INADDR_BROADCAST port) =
      [2, 0] @ rev (le16 port) @ [255, 255, 255, 255] @ replicate 8 0"
    by (simp add: bc_bytes le16_def AF_INET_def)
  have ctor: "0 \<le> socket_fd (self t) \<and> bc_addr (self t) = inet_of INADDR_BROADCAST port \<and>
    map fst (trace t) = map fst (trace s) @
      [Sys_socket 2 2 0, Sys_setsockopt (socket_fd (self t)) 1 6 (Opt_int 1),
       Sys_setsockopt (socket_fd (self t)) 0 34 (Opt_int 1)]"
    by (rule SocketBC_ctor_built [OF assms])
  then show ?thesis
    by (simp add: Let_def cast_eq SocketUDP_sendto_eq bytes)
qed

lemma broadcast_to_port_witness:
  "\<exists>t num u. SocketBC_ctor sample 9000 (machine (\<lparr>socket_fd = 0, bc_addr = inetaddr_zero\<rparr>) net_start) =
      (Val (), t) \<and> SocketBC_cast sample [1] t = (Val num, u) \<and>
    map fst (trace u) = [Sys_socket 2 2 0, Sys_setsockopt 3 1 6 (Opt_int 1), Sys_setsockopt 3 0 34 (Opt_int 1),
      Sys_sendto 3 [1] 0 ([2, 0] @ rev (le16 9000) @ [255, 255, 255, 255] @ replicate 8 0)]"
proof -
  let ?s = "machine (\<lparr>socket_fd = 0, bc_addr = inetaddr_zero\<rparr>) net_start :: (SocketBC, net) mach"
  have "fst (SocketBC_ctor sample 9000 ?s) = Val () \<and> socket_fd (self (snd (SocketBC_ctor sample 9000 ?s))) = 3"
    using sample_bc_ctor [of 9000] by (simp add: Let_def)
  then obtain t where t: "SocketBC_ctor sample 9000 ?s = (Val (), t)" "socket_fd (self t) = 3"
    by (metis prod.collapse)
  from broadcast_to_port [OF sample_intact(1) t(1), of "[1]"] t show ?thesis
    by (fastforce simp: Let_def)
qed

end
