(* ===== verification/Ascii_Codec.thy ===== *)
theory Ascii_Codec
  imports Cpp_Std
begin

text \<open>
  Component \<open>ascii.hpp\<close>: the class \<open>Ascii\<close> with its separator and its token vector, \<open>unpack\<close>
  (a \<open>getline\<close> loop) and \<open>pack\<close> (joining), and what exactly the one undoes of the other.
\<close>

record Ascii =
  toks :: "string list"
  sep :: char

definition Ascii_ctor :: "char \<Rightarrow> Ascii" where
  "Ascii_ctor separator = \<lparr>toks = [], sep = separator\<rparr>"

text \<open>
  \<open>getline(ss, token, sep)\<close>: fails when no character is left; otherwise the token is what comes
  before the next separator, which is consumed with it.
\<close>

definition getline :: "char \<Rightarrow> string \<Rightarrow> (string \<times> string) option" where
  "getline d s = (if s = [] then None
     else Some (takeWhile (\<lambda>c. c \<noteq> d) s, drop 1 (dropWhile (\<lambda>c. c \<noteq> d) s)))"

function tokens :: "char \<Rightarrow> string \<Rightarrow> string list" where
  "tokens d s = (case getline d s of None \<Rightarrow> [] | Some (token, rest) \<Rightarrow> token # tokens d rest)"
  by pat_completeness auto
termination
proof (relation "measure (\<lambda>(d, s). length s)")
  fix d :: char and s token rest
  fix p assume "getline d s = Some p" and "(token, rest) = p"
  then have "s \<noteq> []" and rest: "rest = drop 1 (dropWhile (\<lambda>c. c \<noteq> d) s)"
    by (auto simp: getline_def split: if_splits)
  have "length (dropWhile (\<lambda>c. c \<noteq> d) s) \<le> length s" by (rule length_dropWhile_le)
  with \<open>s \<noteq> []\<close> have "length rest < length s" by (cases s) (auto simp: rest)
  then show "((d, rest), (d, s)) \<in> measure (\<lambda>(d, s). length s)" by simp
qed simp

declare tokens.simps [simp del]

text \<open>
  \<open>Ascii::unpack\<close> replaces the token vector; the reference it returns is to that vector.
\<close>

definition Ascii_unpack :: "Ascii \<Rightarrow> string \<Rightarrow> Ascii" where
  "Ascii_unpack a str = a\<lparr>toks := tokens (sep a) str\<rparr>"

text \<open>\<open>Ascii::pack\<close>: \<open>v[0]\<close> of an empty vector is undefined.\<close>

definition Ascii_pack :: "Ascii \<Rightarrow> string list \<Rightarrow> string outcome" where
  "Ascii_pack a v = (case v of
      [] \<Rightarrow> Undef Empty_vector_access
    | v0 # vs \<Rightarrow> Val (foldl (\<lambda>ss t. (ss @ [sep a]) @ t) v0 vs))"

fun join :: "char \<Rightarrow> string list \<Rightarrow> string" where
  "join d [] = []"
| "join d [t] = t"
| "join d (t # u # v) = t @ d # join d (u # v)"

lemma foldl_join:
  "foldl (\<lambda>ss t. (ss @ [d]) @ t) a v = (if v = [] then a else a @ d # join d v)"
proof (induction v arbitrary: a)
  case Nil
  then show ?case by simp
next
  case (Cons t v)
  then show ?case using Cons.IH [of "a @ d # t"] by (cases v) simp_all
qed

lemma Ascii_pack_join: "v \<noteq> [] \<Longrightarrow> Ascii_pack a v = Val (join (sep a) v)"
proof (cases v)
  case (Cons v0 vs)
  then show ?thesis by (cases vs) (simp_all add: Ascii_pack_def foldl_join del: append_assoc)
qed simp

lemma tokens_Nil [simp]: "tokens d [] = []"
  by (simp add: tokens.simps getline_def)

lemma tokens_unfold:
  "s \<noteq> [] \<Longrightarrow>
    tokens d s = takeWhile (\<lambda>c. c \<noteq> d) s # tokens d (drop 1 (dropWhile (\<lambda>c. c \<noteq> d) s))"
  by (subst tokens.simps) (simp add: getline_def)

lemma tokens_sep: "d \<notin> set t \<Longrightarrow> tokens d (t @ d # s) = t # tokens d s"
proof -
  assume d: "d \<notin> set t"
  then have "\<forall>x \<in> set t. x \<noteq> d" by blast
  then have "takeWhile (\<lambda>c. c \<noteq> d) (t @ d # s) = t" "dropWhile (\<lambda>c. c \<noteq> d) (t @ d # s) = d # s"
    by (simp_all add: takeWhile_append_stop dropWhile_append)
  then show ?thesis by (simp add: tokens_unfold)
qed

lemma tokens_last: "d \<notin> set t \<Longrightarrow> t \<noteq> [] \<Longrightarrow> tokens d t = [t]"
proof -
  assume d: "d \<notin> set t" and t: "t \<noteq> []"
  then have "takeWhile (\<lambda>c. c \<noteq> d) t = t" "dropWhile (\<lambda>c. c \<noteq> d) t = []"
    by (auto simp: takeWhile_eq_all_conv dropWhile_eq_Nil_conv)
  then show ?thesis by (simp only: tokens_unfold [OF t] drop_Nil tokens_Nil)
qed

text \<open>Splitting undoes joining, but for an empty last token, which \<open>getline\<close> never sees.\<close>

lemma tokens_join:
  "v \<noteq> [] \<Longrightarrow> \<forall>t \<in> set v. d \<notin> set t \<Longrightarrow>
    tokens d (join d v) = (if last v = [] then butlast v else v)"
proof (induction d v rule: join.induct)
  case (1 d)
  then show ?case by simp
next
  case (2 d t)
  then show ?case by (cases "t = []") (simp_all add: tokens_last)
next
  case (3 d t u v)
  then show ?case by (simp add: tokens_sep)
qed

lemma split_at_sep: "d \<in> set s \<Longrightarrow> \<exists>t r. s = t @ d # r \<and> d \<notin> set t"
  by (metis split_list_first)

lemma tokens_free: "t \<in> set (tokens d s) \<Longrightarrow> d \<notin> set t"
proof (induction "length s" arbitrary: s rule: less_induct)
  case less
  show ?case
  proof (cases "d \<in> set s")
    case True
    from split_at_sep [OF this] obtain u r where s: "s = u @ d # r" and u: "d \<notin> set u" by blast
    then have "t = u \<or> t \<in> set (tokens d r)" using less.prems by (simp add: tokens_sep)
    then show ?thesis using u less.hyps [of r] s by auto
  next
    case False
    then show ?thesis using less.prems by (cases "s = []") (simp_all add: tokens_last)
  qed
qed

text \<open>Joining undoes splitting, but for one trailing separator.\<close>

lemma join_tokens:
  "s \<noteq> [] \<Longrightarrow> tokens d s \<noteq> [] \<and> join d (tokens d s) = (if last s = d then butlast s else s)"
proof (induction "length s" arbitrary: s rule: less_induct)
  case less
  show ?case
  proof (cases "d \<in> set s")
    case False
    then show ?thesis using less.prems by (auto simp: tokens_last)
  next
    case True
    from split_at_sep [OF this] obtain t r where s: "s = t @ d # r" and t: "d \<notin> set t" by blast
    show ?thesis
    proof (cases "r = []")
      case True
      with s t show ?thesis by (simp add: tokens_sep butlast_append)
    next
      case False
      then obtain u v where uv: "tokens d r = u # v"
        and j: "join d (u # v) = (if last r = d then butlast r else r)"
        using less.hyps [of r] s by (cases "tokens d r") auto
      with s t False show ?thesis by (simp add: tokens_sep butlast_append)
    qed
  qed
qed

section \<open>Properties\<close>

text \<open>
  C34: \<open>pack\<close> then \<open>unpack\<close>, for tokens free of the separator: the tokens come back, but an
  empty last token is lost. Packing an empty vector reads \<open>v[0]\<close>, which is undefined.
\<close>
theorem unpack_of_pack:
  assumes "\<forall>t \<in> set v. sep a \<notin> set t"
  shows "case Ascii_pack a v of
      Val s \<Rightarrow> toks (Ascii_unpack a s) = (if last v = [] then butlast v else v)
    | r \<Rightarrow> v = [] \<and> r = Undef Empty_vector_access"
proof (cases "v = []")
  case True
  then show ?thesis by (simp add: Ascii_pack_def)
next
  case False
  then show ?thesis using tokens_join [OF False assms] by (simp add: Ascii_pack_join Ascii_unpack_def)
qed

theorem unpack_of_pack_witness:
  "\<exists>s. Ascii_pack (Ascii_ctor (CHR '','')) [''a'', [], ''b c'', []] = Val s \<and>
    toks (Ascii_unpack (Ascii_ctor (CHR '','')) s) = [''a'', [], ''b c'']"
  using unpack_of_pack [of "[''a'', [], ''b c'', []]" "Ascii_ctor (CHR '','')"]
  by (simp add: Ascii_ctor_def Ascii_pack_def)

text \<open>
  \<open>unpack\<close> then \<open>pack\<close>, for any text that is not empty: the text comes back, but for one
  trailing separator; no token contains the separator; the separator is kept and whatever tokens
  the object held before are gone.
\<close>
lemma pack_of_unpack:
  assumes "s \<noteq> []"
  shows "Ascii_pack a (toks (Ascii_unpack b s)) =
      (if sep a = sep b then Val (if last s = sep b then butlast s else s)
       else Ascii_pack a (tokens (sep b) s)) \<and>
    (\<forall>t \<in> set (toks (Ascii_unpack b s)). sep b \<notin> set t) \<and>
    Ascii_unpack (b\<lparr>toks := old\<rparr>) s = Ascii_unpack b s"
proof (intro conjI)
  have "tokens (sep b) s \<noteq> []"
    and "join (sep b) (tokens (sep b) s) = (if last s = sep b then butlast s else s)"
    using join_tokens [OF assms, of "sep b"] by auto
  then show "Ascii_pack a (toks (Ascii_unpack b s)) =
      (if sep a = sep b then Val (if last s = sep b then butlast s else s)
       else Ascii_pack a (tokens (sep b) s))"
    by (simp add: Ascii_unpack_def Ascii_pack_join)
  show "\<forall>t \<in> set (toks (Ascii_unpack b s)). sep b \<notin> set t"
    by (simp add: Ascii_unpack_def tokens_free)
  show "Ascii_unpack (b\<lparr>toks := old\<rparr>) s = Ascii_unpack b s"
    by (simp add: Ascii_unpack_def)
qed

lemma pack_of_unpack_witness:
  "Ascii_pack (Ascii_ctor (CHR '','')) (toks (Ascii_unpack (Ascii_ctor (CHR '','')) ''1,,2,'')) =
    Val ''1,,2''"
  using pack_of_unpack [of "''1,,2,''" "Ascii_ctor (CHR '','')" "Ascii_ctor (CHR '','')"]
  by (simp add: Ascii_ctor_def)

end
