(* ===== verification/Delivery.thy ===== *)
theory Delivery
  imports Network
begin

text \<open>
  One sender and any number of receivers over a network that delivers, all running at the same
  time: whatever the order of their steps, every receiver gets every message once and in the order
  of sending. Stated as a contract of a sender and a receiver (locale \<open>relay\<close>), of which publishers
  and subscribers over both sockets are instances.
\<close>

section \<open>Senders and receivers that run at the same time\<close>

text \<open>
  The receivers, the sender, and what it has still to send: messages, or the single sends that make up the
  publishing of a message. A step sends the next item or runs a turn of one receiver, which blocks while
  nothing waits for it; the label of a turn is the receiver with the message its \<open>recv\<close> returned.
\<close>

type_synonym ('s, 'p, 'i, 'w) relay = "('s list \<times> 'p \<times> 'i list, 'w) mach"

type_synonym relay_event = "(nat \<times> message_t) option"

inductive relay_step ::
  "('i \<Rightarrow> (('p, 'w) mach, unit) act) \<Rightarrow> ('s, 'w, message_t) sock_act \<Rightarrow> ('s, 'w, unit) sock_act \<Rightarrow>
    ('w \<Rightarrow> int \<Rightarrow> datagrams) \<Rightarrow> ('s Socket_scheme, 'p, 'i, 'w) relay \<Rightarrow> relay_event \<Rightarrow>
    ('s Socket_scheme, 'p, 'i, 'w) relay \<Rightarrow> bool"
  for send recv turn queue where
  send: "self s = (rs, p, m # ms) \<Longrightarrow> send m (with_self p s) = (Val (), t) \<Longrightarrow>
    relay_step send recv turn queue s None (with_self (rs, self t, ms) t)"
| turn: "self s = (rs, p, ms) \<Longrightarrow> i < length rs \<Longrightarrow> queue (world s) (socket_fd (rs ! i)) \<noteq> [] \<Longrightarrow>
    fst (recv (with_self (rs ! i) s)) = Val m \<Longrightarrow> turn (with_self (rs ! i) s) = (Val (), t) \<Longrightarrow>
    relay_step send recv turn queue s (Some (i, m)) (with_self (rs[i := self t], p, ms) t)"

inductive relay_run ::
  "('i \<Rightarrow> (('p, 'w) mach, unit) act) \<Rightarrow> ('s, 'w, message_t) sock_act \<Rightarrow> ('s, 'w, unit) sock_act \<Rightarrow>
    ('w \<Rightarrow> int \<Rightarrow> datagrams) \<Rightarrow> ('s Socket_scheme, 'p, 'i, 'w) relay \<Rightarrow> relay_event list \<Rightarrow>
    ('s Socket_scheme, 'p, 'i, 'w) relay \<Rightarrow> bool"
  for send recv turn queue s where
  start: "relay_run send recv turn queue s [] s"
| more: "relay_run send recv turn queue s es t \<Longrightarrow> relay_step send recv turn queue t e u \<Longrightarrow>
    relay_run send recv turn queue s (es @ [e]) u"

text \<open>The messages receiver \<open>i\<close> got, in order.\<close>

definition received :: "nat \<Rightarrow> relay_event list \<Rightarrow> message_t list" where
  "received i es = concat (map (\<lambda>e. case e of
      None \<Rightarrow> [] | Some (j, m) \<Rightarrow> (if j = i then [m] else [])) es)"

lemma received_simps [simp]:
  "received i [] = []" "received i (es @ [None]) = received i es"
  "received i (es @ [Some (j, m)]) = received i es @ (if j = i then [m] else [])"
  by (simp_all add: received_def)

text \<open>
  What an item adds to what waits at a descriptor: \<open>arrives p w it fd\<close>, in the world \<open>w\<close> with the sender \<open>p\<close>.
  What is due to a receiver is what all items add, one after another.
\<close>

definition due :: "('p \<Rightarrow> 'w \<Rightarrow> 'i \<Rightarrow> int \<Rightarrow> message_t list) \<Rightarrow> 'p \<Rightarrow> 'w \<Rightarrow> 'i list \<Rightarrow> int \<Rightarrow> message_t list" where
  "due arrives p w items fd = concat (map (\<lambda>it. arrives p w it fd) items)"

lemma due_simps [simp]:
  "due arrives p w [] fd = []" "due arrives p w (it # items) fd = arrives p w it fd @ due arrives p w items fd"
  by (simp_all add: due_def)

text \<open>
  Where a run starts: the receivers have descriptors of their own, for which nothing waits; each takes what is
  due to it, in this order.
\<close>

definition items_ready ::
  "('w \<Rightarrow> int \<Rightarrow> datagrams) \<Rightarrow> ('p \<Rightarrow> 'w \<Rightarrow> 'i \<Rightarrow> int \<Rightarrow> message_t list) \<Rightarrow>
    ('s Socket_scheme \<Rightarrow> 'w \<Rightarrow> message_t list \<Rightarrow> bool) \<Rightarrow> ('s Socket_scheme, 'p, 'i, 'w) relay \<Rightarrow> bool" where
  "items_ready queue arrives takes s \<longleftrightarrow> (case self s of (rs, p, items) \<Rightarrow>
    distinct (map socket_fd rs) \<and>
    (\<forall>r \<in> set rs. queue (world s) (socket_fd r) = [] \<and>
      takes r (world s) (due arrives p (world s) items (socket_fd r))))"

text \<open>
  The invariant of a run: the sender, the descriptors and what items add stay; for each receiver what it got,
  what waits for it and what is due to it from the items left make up what was due; and it takes all that is
  to come.
\<close>

definition in_transit ::
  "('w \<Rightarrow> int \<Rightarrow> datagrams) \<Rightarrow> ('p \<Rightarrow> 'w \<Rightarrow> 'i \<Rightarrow> int \<Rightarrow> message_t list) \<Rightarrow>
    ('s Socket_scheme \<Rightarrow> 'w \<Rightarrow> message_t list \<Rightarrow> bool) \<Rightarrow>
    ('s Socket_scheme, 'p, 'i, 'w) relay \<Rightarrow> relay_event list \<Rightarrow> ('s Socket_scheme, 'p, 'i, 'w) relay \<Rightarrow> bool" where
  "in_transit queue arrives takes s es t \<longleftrightarrow> (case self s of (rs, p, items) \<Rightarrow> case self t of (rs', p', rest) \<Rightarrow>
    map socket_fd rs' = map socket_fd rs \<and> p' = p \<and> arrives p (world t) = arrives p (world s) \<and>
    (\<forall>i < length rs.
      let fd = socket_fd (rs ! i);
          ms = map fst (queue (world t) fd) @ due arrives p (world s) rest fd
      in received i es @ ms = due arrives p (world s) items fd \<and> takes (rs' ! i) (world t) ms))"

section \<open>The contract\<close>

text \<open>
  \<open>takes r w ms\<close>: in the world \<open>w\<close> the receiver \<open>r\<close> can take the messages \<open>ms\<close>, whole and in this order. Neither
  sending nor a turn of another receiver changes that, and what a turn does with a message leaves the network
  alone.
\<close>

locale item_relay =
  fixes send :: "'i \<Rightarrow> (('p, 'w) mach, unit) act"
    and recv :: "('s, 'w, message_t) sock_act" and turn :: "('s, 'w, unit) sock_act"
    and queue :: "'w \<Rightarrow> int \<Rightarrow> datagrams"
    and arrives :: "'p \<Rightarrow> 'w \<Rightarrow> 'i \<Rightarrow> int \<Rightarrow> message_t list"
    and takes :: "'s Socket_scheme \<Rightarrow> 'w \<Rightarrow> message_t list \<Rightarrow> bool"
    and law :: bool
  assumes send_arrives: "law \<Longrightarrow> \<exists>t. send it s = (Val (), t) \<and> self t = self s \<and>
      arrives (self s) (world t) = arrives (self s) (world s) \<and>
      (\<forall>fd. map fst (queue (world t) fd) = map fst (queue (world s) fd) @ arrives (self s) (world s) it fd) \<and>
      (\<forall>r ms. takes r (world s) ms \<longrightarrow> takes r (world t) ms)"
    and turn_takes: "law \<Longrightarrow> takes (self r) (world r) (m # ms) \<Longrightarrow>
      queue (world r) (socket_fd (self r)) = (m, src) # ds \<Longrightarrow>
      fst (recv r) = Val m \<and> (\<exists>t. turn r = (Val (), t) \<and> socket_fd (self t) = socket_fd (self r) \<and>
        takes (self t) (world t) ms \<and>
        queue (world t) = (queue (world r))(socket_fd (self r) := ds) \<and>
        (\<forall>p. arrives p (world t) = arrives p (world r)) \<and>
        (\<forall>r' ms'. socket_fd r' \<noteq> socket_fd (self r) \<longrightarrow> takes r' (world r) ms' \<longrightarrow> takes r' (world t) ms'))"
begin

lemma ready_in_transit: "items_ready queue arrives takes s \<Longrightarrow> in_transit queue arrives takes s [] s"
  by (auto simp: items_ready_def in_transit_def Let_def)

lemma step_in_transit:
  assumes law and ready: "items_ready queue arrives takes s" and inv: "in_transit queue arrives takes s es t"
    and step: "relay_step send recv turn queue t e u"
  shows "in_transit queue arrives takes s (es @ [e]) u"
proof -
  obtain rs p items where s: "self s = (rs, p, items)" using prod_cases3 by blast
  let ?due = "due arrives p (world s)"
  obtain rs' rest where t: "self t = (rs', p, rest)" and fds: "map socket_fd rs' = map socket_fd rs"
    and arr: "arrives p (world t) = arrives p (world s)"
    and tr: "\<And>i. i < length rs \<Longrightarrow> received i es @ map fst (queue (world t) (socket_fd (rs ! i))) @
        ?due rest (socket_fd (rs ! i)) = ?due items (socket_fd (rs ! i))"
      "\<And>i. i < length rs \<Longrightarrow> takes (rs' ! i) (world t)
        (map fst (queue (world t) (socket_fd (rs ! i))) @ ?due rest (socket_fd (rs ! i)))"
    using inv s by (auto simp: in_transit_def Let_def split: prod.splits)
  have dist: "distinct (map socket_fd rs)" using ready s by (auto simp: items_ready_def)
  have len: "length rs' = length rs" using fds by (metis length_map)
  have fd: "socket_fd (rs' ! i) = socket_fd (rs ! i)" if "i < length rs" for i
    using fds that len by (metis nth_map)
  from step show ?thesis
  proof cases
    case (send rs0 p0 it rest0 v)
    with t have m: "rs0 = rs'" "p0 = p" "rest = it # rest0" by auto
    from send_arrives [OF assms(1), of it "with_self p t"] send m arr
    have v: "self v = p" "arrives p (world v) = arrives p (world s)"
      "\<And>fd. map fst (queue (world v) fd) = map fst (queue (world t) fd) @ arrives p (world s) it fd"
      "\<And>r ms. takes r (world t) ms \<Longrightarrow> takes r (world v) ms"
      by auto
    have "takes (rs' ! i) (world v)
        (map fst (queue (world v) (socket_fd (rs ! i))) @ ?due rest0 (socket_fd (rs ! i)))" if "i < length rs" for i
      using v(4) [OF tr(2) [OF that]] v(3) m(3) by simp
    then show ?thesis using send(1,2) m v s fds tr(1) by (auto simp: in_transit_def Let_def)
  next
    case (turn rs0 p0 rest0 i m v)
    with t have rs: "rs0 = rs'" "p0 = p" "rest0 = rest" "i < length rs" by (auto simp: len)
    obtain m' src ds where q: "queue (world t) (socket_fd (rs ! i)) = (m', src) # ds"
      using turn rs fd [OF rs(4)] by (cases "queue (world t) (socket_fd (rs ! i))") auto
    have "takes (self (with_self (rs' ! i) t)) (world (with_self (rs' ! i) t))
        (m' # (map fst ds @ ?due rest (socket_fd (rs ! i))))"
      using tr(2) [OF rs(4)] q by simp
    from turn_takes [OF assms(1) this, of src ds] q turn rs fd [OF rs(4)]
    have v: "m = m'" "socket_fd (self v) = socket_fd (rs ! i)"
      "takes (self v) (world v) (map fst ds @ ?due rest (socket_fd (rs ! i)))"
      "queue (world v) = (queue (world t))(socket_fd (rs ! i) := ds)"
      "\<And>p. arrives p (world v) = arrives p (world t)"
      "\<And>r' ms'. socket_fd r' \<noteq> socket_fd (rs ! i) \<Longrightarrow> takes r' (world t) ms' \<Longrightarrow> takes r' (world v) ms'"
      by auto
    have other: "socket_fd (rs ! j) \<noteq> socket_fd (rs ! i)" if "j < length rs" "j \<noteq> i" for j
      using dist that rs(4) by (simp add: distinct_conv_nth)
    have "received j (es @ [e]) @ map fst (queue (world v) (socket_fd (rs ! j))) @ ?due rest (socket_fd (rs ! j)) =
          ?due items (socket_fd (rs ! j)) \<and>
        takes (rs'[i := self v] ! j) (world v)
          (map fst (queue (world v) (socket_fd (rs ! j))) @ ?due rest (socket_fd (rs ! j)))"
      if j: "j < length rs" for j
    proof (cases "j = i")
      case True
      then show ?thesis using tr(1) [OF j] q v(1,3,4) turn(1) rs len by simp
    next
      case False
      then show ?thesis
        using tr [OF j] other [OF j False] v(4) v(6) [of "rs' ! j"] fd [OF j] turn(1) by simp
    qed
    moreover have "map socket_fd (rs'[i := self v]) = map socket_fd rs"
      using fds v(2) rs(4) by (simp add: map_update list_update_same_conv)
    ultimately show ?thesis using turn(2) s v(5) rs arr by (simp add: in_transit_def Let_def)
  qed
qed

lemma run_in_transit:
  assumes law and "items_ready queue arrives takes s" and "relay_run send recv turn queue s es t"
  shows "in_transit queue arrives takes s es t"
  using assms(3)
proof (induction rule: relay_run.induct)
  case start
  show ?case by (rule ready_in_transit [OF assms(2)])
next
  case (more es t e u)
  show ?case by (rule step_in_transit [OF assms(1,2) more.IH more.hyps(2)])
qed

text \<open>Every step is the sending of one item or the receiving of one message by one receiver.\<close>

lemma run_length:
  assumes law and "items_ready queue arrives takes s" and "relay_run send recv turn queue s es t"
  shows "length es + length (snd (snd (self t))) =
    length (snd (snd (self s))) + (\<Sum>i < length (fst (self s)). length (received i es))"
  using assms(3)
proof (induction rule: relay_run.induct)
  case start
  show ?case by simp
next
  case (more es t e u)
  have "length (fst (self t)) = length (fst (self s))"
    using run_in_transit [OF assms(1,2) more.hyps(1)]
    by (auto simp: in_transit_def split: prod.splits dest: map_eq_imp_length_eq)
  with more.hyps(2) more.IH show ?case
    by cases (auto simp: sum.distrib sum.delta if_distrib [of length] cong: if_cong)
qed

text \<open>As long as something is to be sent or waits, some step is possible.\<close>

lemma run_progress:
  assumes law and "items_ready queue arrives takes s" and "relay_run send recv turn queue s es t"
    and stuck: "\<forall>e u. \<not> relay_step send recv turn queue t e u"
    and s: "self s = (rs, p, items)" and i: "i < length rs"
  shows "received i es = due arrives p (world s) items (socket_fd (rs ! i))"
proof -
  let ?due = "due arrives p (world s)" and ?fd = "socket_fd (rs ! i)"
  obtain rs' rest where t: "self t = (rs', p, rest)" "length rs' = length rs" "socket_fd (rs' ! i) = ?fd"
    and all: "received i es @ map fst (queue (world t) ?fd) @ ?due rest ?fd = ?due items ?fd"
    and takes: "takes (rs' ! i) (world t) (map fst (queue (world t) ?fd) @ ?due rest ?fd)"
    using run_in_transit [OF assms(1-3)] s i
    by (auto simp: in_transit_def Let_def split: prod.splits dest: map_eq_imp_length_eq)
      (metis map_eq_imp_length_eq nth_map)
  have "rest = []"
  proof (cases rest)
    case (Cons it rest')
    obtain v where "send it (with_self p t) = (Val (), v)" using send_arrives [OF assms(1)] by blast
    with t Cons have "relay_step send recv turn queue t None (with_self (rs', self v, rest') v)"
      by (intro relay_step.send) simp_all
    with stuck show ?thesis by blast
  qed
  moreover have "queue (world t) ?fd = []"
  proof (cases "queue (world t) ?fd")
    case (Cons x ds)
    obtain m src where x: "x = (m, src)" by (cases x)
    have "takes (self (with_self (rs' ! i) t)) (world (with_self (rs' ! i) t)) (m # (map fst ds @ ?due rest ?fd))"
      using takes Cons x by simp
    from turn_takes [OF assms(1) this, of src ds] Cons x t(3)
    obtain v where "fst (recv (with_self (rs' ! i) t)) = Val m" "turn (with_self (rs' ! i) t) = (Val (), v)"
      by auto
    with t Cons i have "relay_step send recv turn queue t (Some (i, m)) (with_self (rs'[i := self v], p, rest) v)"
      by (intro relay_step.turn) simp_all
    with stuck show ?thesis by blast
  qed
  ultimately show ?thesis using all by simp
qed

text \<open>All of it together: in order, bounded, and complete.\<close>

lemma items_delivered:
  assumes law and "items_ready queue arrives takes s" and "self s = (rs, p, items)"
    and "relay_run send recv turn queue s es t"
  shows "(\<forall>i < length rs. received i es @ map fst (queue (world t) (socket_fd (rs ! i))) @
        due arrives p (world s) (snd (snd (self t))) (socket_fd (rs ! i)) =
      due arrives p (world s) items (socket_fd (rs ! i))) \<and>
    length es \<le> length items + (\<Sum>i < length rs. length (due arrives p (world s) items (socket_fd (rs ! i)))) \<and>
    ((\<forall>e u. \<not> relay_step send recv turn queue t e u) \<longrightarrow>
      (\<forall>i < length rs. received i es = due arrives p (world s) items (socket_fd (rs ! i))))"
proof (intro conjI impI)
  show parts: "\<forall>i < length rs. received i es @ map fst (queue (world t) (socket_fd (rs ! i))) @
        due arrives p (world s) (snd (snd (self t))) (socket_fd (rs ! i)) =
      due arrives p (world s) items (socket_fd (rs ! i))"
    using run_in_transit [OF assms(1,2,4)] assms(3) by (auto simp: in_transit_def Let_def split: prod.splits)
  have "length (received i es) \<le> length (due arrives p (world s) items (socket_fd (rs ! i)))" if "i < length rs" for i
    using parts that by (metis le_add1 length_append)
  then have "(\<Sum>i < length rs. length (received i es)) \<le>
      (\<Sum>i < length rs. length (due arrives p (world s) items (socket_fd (rs ! i))))"
    by (intro sum_mono) simp
  then show "length es \<le> length items + (\<Sum>i < length rs. length (due arrives p (world s) items (socket_fd (rs ! i))))"
    using run_length [OF assms(1,2,4)] assms(3) by simp
  show "\<forall>i < length rs. received i es = due arrives p (world s) items (socket_fd (rs ! i))"
    if "\<forall>e u. \<not> relay_step send recv turn queue t e u"
    using run_progress [OF assms(1,2,4) that assms(3)] by simp
qed

text \<open>As no run is longer than that, some run goes on until no endpoint can.\<close>

lemma complete_items_exist:
  assumes law and "items_ready queue arrives takes s"
  shows "\<exists>es t. relay_run send recv turn queue s es t \<and> (\<forall>e u. \<not> relay_step send recv turn queue t e u)"
proof -
  obtain rs p items where s: "self s = (rs, p, items)" using prod_cases3 by blast
  have "length es \<le> length items + (\<Sum>i < length rs. length (due arrives p (world s) items (socket_fd (rs ! i))))"
    if "relay_run send recv turn queue s es t" for es t
    using items_delivered [OF assms s that] by blast
  then show ?thesis
    by (rule maximal_run_exists [where run = "relay_run send recv turn queue s"
        and step = "relay_step send recv turn queue", OF relay_run.start]) (assumption, rule relay_run.more)
qed

end

section \<open>Messages that arrive once\<close>

text \<open>The items are messages, and at the descriptors that are \<open>linked\<close> to the sender each arrives once.\<close>

definition relay_ready ::
  "('w \<Rightarrow> int \<Rightarrow> datagrams) \<Rightarrow> ('p \<Rightarrow> 'w \<Rightarrow> int \<Rightarrow> bool) \<Rightarrow> ('s Socket_scheme \<Rightarrow> 'w \<Rightarrow> message_t list \<Rightarrow> bool) \<Rightarrow>
    ('s Socket_scheme, 'p, message_t, 'w) relay \<Rightarrow> bool" where
  "relay_ready queue linked takes s \<longleftrightarrow> (case self s of (rs, p, msgs) \<Rightarrow>
    distinct (map socket_fd rs) \<and>
    (\<forall>r \<in> set rs. queue (world s) (socket_fd r) = [] \<and> linked p (world s) (socket_fd r) \<and>
      takes r (world s) msgs))"

locale relay = item_relay send recv turn queue arrives takes law
  for send :: "message_t \<Rightarrow> (('p, 'w) mach, unit) act"
    and recv :: "('s, 'w, message_t) sock_act" and turn :: "('s, 'w, unit) sock_act"
    and queue :: "'w \<Rightarrow> int \<Rightarrow> datagrams"
    and arrives :: "'p \<Rightarrow> 'w \<Rightarrow> message_t \<Rightarrow> int \<Rightarrow> message_t list"
    and takes :: "'s Socket_scheme \<Rightarrow> 'w \<Rightarrow> message_t list \<Rightarrow> bool"
    and law :: bool +
  fixes linked :: "'p \<Rightarrow> 'w \<Rightarrow> int \<Rightarrow> bool"
  assumes linked_once: "linked p w fd \<Longrightarrow> arrives p w m fd = [m]"
begin

lemma due_linked: "linked p w fd \<Longrightarrow> due arrives p w msgs fd = msgs"
  by (induction msgs) (simp_all add: linked_once)

lemma relay_items_ready:
  "relay_ready queue linked takes s \<Longrightarrow> items_ready queue arrives takes s"
  by (auto simp: relay_ready_def items_ready_def due_linked)

lemma relay_delivers:
  assumes law and ready: "relay_ready queue linked takes s" and s: "self s = (rs, p, msgs)"
    and "relay_run send recv turn queue s es t"
  shows "(\<forall>i < length rs.
      received i es @ map fst (queue (world t) (socket_fd (rs ! i))) @ snd (snd (self t)) = msgs) \<and>
    length es \<le> length msgs * Suc (length rs) \<and>
    ((\<forall>e u. \<not> relay_step send recv turn queue t e u) \<longrightarrow> (\<forall>i < length rs. received i es = msgs))"
proof -
  have "linked p (world s) (socket_fd (rs ! i))" if "i < length rs" for i
    using ready s that by (auto simp: relay_ready_def)
  then have due: "due arrives p (world s) ms (socket_fd (rs ! i)) = ms" if "i < length rs" for i ms
    using that by (simp add: due_linked)
  then have "(\<Sum>i < length rs. length (due arrives p (world s) msgs (socket_fd (rs ! i)))) = length rs * length msgs"
    by simp
  with items_delivered [OF assms(1) relay_items_ready [OF ready] s assms(4)]
  show ?thesis by (auto simp: due mult.commute)
qed

lemma complete_run_exists:
  assumes law and "relay_ready queue linked takes s"
  shows "\<exists>es t. relay_run send recv turn queue s es t \<and> (\<forall>e u. \<not> relay_step send recv turn queue t e u)"
  using complete_items_exist [OF assms(1) relay_items_ready [OF assms(2)]] .

end

section \<open>Publishers and subscribers\<close>

text \<open>
  A message arrives at a descriptor as often as registered addresses of its publisher do; the publisher is
  linked to the descriptors at which exactly one arrives. A subscriber listens to messages of its size, with callbacks that return and do not send or receive.
\<close>

definition published_to ::
  "('w \<Rightarrow> byte list \<Rightarrow> int \<Rightarrow> bool) \<Rightarrow> ('a \<Rightarrow> byte list) \<Rightarrow> ('a, 'y) Publisher_scheme \<Rightarrow> 'w \<Rightarrow> int \<Rightarrow> bool" where
  "published_to reaches addr_bytes p w fd \<longleftrightarrow>
    length (filter (\<lambda>a. reaches w (addr_bytes a) fd) (clientaddrs p)) = 1"

definition publishes ::
  "('w \<Rightarrow> byte list \<Rightarrow> int \<Rightarrow> bool) \<Rightarrow> ('a \<Rightarrow> byte list) \<Rightarrow> ('a, 'y) Publisher_scheme \<Rightarrow> 'w \<Rightarrow> message_t \<Rightarrow> int \<Rightarrow>
    message_t list" where
  "publishes reaches addr_bytes p w m fd =
    replicate (length (filter (\<lambda>a. reaches w (addr_bytes a) fd) (clientaddrs p))) m"

definition quiet_callback ::
  "('w \<Rightarrow> int \<Rightarrow> datagrams) \<Rightarrow> ('w \<Rightarrow> int \<Rightarrow> byte list) \<Rightarrow> ('w \<Rightarrow> byte list \<Rightarrow> int \<Rightarrow> bool) \<Rightarrow>
    ('w, unit) callback \<Rightarrow> bool" where
  "quiet_callback queue addr_of reaches cb \<longleftrightarrow>
    (\<forall>m w. fst (cb m w) = Val () \<and> net_becomes queue addr_of reaches w (queue w) (fst (snd (cb m w))))"

definition listens ::
  "('w \<Rightarrow> int \<Rightarrow> datagrams) \<Rightarrow> ('w \<Rightarrow> int \<Rightarrow> byte list) \<Rightarrow> ('w \<Rightarrow> byte list \<Rightarrow> int \<Rightarrow> bool) \<Rightarrow>
    ('w, 'y) Subscriber_scheme \<Rightarrow> 'w \<Rightarrow> message_t list \<Rightarrow> bool" where
  "listens queue addr_of reaches r w ms \<longleftrightarrow> (\<forall>m \<in> set ms. m \<noteq> [] \<and> length m = data_size r) \<and>
    (\<forall>cb \<in> set (callbacks r). quiet_callback queue addr_of reaches cb)"

lemma run_callbacks_quiet:
  assumes "\<forall>cb \<in> set cbs. quiet_callback queue addr_of reaches cb"
  shows "fst (run_callbacks cbs m w) = Val () \<and>
    net_becomes queue addr_of reaches w (queue w) (fst (snd (run_callbacks cbs m w)))"
  using assms
proof (induction cbs arbitrary: w)
  case Nil
  then show ?case by (simp add: net_becomes_def)
next
  case (Cons cb cbs)
  obtain r w' out where cb: "cb m w = (r, w', out)" by (cases "cb m w")
  then have "r = Val ()" "net_becomes queue addr_of reaches w (queue w) w'"
    using Cons.prems unfolding quiet_callback_def by (metis fst_conv snd_conv list.set_intros(1))+
  with cb Cons show ?case
    by (auto simp: net_becomes_def split: prod.split dest!: meta_spec [where x = w'])
qed

locale pub_sub_network =
  pub: delivering_socket recv recvfrom sendto addr_bytes law queue addr_of reaches addr_size +
  sub: delivering_socket recv' recvfrom' sendto' addr_bytes law queue addr_of reaches addr_size
  for recv :: "nat \<Rightarrow> ((('addr, 'y) Publisher_scheme, 'w) mach, message_t) act"
    and recvfrom :: "nat \<Rightarrow> 'addr option \<Rightarrow>
      ((('addr, 'y) Publisher_scheme, 'w) mach, message_t \<times> 'addr option) act"
    and sendto :: "message_t \<Rightarrow> 'addr \<Rightarrow> ((('addr, 'y) Publisher_scheme, 'w) mach, int) act"
    and addr_bytes law queue addr_of reaches addr_size
    and recv' :: "nat \<Rightarrow> ((('w, 'z) Subscriber_scheme, 'w) mach, message_t) act"
    and recvfrom' :: "nat \<Rightarrow> 'addr option \<Rightarrow>
      ((('w, 'z) Subscriber_scheme, 'w) mach, message_t \<times> 'addr option) act"
    and sendto' :: "message_t \<Rightarrow> 'addr \<Rightarrow> ((('w, 'z) Subscriber_scheme, 'w) mach, int) act"
begin

lemma send_all_arrives:
  assumes law
  shows "\<exists>t. for_each addrs (\<lambda>a. bnd (sendto m a) (\<lambda>_. ret ())) s = (Val (), t) \<and> self t = self s \<and>
    reaches (world t) = reaches (world s) \<and>
    (\<forall>fd. map fst (queue (world t) fd) = map fst (queue (world s) fd) @
      replicate (length (filter (\<lambda>a. reaches (world s) (addr_bytes a) fd) addrs)) m)"
proof (induction addrs arbitrary: s)
  case Nil
  show ?case by (simp add: ret_apply)
next
  case (Cons a addrs)
  obtain num t where t: "sendto m a s = (Val num, t)" "self t = self s" "reaches (world t) = reaches (world s)"
    "\<And>g. map fst (queue (world t) g) =
      map fst (queue (world s) g) @ (if reaches (world s) (addr_bytes a) g then [m] else [])"
    using pub.sendto_delivers [OF assms, of m a s] by (auto simp: net_becomes_def)
  obtain u where u: "for_each addrs (\<lambda>a. bnd (sendto m a) (\<lambda>_. ret ())) t = (Val (), u)" "self u = self t"
    "reaches (world u) = reaches (world t)"
    "\<And>fd. map fst (queue (world u) fd) = map fst (queue (world t) fd) @
      replicate (length (filter (\<lambda>a. reaches (world t) (addr_bytes a) fd) addrs)) m"
    using Cons.IH [of t] by blast
  have "for_each (a # addrs) (\<lambda>a. bnd (sendto m a) (\<lambda>_. ret ())) s = (Val (), u)"
    using t(1) u(1) by (simp add: bnd_case ret_apply)
  with t(2-) u(2-) show ?case by (intro exI [of _ u]) auto
qed

sublocale relay "Publisher_publish sendto" "\<lambda>s. recv' (data_size (self s)) s" "Subscriber_once recv'" queue
  "publishes reaches addr_bytes" "listens queue addr_of reaches" law "published_to reaches addr_bytes"
proof unfold_locales
  fix m and s :: "(('addr, 'y) Publisher_scheme, 'w) mach"
  assume law
  then obtain t where "Publisher_publish sendto m s = (Val (), t)" "self t = self s"
    "reaches (world t) = reaches (world s)"
    "\<And>fd. map fst (queue (world t) fd) = map fst (queue (world s) fd) @
      replicate (length (filter (\<lambda>a. reaches (world s) (addr_bytes a) fd) (clientaddrs (self s)))) m"
    using send_all_arrives [of "clientaddrs (self s)" m s]
    by (auto simp: Publisher_publish_def bnd_case gets_apply)
  then show "\<exists>t. Publisher_publish sendto m s = (Val (), t) \<and> self t = self s \<and>
      publishes reaches addr_bytes (self s) (world t) = publishes reaches addr_bytes (self s) (world s) \<and>
      (\<forall>fd. map fst (queue (world t) fd) =
        map fst (queue (world s) fd) @ publishes reaches addr_bytes (self s) (world s) m fd) \<and>
      (\<forall>(r :: ('w, 'z) Subscriber_scheme) ms. listens queue addr_of reaches r (world s) ms \<longrightarrow>
        listens queue addr_of reaches r (world t) ms)"
    by (intro exI [of _ t]) (simp add: publishes_def listens_def fun_eq_iff)
next
  fix r :: "(('w, 'z) Subscriber_scheme, 'w) mach" and m ms src ds
  assume law: law and fits: "listens queue addr_of reaches (self r) (world r) (m # ms)"
    and q: "queue (world r) (socket_fd (self r)) = (m, src) # ds"
  obtain t where t: "recv' (data_size (self r)) r = (Val m, t)" "self t = self r"
    "net_becomes queue addr_of reaches (world r) ((queue (world r))(socket_fd (self r) := ds)) (world t)"
    using sub.recv_delivers [OF law q, of "data_size (self r)"] fits by (auto simp: listens_def)
  let ?c = "run_callbacks (callbacks (self r)) m (world t)"
  have c: "fst ?c = Val ()" "net_becomes queue addr_of reaches (world t) (queue (world t)) (fst (snd ?c))"
    using run_callbacks_quiet [of "callbacks (self r)" queue addr_of reaches m "world t"] fits
    by (auto simp: listens_def)
  have "Subscriber_once recv' r = (Val (), after_callback ?c t)"
    using t c(1) fits by (simp add: Subscriber_once_def bnd_case gets_apply for_each_call listens_def)
  with t c(2) fits show "fst (recv' (data_size (self r)) r) = Val m \<and>
      (\<exists>t. Subscriber_once recv' r = (Val (), t) \<and> socket_fd (self t) = socket_fd (self r) \<and>
        listens queue addr_of reaches (self t) (world t) ms \<and>
        queue (world t) = (queue (world r))(socket_fd (self r) := ds) \<and>
        (\<forall>p :: ('addr, 'y) Publisher_scheme. publishes reaches addr_bytes p (world t) = publishes reaches addr_bytes p (world r)) \<and>
        (\<forall>(r' :: ('w, 'z) Subscriber_scheme) ms'. socket_fd r' \<noteq> socket_fd (self r) \<longrightarrow>
          listens queue addr_of reaches r' (world r) ms' \<longrightarrow> listens queue addr_of reaches r' (world t) ms'))"
    by (auto simp: net_becomes_def publishes_def listens_def fun_eq_iff)
qed (simp add: published_to_def publishes_def)

end

interpretation pub_sub_udp: pub_sub_network
  "\<lambda>n. SocketUDP_recv P n 0" "\<lambda>n from. SocketUDP_recvfrom P n from 0" "\<lambda>m a. SocketUDP_sendto P m a 0"
  inet_bytes "dgram_law P queue addr_of reaches" queue addr_of reaches sizeof_inet
  "\<lambda>n. SocketUDP_recv P n 0" "\<lambda>n from. SocketUDP_recvfrom P n from 0" "\<lambda>m a. SocketUDP_sendto P m a 0"
  for P queue addr_of reaches ..

interpretation pub_sub_unix: pub_sub_network
  "\<lambda>n. SocketUnix_recv P n 0" "\<lambda>n from. SocketUnix_recvfrom P n from 0" "\<lambda>m a. SocketUnix_sendto P m a 0"
  unix_bytes "dgram_law P queue addr_of reaches" queue addr_of reaches sizeof_unix
  "\<lambda>n. SocketUnix_recv P n 0" "\<lambda>n from. SocketUnix_recvfrom P n from 0" "\<lambda>m a. SocketUnix_sendto P m a 0"
  for P queue addr_of reaches ..

end
