(* ===== verification/Delivery_Log.thy ===== *)
theory Delivery_Log
  imports Delivery
begin

text \<open>
  What a sender and its receivers are together: a log that one side appends to and each receiver reads at its
  own position. The system of \<open>Delivery\<close>, with the network in between, has exactly the runs of this log.
\<close>

section \<open>The log\<close>

text \<open>How much of \<open>log\<close> has been appended, and the position of each reader. The labels are those of a relay.\<close>

type_synonym log_state = "nat \<times> nat list"

inductive log_step :: "message_t list \<Rightarrow> log_state \<Rightarrow> relay_event \<Rightarrow> log_state \<Rightarrow> bool" for log where
  append: "n < length log \<Longrightarrow> log_step log (n, ps) None (Suc n, ps)"
| read: "i < length ps \<Longrightarrow> ps ! i < n \<Longrightarrow> log_step log (n, ps) (Some (i, log ! (ps ! i))) (n, ps[i := Suc (ps ! i)])"

inductive log_run :: "message_t list \<Rightarrow> log_state \<Rightarrow> relay_event list \<Rightarrow> log_state \<Rightarrow> bool" for log c where
  start: "log_run log c [] c"
| more: "log_run log c es d \<Longrightarrow> log_step log d e d' \<Longrightarrow> log_run log c (es @ [e]) d'"

inductive_simps log_step_append: "log_step log (n, ps) None d"
inductive_simps log_step_read: "log_step log (n, ps) (Some (i, m)) d"

lemma log_step_unique: "log_step log c e d \<Longrightarrow> log_step log c e d' \<Longrightarrow> d = d'"
  by (auto elim!: log_step.cases)

text \<open>The log that a state of a relay stands for: a reader is behind by what waits for it.\<close>

definition log_of ::
  "('w \<Rightarrow> int \<Rightarrow> datagrams) \<Rightarrow> message_t list \<Rightarrow> ('s Socket_scheme, 'p, message_t, 'w) relay \<Rightarrow> log_state" where
  "log_of queue log t = (case self t of (rs, p, rest) \<Rightarrow>
    (length log - length rest,
     map (\<lambda>r. length log - length rest - length (queue (world t) (socket_fd r))) rs))"

lemma log_after_send:
  assumes "self t = (rs, p, m # rest)" and "self u = (rs, p, rest)" and le: "length (m # rest) \<le> length msgs"
    and more: "\<forall>r \<in> set rs. length (queue (world u) (socket_fd r)) = Suc (length (queue (world t) (socket_fd r)))"
  shows "log_step msgs (log_of queue msgs t) None (log_of queue msgs u)"
proof -
  let ?n = "length msgs - length (m # rest)"
  have "length msgs - length rest = Suc ?n" using le by simp
  then have "log_of queue msgs u = (Suc ?n, snd (log_of queue msgs t))"
    using assms(1,2) more by (simp add: log_of_def cong: map_cong)
  moreover have "log_of queue msgs t = (?n, snd (log_of queue msgs t))" using assms(1) by (simp add: log_of_def)
  moreover have "?n < length msgs" using le by simp
  ultimately show ?thesis by (metis log_step.append)
qed

lemma log_after_turn:
  assumes "self t = (rs, p, rest)" and "self u = (rs[i := r], p, rest)" and i: "i < length rs"
    and dist: "distinct (map socket_fd rs)" and r: "socket_fd r = socket_fd (rs ! i)"
    and q: "queue (world t) (socket_fd r) = (m, src) # ds"
    and u: "queue (world u) = (queue (world t))(socket_fd r := ds)"
    and all: "got @ (m # map fst ds) @ rest = msgs"
  shows "log_step msgs (log_of queue msgs t) (Some (i, m)) (log_of queue msgs u)"
proof -
  define n where "n = length msgs - length rest"
  define pos where "pos = map (\<lambda>r. n - length (queue (world t) (socket_fd r))) rs"
  have n: "n = length got + Suc (length ds)" unfolding n_def all [symmetric] by simp
  have pos: "pos ! i = length got" using i by (simp add: pos_def r [symmetric] q n)
  have m: "msgs ! (pos ! i) = m" unfolding pos all [symmetric] by simp
  have t: "log_of queue msgs t = (n, pos)" using assms(1) by (simp add: log_of_def n_def pos_def)
  have "map (\<lambda>r. n - length (queue (world u) (socket_fd r))) (rs[i := r]) = pos[i := Suc (pos ! i)]"
  proof (rule nth_equalityI)
    fix j assume "j < length (map (\<lambda>r. n - length (queue (world u) (socket_fd r))) (rs[i := r]))"
    then have j: "j < length rs" by simp
    show "map (\<lambda>r. n - length (queue (world u) (socket_fd r))) (rs[i := r]) ! j = pos[i := Suc (pos ! i)] ! j"
    proof (cases "j = i")
      case True
      then show ?thesis using j i by (simp add: pos u n pos_def [symmetric]) (simp add: pos_def)
    next
      case False
      then have "socket_fd (rs ! j) \<noteq> socket_fd r" using dist j i r by (simp add: distinct_conv_nth)
      with False show ?thesis using j by (simp add: pos_def u)
    qed
  qed (simp add: pos_def)
  then have "log_of queue msgs u = (n, pos[i := Suc (pos ! i)])" using assms(2) by (simp add: log_of_def n_def)
  with t m log_step.read [of i pos n msgs] i n pos show ?thesis by (simp add: pos_def)
qed

section \<open>A relay refines its log\<close>

context relay
begin

lemma transit_parts:
  assumes law and ready: "relay_ready queue linked takes s" and s: "self s = (rs, p, msgs)"
    and run: "relay_run send recv turn queue s es t"
  shows "\<exists>rs' rest. self t = (rs', p, rest) \<and> map socket_fd rs' = map socket_fd rs \<and>
    distinct (map socket_fd rs') \<and> arrives p (world t) = arrives p (world s) \<and>
    (\<forall>i < length rs'.
      received i es @ map fst (queue (world t) (socket_fd (rs' ! i))) @ rest = msgs \<and>
      (\<forall>m. arrives p (world s) m (socket_fd (rs' ! i)) = [m]) \<and>
      takes (rs' ! i) (world t) (map fst (queue (world t) (socket_fd (rs' ! i))) @ rest))"
proof -
  obtain rs' rest where t: "self t = (rs', p, rest)" "map socket_fd rs' = map socket_fd rs"
    "arrives p (world t) = arrives p (world s)"
    and i: "\<And>i. i < length rs \<Longrightarrow>
      received i es @ map fst (queue (world t) (socket_fd (rs ! i))) @
        due arrives p (world s) rest (socket_fd (rs ! i)) = due arrives p (world s) msgs (socket_fd (rs ! i)) \<and>
      takes (rs' ! i) (world t)
        (map fst (queue (world t) (socket_fd (rs ! i))) @ due arrives p (world s) rest (socket_fd (rs ! i)))"
    using run_in_transit [OF assms(1) relay_items_ready [OF ready] run] s
    by (auto simp: in_transit_def Let_def split: prod.splits)
  have len: "length rs' = length rs" using t(2) by (metis length_map)
  have fd: "socket_fd (rs' ! i) = socket_fd (rs ! i)" if "i < length rs" for i
    using t(2) that len by (metis nth_map)
  have link: "linked p (world s) (socket_fd (rs ! i))" if "i < length rs" for i
    using ready s that by (auto simp: relay_ready_def)
  show ?thesis
    by (rule exI [of _ rs'], rule exI [of _ rest])
      (use ready s t i fd link len in \<open>auto simp: relay_ready_def due_linked linked_once\<close>)
qed

lemma log_of_start: "relay_ready queue linked takes s \<Longrightarrow> self s = (rs, p, msgs) \<Longrightarrow>
    log_of queue msgs s = (0, replicate (length rs) 0)"
  by (simp add: log_of_def map_replicate_const relay_ready_def cong: map_cong)

lemma step_refines_log:
  assumes law and ready: "relay_ready queue linked takes s" and s: "self s = (rs, p, msgs)"
    and run: "relay_run send recv turn queue s es t" and step: "relay_step send recv turn queue t e u"
  shows "log_step msgs (log_of queue msgs t) e (log_of queue msgs u)"
proof -
  obtain rs' rest where conj: "self t = (rs', p, rest) \<and> map socket_fd rs' = map socket_fd rs \<and>
    distinct (map socket_fd rs') \<and> arrives p (world t) = arrives p (world s) \<and>
    (\<forall>i < length rs'.
      received i es @ map fst (queue (world t) (socket_fd (rs' ! i))) @ rest = msgs \<and>
      (\<forall>m. arrives p (world s) m (socket_fd (rs' ! i)) = [m]) \<and>
      takes (rs' ! i) (world t) (map fst (queue (world t) (socket_fd (rs' ! i))) @ rest))"
    using transit_parts [OF assms(1) ready s run] by (elim exE) (rule that)
  note t = conj [THEN conjunct1] and fds = conj [THEN conjunct2, THEN conjunct1]
    and dist = conj [THEN conjunct2, THEN conjunct2, THEN conjunct1]
    and arr = conj [THEN conjunct2, THEN conjunct2, THEN conjunct2, THEN conjunct1]
    and parts = conj [THEN conjunct2, THEN conjunct2, THEN conjunct2, THEN conjunct2, rule_format]
  have le: "length rest \<le> length msgs"
  proof (cases rs')
    case Nil
    then have "rs = []" using fds by simp
    then show ?thesis using run_length [OF assms(1) relay_items_ready [OF ready] run] s t by simp
  next
    case (Cons r rs1)
    then have "received 0 es @ map fst (queue (world t) (socket_fd r)) @ rest = msgs" using parts [of 0] by simp
    from arg_cong [OF this, of length] show ?thesis by simp
  qed
  from step show ?thesis
  proof cases
    case (send rs0 p0 m rest0 v)
    with t have m: "rs0 = rs'" "p0 = p" "rest = m # rest0" by auto
    obtain v' where v': "send m (with_self p t) = (Val (), v')" "self v' = p"
      "\<forall>fd. map fst (queue (world v') fd) = map fst (queue (world t) fd) @ arrives p (world t) m fd"
      using send_arrives [OF assms(1), of m "with_self p t"] by auto
    have "v = v'" using send(4) v'(1) unfolding m(2) by simp
    have "length (queue (world v) (socket_fd r)) = Suc (length (queue (world t) (socket_fd r)))" if r: "r \<in> set rs'" for r
    proof -
      obtain j where "j < length rs'" "r = rs' ! j" using r unfolding in_set_conv_nth by blast
      then have "arrives p (world t) m (socket_fd r) = [m]" using parts arr by simp
      with v'(3) have "length (map fst (queue (world v) (socket_fd r))) =
          length (map fst (queue (world t) (socket_fd r)) @ [m])" unfolding \<open>v = v'\<close> by simp
      then show ?thesis by simp
    qed
    then have "\<forall>r \<in> set rs'. length (queue (world u) (socket_fd r)) = Suc (length (queue (world t) (socket_fd r)))"
      unfolding send(2) by simp
    moreover have "self u = (rs', p, rest0)" using send(2) m v'(2) \<open>v = v'\<close> by simp
    ultimately show ?thesis
      unfolding send(1) using log_after_send [of t rs' p m rest0 u msgs queue] t le m(3) by simp
  next
    case (turn rs0 p0 rest0 i m v)
    with t have rs: "rs0 = rs'" "p0 = p" "rest0 = rest" and i: "i < length rs'" by auto
    obtain m' src ds where q: "queue (world t) (socket_fd (rs' ! i)) = (m', src) # ds"
      using turn(5) rs by (cases "queue (world t) (socket_fd (rs' ! i))") auto
    have all: "received i es @ (m' # map fst ds) @ rest = msgs" using parts [OF i] q by simp
    have "takes (self (with_self (rs' ! i) t)) (world (with_self (rs' ! i) t)) (m' # (map fst ds @ rest))"
      using parts [OF i] q by simp
    from turn_takes [OF assms(1) this, of src ds] q
    obtain v' where v': "fst (recv (with_self (rs' ! i) t)) = Val m'" "turn (with_self (rs' ! i) t) = (Val (), v')"
      "socket_fd (self v') = socket_fd (rs' ! i)" "queue (world v') = (queue (world t))(socket_fd (rs' ! i) := ds)"
      by auto
    have v: "v = v'" "m = m'" using turn(6,7) v'(1,2) rs by simp_all
    have "self u = (rs'[i := self v], p, rest)" using turn(2) rs by simp
    moreover have "queue (world u) = (queue (world t))(socket_fd (self v) := ds)"
      using turn(2) v' v(1) by simp
    ultimately show ?thesis
      unfolding turn(1)
      using log_after_turn [of t rs' p rest u i "self v" queue m src ds "received i es" msgs] t i dist v'(3) v q all by simp
  qed
qed

text \<open>Conversely whatever the log can do next, the relay can do.\<close>

lemma log_step_simulated:
  assumes law and ready: "relay_ready queue linked takes s" and s: "self s = (rs, p, msgs)"
    and run: "relay_run send recv turn queue s es t" and step: "log_step msgs (log_of queue msgs t) e d"
  shows "\<exists>u. relay_step send recv turn queue t e u \<and> log_of queue msgs u = d"
proof -
  obtain rs' rest where conj: "self t = (rs', p, rest) \<and> map socket_fd rs' = map socket_fd rs \<and>
    distinct (map socket_fd rs') \<and> arrives p (world t) = arrives p (world s) \<and>
    (\<forall>i < length rs'.
      received i es @ map fst (queue (world t) (socket_fd (rs' ! i))) @ rest = msgs \<and>
      (\<forall>m. arrives p (world s) m (socket_fd (rs' ! i)) = [m]) \<and>
      takes (rs' ! i) (world t) (map fst (queue (world t) (socket_fd (rs' ! i))) @ rest))"
    using transit_parts [OF assms(1) ready s run] by (elim exE) (rule that)
  note t = conj [THEN conjunct1]
    and parts = conj [THEN conjunct2, THEN conjunct2, THEN conjunct2, THEN conjunct2, rule_format]
  have "\<exists>u. relay_step send recv turn queue t e u"
    using step unfolding log_of_def t prod.case
  proof cases
    case append
    then obtain m rest' where rest: "rest = m # rest'" by (cases rest) auto
    obtain v where "send m (with_self p t) = (Val (), v)" using send_arrives [OF assms(1)] by blast
    with t rest have "relay_step send recv turn queue t None (with_self (rs', self v, rest') v)"
      by (intro relay_step.send) simp_all
    with append show ?thesis by blast
  next
    case (read i)
    then have i: "i < length rs'" by simp
    then obtain m src ds where q: "queue (world t) (socket_fd (rs' ! i)) = (m, src) # ds"
      using read by (cases "queue (world t) (socket_fd (rs' ! i))") auto
    have "takes (self (with_self (rs' ! i) t)) (world (with_self (rs' ! i) t)) (m # (map fst ds @ rest))"
      using parts [OF i] q by simp
    from turn_takes [OF assms(1) this, of src ds] q
    obtain v where "fst (recv (with_self (rs' ! i) t)) = Val m" "turn (with_self (rs' ! i) t) = (Val (), v)" by auto
    with t i q have go: "relay_step send recv turn queue t (Some (i, m)) (with_self (rs'[i := self v], p, rest) v)"
      by (intro relay_step.turn) simp_all
    from step_refines_log [OF assms(1) ready s run go] step
    have "e = Some (i, m)" unfolding read(1) log_of_def t prod.case by (auto simp: log_step_read elim: log_step.cases)
    with go show ?thesis by blast
  qed
  then obtain u where u: "relay_step send recv turn queue t e u" by blast
  with step_refines_log [OF assms(1) ready s run u] step log_step_unique show ?thesis by blast
qed

lemma run_refines_log:
  assumes law and "relay_ready queue linked takes s" and "self s = (rs, p, msgs)"
    and "relay_run send recv turn queue s es t"
  shows "log_run msgs (log_of queue msgs s) es (log_of queue msgs t)"
  using assms(4)
proof (induction rule: relay_run.induct)
  case start
  show ?case by (rule log_run.start)
next
  case (more es t e u)
  show ?case by (rule log_run.more [OF more.IH step_refines_log [OF assms(1-3) more.hyps]])
qed

lemma log_run_simulated:
  assumes law and "relay_ready queue linked takes s" and "self s = (rs, p, msgs)"
    and "log_run msgs (log_of queue msgs s) es d"
  shows "\<exists>t. relay_run send recv turn queue s es t \<and> log_of queue msgs t = d"
  using assms(4)
proof (induction rule: log_run.induct)
  case start
  show ?case using relay_run.start by blast
next
  case (more es d e d')
  then obtain t where t: "relay_run send recv turn queue s es t" "log_step msgs (log_of queue msgs t) e d'" by blast
  from log_step_simulated [OF assms(1-3) t] relay_run.more [OF t(1)] show ?case by blast
qed

lemma runs_are_log_runs:
  assumes law and "relay_ready queue linked takes s" and "self s = (rs, p, msgs)"
  shows "(\<exists>t. relay_run send recv turn queue s es t) \<longleftrightarrow> (\<exists>d. log_run msgs (0, replicate (length rs) 0) es d)"
  using run_refines_log [OF assms] log_run_simulated [OF assms] log_of_start [OF assms(2,3)] by metis

end

section \<open>What a reader of the log gets\<close>

lemma log_run_received:
  assumes "log_run log (0, replicate n 0) es (k, ps)"
  shows "k \<le> length log \<and> length ps = n \<and> (\<forall>i < n. ps ! i \<le> k \<and> received i es = take (ps ! i) log)"
  using assms
proof (induction "(k, ps)" arbitrary: k ps rule: log_run.induct)
  case start
  show ?case by simp
next
  case (more es d e)
  obtain k0 ps0 where d: "d = (k0, ps0)" by (cases d)
  note IH = more.hyps(2) [OF d]
  from more.hyps(3) show ?case unfolding d
  proof cases
    case append
    then show ?thesis using IH by auto
  next
    case (read i)
    then have "take (Suc (ps0 ! i)) log = take (ps0 ! i) log @ [log ! (ps0 ! i)]"
      using IH by (intro take_Suc_conv_app_nth) auto
    then show ?thesis using read IH by (auto simp: nth_list_update)
  qed
qed

end
