(* ===== verification/Delivery_Sends.thy ===== *)
theory Delivery_Sends
  imports Delivery
begin

text \<open>
  Publishing at the grain of its system calls: \<open>publish\<close> sends a message to one address after another, and
  subscribers may run between two of these sends.
\<close>

text \<open>The body of the loop in \<open>publish\<close>, and all the sends of a publisher that publishes \<open>msgs\<close>.\<close>

definition one_send ::
  "(message_t \<Rightarrow> 'addr \<Rightarrow> (('o, 'w) mach, int) act) \<Rightarrow> message_t \<times> 'addr \<Rightarrow> (('o, 'w) mach, unit) act" where
  "one_send sendto = (\<lambda>(m, a). bnd (sendto m a) (\<lambda>_. ret ()))"

definition sends_of :: "('addr, 'y) Publisher_scheme \<Rightarrow> message_t list \<Rightarrow> (message_t \<times> 'addr) list" where
  "sends_of p msgs = concat (map (\<lambda>m. map (Pair m) (clientaddrs p)) msgs)"

text \<open>What a single send adds at a descriptor, and how many addresses of a publisher arrive there.\<close>

definition goes_to ::
  "('w \<Rightarrow> byte list \<Rightarrow> int \<Rightarrow> bool) \<Rightarrow> ('addr \<Rightarrow> byte list) \<Rightarrow> 'p \<Rightarrow> 'w \<Rightarrow> message_t \<times> 'addr \<Rightarrow> int \<Rightarrow>
    message_t list" where
  "goes_to reaches addr_bytes p w = (\<lambda>(m, a) fd. if reaches w (addr_bytes a) fd then [m] else [])"

definition copies ::
  "('w \<Rightarrow> byte list \<Rightarrow> int \<Rightarrow> bool) \<Rightarrow> ('addr \<Rightarrow> byte list) \<Rightarrow> ('addr, 'y) Publisher_scheme \<Rightarrow> 'w \<Rightarrow> int \<Rightarrow> nat" where
  "copies reaches addr_bytes p w fd = length (filter (\<lambda>a. reaches w (addr_bytes a) fd) (clientaddrs p))"

lemma due_sends:
  "due (goes_to reaches addr_bytes) p w (sends_of q msgs) fd =
    concat (map (replicate (copies reaches addr_bytes q w fd)) msgs)"
proof -
  have "concat (map (\<lambda>a. goes_to reaches addr_bytes p w (m, a) fd) as) =
      replicate (length (filter (\<lambda>a. reaches w (addr_bytes a) fd) as)) m" for m as
    by (induction as) (simp_all add: goes_to_def)
  then show ?thesis by (induction msgs) (simp_all add: due_def sends_of_def copies_def comp_def)
qed

lemma length_sends: "length (sends_of p msgs) = length msgs * length (clientaddrs p)"
  by (simp add: sends_of_def length_concat comp_def sum_list_triv)

context pub_sub_network
begin

lemma one_send_delivers:
  assumes law
  shows "\<exists>t. one_send sendto it s = (Val (), t) \<and> self t = self s \<and> reaches (world t) = reaches (world s) \<and>
    (\<forall>fd. map fst (queue (world t) fd) = map fst (queue (world s) fd) @ goes_to reaches addr_bytes (self s) (world s) it fd)"
proof -
  obtain m a where it: "it = (m, a)" by (cases it)
  obtain num t where "sendto m a s = (Val num, t)" "self t = self s" "reaches (world t) = reaches (world s)"
    "\<And>g. map fst (queue (world t) g) =
      map fst (queue (world s) g) @ (if reaches (world s) (addr_bytes a) g then [m] else [])"
    using pub.sendto_delivers [OF assms, of m a s] by (auto simp: net_becomes_def)
  then show ?thesis by (intro exI [of _ t]) (simp add: it one_send_def goes_to_def bnd_case ret_apply)
qed

text \<open>The sends in sequence are the publishing of the messages in sequence.\<close>

lemma sends_are_publish:
  assumes law and "clientaddrs (self s) = clientaddrs p"
  shows "for_each (sends_of p msgs) (one_send sendto) s = for_each msgs (Publisher_publish sendto) s"
  using assms(2)
proof (induction msgs arbitrary: s)
  case Nil
  then show ?case by (simp add: sends_of_def)
next
  case (Cons m msgs)
  obtain t where t: "for_each (clientaddrs p) (\<lambda>a. bnd (sendto m a) (\<lambda>_. ret ())) s = (Val (), t)" "self t = self s"
    using send_all_arrives [OF assms(1), of "clientaddrs p" m s] by blast
  have "for_each (map (Pair m) as) (one_send sendto) = for_each as (\<lambda>a. bnd (sendto m a) (\<lambda>_. ret ()))" for as
    by (induction as) (simp_all add: one_send_def)
  then have "for_each (sends_of p (m # msgs)) (one_send sendto) s = for_each (sends_of p msgs) (one_send sendto) t"
    using t(1) by (simp add: sends_of_def for_each_append bnd_case)
  also have "\<dots> = for_each msgs (Publisher_publish sendto) t" using Cons.IH [of t] Cons.prems t(2) by simp
  also have "\<dots> = for_each (m # msgs) (Publisher_publish sendto) s"
    using t(1) Cons.prems by (simp add: Publisher_publish_def bnd_case gets_apply)
  finally show ?case .
qed

sublocale single: item_relay "one_send sendto" "\<lambda>s. recv' (data_size (self s)) s" "Subscriber_once recv'" queue
  "goes_to reaches addr_bytes" "listens queue addr_of reaches" law
proof unfold_locales
  fix it and s :: "(('addr, 'y) Publisher_scheme, 'w) mach"
  assume law
  from one_send_delivers [OF this, of it s]
  show "\<exists>t. one_send sendto it s = (Val (), t) \<and> self t = self s \<and>
      goes_to reaches addr_bytes (self s) (world t) = goes_to reaches addr_bytes (self s) (world s) \<and>
      (\<forall>fd. map fst (queue (world t) fd) =
        map fst (queue (world s) fd) @ goes_to reaches addr_bytes (self s) (world s) it fd) \<and>
      (\<forall>(r :: ('w, 'z) Subscriber_scheme) ms. listens queue addr_of reaches r (world s) ms \<longrightarrow>
        listens queue addr_of reaches r (world t) ms)"
    by (auto simp: goes_to_def listens_def fun_eq_iff)
next
  fix r :: "(('w, 'z) Subscriber_scheme, 'w) mach" and m ms src ds
  assume law and "listens queue addr_of reaches (self r) (world r) (m # ms)"
    and "queue (world r) (socket_fd (self r)) = (m, src) # ds"
  from turn_takes [OF this]
  obtain t where t: "fst (recv' (data_size (self r)) r) = Val m" "Subscriber_once recv' r = (Val (), t)"
    "socket_fd (self t) = socket_fd (self r)" "listens queue addr_of reaches (self t) (world t) ms"
    "queue (world t) = (queue (world r))(socket_fd (self r) := ds)"
    "\<And>p :: ('addr, 'y) Publisher_scheme. publishes reaches addr_bytes p (world t) = publishes reaches addr_bytes p (world r)"
    "\<And>(r' :: ('w, 'z) Subscriber_scheme) ms'. socket_fd r' \<noteq> socket_fd (self r) \<Longrightarrow>
      listens queue addr_of reaches r' (world r) ms' \<Longrightarrow> listens queue addr_of reaches r' (world t) ms'"
    by blast
  have "goes_to reaches addr_bytes p w (k, a) fd = publishes reaches addr_bytes (p\<lparr>clientaddrs := [a]\<rparr>) w k fd"
    for p :: "('addr, 'y) Publisher_scheme" and w k a fd
    by (simp add: goes_to_def publishes_def)
  then have "goes_to reaches addr_bytes p (world t) = goes_to reaches addr_bytes p (world r)"
    for p :: "('addr, 'y) Publisher_scheme"
    by (simp add: fun_eq_iff split_paired_all t(6))
  with t show "fst (recv' (data_size (self r)) r) = Val m \<and>
      (\<exists>t. Subscriber_once recv' r = (Val (), t) \<and> socket_fd (self t) = socket_fd (self r) \<and>
        listens queue addr_of reaches (self t) (world t) ms \<and>
        queue (world t) = (queue (world r))(socket_fd (self r) := ds) \<and>
        (\<forall>p :: ('addr, 'y) Publisher_scheme. goes_to reaches addr_bytes p (world t) = goes_to reaches addr_bytes p (world r)) \<and>
        (\<forall>(r' :: ('w, 'z) Subscriber_scheme) ms'. socket_fd r' \<noteq> socket_fd (self r) \<longrightarrow>
          listens queue addr_of reaches r' (world r) ms' \<longrightarrow> listens queue addr_of reaches r' (world t) ms'))"
    by blast
qed

end

end
