(* ===== verification/Concurrent_Requests.thy ===== *)
theory Concurrent_Requests
  imports Network
begin

text \<open>
  Any number of requesters and one replier that run at the same time: a request is two steps, the
  sending and the receiving, between which the others go on. Every requester gets the answers to its
  own requests, in order, whatever the order of the steps.
\<close>

section \<open>Requesters that run at the same time\<close>

text \<open>A requester with the messages it has still to send and the request that waits for its answer.\<close>

record 'q asker =
  asker_obj :: 'q
  todo :: "message_t list"
  pending :: "message_t option"

type_synonym ('q, 'r, 'w) service = "('q asker list \<times> 'r, 'w) mach"

type_synonym service_event = "(nat \<times> message_t \<times> message_t) option"

text \<open>
  A step is the sending of a request, a turn of the replier, or the receiving with which a request
  ends; the receives block while nothing waits. The label of an answer is the requester with its request
  and what it received.
\<close>

inductive service_step ::
  "(message_t \<Rightarrow> ('x, 'w, int) sock_act) \<Rightarrow> ('x, 'w, message_t) sock_act \<Rightarrow> ('y, 'w, unit) sock_act \<Rightarrow>
    ('w \<Rightarrow> int \<Rightarrow> datagrams) \<Rightarrow> ('x Socket_scheme, 'y Socket_scheme, 'w) service \<Rightarrow> service_event \<Rightarrow>
    ('x Socket_scheme, 'y Socket_scheme, 'w) service \<Rightarrow> bool"
  for send recv once queue where
  ask: "self s = (qs, r) \<Longrightarrow> i < length qs \<Longrightarrow> qs ! i = \<lparr>asker_obj = q, todo = m # ms, pending = None\<rparr> \<Longrightarrow>
    send m (with_self q s) = (Val num, t) \<Longrightarrow>
    service_step send recv once queue s None
      (with_self (qs[i := \<lparr>asker_obj = self t, todo = ms, pending = Some m\<rparr>], r) t)"
| serve: "self s = (qs, r) \<Longrightarrow> queue (world s) (socket_fd r) \<noteq> [] \<Longrightarrow>
    once (with_self r s) = (Val (), t) \<Longrightarrow>
    service_step send recv once queue s None (with_self (qs, self t) t)"
| answer: "self s = (qs, r) \<Longrightarrow> i < length qs \<Longrightarrow> qs ! i = \<lparr>asker_obj = q, todo = ms, pending = Some m\<rparr> \<Longrightarrow>
    queue (world s) (socket_fd q) \<noteq> [] \<Longrightarrow> recv (with_self q s) = (Val a, t) \<Longrightarrow>
    service_step send recv once queue s (Some (i, m, a))
      (with_self (qs[i := \<lparr>asker_obj = self t, todo = ms, pending = None\<rparr>], r) t)"

inductive service_run ::
  "(message_t \<Rightarrow> ('x, 'w, int) sock_act) \<Rightarrow> ('x, 'w, message_t) sock_act \<Rightarrow> ('y, 'w, unit) sock_act \<Rightarrow>
    ('w \<Rightarrow> int \<Rightarrow> datagrams) \<Rightarrow> ('x Socket_scheme, 'y Socket_scheme, 'w) service \<Rightarrow> service_event list \<Rightarrow>
    ('x Socket_scheme, 'y Socket_scheme, 'w) service \<Rightarrow> bool"
  for send recv once queue s where
  start: "service_run send recv once queue s [] s"
| more: "service_run send recv once queue s es t \<Longrightarrow> service_step send recv once queue t e u \<Longrightarrow>
    service_run send recv once queue s (es @ [e]) u"

text \<open>The requests of requester \<open>i\<close> that were answered, each with its answer, in order.\<close>

definition answers :: "nat \<Rightarrow> service_event list \<Rightarrow> (message_t \<times> message_t) list" where
  "answers i es = concat (map (\<lambda>e. case e of
      None \<Rightarrow> [] | Some (j, m, a) \<Rightarrow> (if j = i then [(m, a)] else [])) es)"

lemma answers_simps [simp]:
  "answers i [] = []" "answers i (es @ [None]) = answers i es"
  "answers i (es @ [Some (j, m, a)]) = answers i es @ (if j = i then [(m, a)] else [])"
  by (simp_all add: answers_def)

section \<open>The invariant\<close>

abbreviation asker_fd :: "'x Socket_scheme asker \<Rightarrow> int" where
  "asker_fd q \<equiv> socket_fd (asker_obj q)"

text \<open>
  All descriptors are different, the address \<open>a\<close> of the requests leads to the replier only, and what is
  sent back to a requester arrives at it only.
\<close>

definition service_net ::
  "('w \<Rightarrow> int \<Rightarrow> byte list) \<Rightarrow> ('w \<Rightarrow> byte list \<Rightarrow> int \<Rightarrow> bool) \<Rightarrow> nat \<Rightarrow> byte list \<Rightarrow>
    'x Socket_scheme asker list \<Rightarrow> 'y Socket_scheme \<Rightarrow> 'w \<Rightarrow> bool" where
  "service_net addr_of reaches addr_size a qs r w \<longleftrightarrow>
    distinct (socket_fd r # map asker_fd qs) \<and> (\<forall>g. reaches w a g \<longleftrightarrow> g = socket_fd r) \<and>
    (\<forall>q \<in> set qs. \<forall>g.
      reaches w (overwrite (replicate addr_size 0) (addr_of w (asker_fd q))) g \<longleftrightarrow> g = asker_fd q)"

text \<open>The replier takes the requests whole, the requester the answers, which are those of \<open>f\<close>.\<close>

definition served_by ::
  "(message_t \<Rightarrow> message_t) \<Rightarrow> ('w, 'y) Reply_scheme \<Rightarrow> 'z Request_scheme asker \<Rightarrow> bool" where
  "served_by f r q \<longleftrightarrow> (\<forall>m \<in> set (todo q) \<union> set_option (pending q).
    m \<noteq> [] \<and> length m = rep_msg_size r \<and> length (f m) = req_msg_size (asker_obj q))"

definition answers_with :: "(message_t \<Rightarrow> message_t) \<Rightarrow> ('w, message_t) callback option \<Rightarrow> bool" where
  "answers_with f c \<longleftrightarrow> (\<exists>cb. c = Some cb \<and> (\<forall>m w. fst (cb m w) = Val (f m) \<and> fst (snd (cb m w)) = w))"

definition service_ready ::
  "('w \<Rightarrow> int \<Rightarrow> datagrams) \<Rightarrow> ('w \<Rightarrow> int \<Rightarrow> byte list) \<Rightarrow> ('w \<Rightarrow> byte list \<Rightarrow> int \<Rightarrow> bool) \<Rightarrow> nat \<Rightarrow>
    byte list \<Rightarrow> (message_t \<Rightarrow> message_t) \<Rightarrow> ('z Request_scheme, ('w, 'y) Reply_scheme, 'w) service \<Rightarrow> bool" where
  "service_ready queue addr_of reaches addr_size a f s \<longleftrightarrow> (case self s of (qs, r) \<Rightarrow>
    service_net addr_of reaches addr_size a qs r (world s) \<and> answers_with f (callback r) \<and>
    queue (world s) (socket_fd r) = [] \<and>
    (\<forall>q \<in> set qs. pending q = None \<and> served_by f r q \<and> queue (world s) (asker_fd q) = []))"

text \<open>
  \<open>js\<close> are the requesters whose requests wait at the replier. A requester that waits is one of them, or
  its answer has arrived.
\<close>

definition on_the_way ::
  "('w \<Rightarrow> int \<Rightarrow> datagrams) \<Rightarrow> ('w \<Rightarrow> int \<Rightarrow> byte list) \<Rightarrow> (message_t \<Rightarrow> message_t) \<Rightarrow>
    'x Socket_scheme asker list \<Rightarrow> 'y Socket_scheme \<Rightarrow> 'w \<Rightarrow> nat list \<Rightarrow> bool" where
  "on_the_way queue addr_of f qs r w js \<longleftrightarrow> distinct js \<and> set js \<subseteq> {..<length qs} \<and>
    queue w (socket_fd r) = map (\<lambda>j. (the (pending (qs ! j)), addr_of w (asker_fd (qs ! j)))) js \<and>
    (\<forall>i < length qs. (i \<in> set js \<longrightarrow> pending (qs ! i) \<noteq> None) \<and>
      map fst (queue w (asker_fd (qs ! i))) =
        (case pending (qs ! i) of None \<Rightarrow> [] | Some m \<Rightarrow> if i \<in> set js then [] else [f m]))"

definition in_service ::
  "('w \<Rightarrow> int \<Rightarrow> datagrams) \<Rightarrow> ('w \<Rightarrow> int \<Rightarrow> byte list) \<Rightarrow> ('w \<Rightarrow> byte list \<Rightarrow> int \<Rightarrow> bool) \<Rightarrow> nat \<Rightarrow>
    byte list \<Rightarrow> (message_t \<Rightarrow> message_t) \<Rightarrow> ('z Request_scheme, ('w, 'y) Reply_scheme, 'w) service \<Rightarrow>
    service_event list \<Rightarrow> ('z Request_scheme, ('w, 'y) Reply_scheme, 'w) service \<Rightarrow> bool" where
  "in_service queue addr_of reaches addr_size a f s es t \<longleftrightarrow> (\<exists>qs r qs' js.
    self s = (qs, r) \<and> self t = (qs', r) \<and> length qs' = length qs \<and> answers_with f (callback r) \<and>
    service_net addr_of reaches addr_size a qs' r (world t) \<and> (\<forall>q \<in> set qs'. served_by f r q) \<and>
    on_the_way queue addr_of f qs' r (world t) js \<and>
    (\<forall>i < length qs. \<exists>asked. answers i es = map (\<lambda>m. (m, f m)) asked \<and>
      asked @ (case pending (qs' ! i) of None \<Rightarrow> [] | Some m \<Rightarrow> [m]) @ todo (qs' ! i) = todo (qs ! i)))"

lemma ready_in_service:
  assumes "service_ready queue addr_of reaches addr_size a f s"
  shows "in_service queue addr_of reaches addr_size a f s [] s"
proof -
  obtain qs r where s: "self s = (qs, r)" by (cases "self s")
  have "\<forall>i < length qs. pending (qs ! i) = None \<and> queue (world s) (asker_fd (qs ! i)) = []"
    using assms s by (auto simp: service_ready_def)
  then have "on_the_way queue addr_of f qs r (world s) []"
    using assms s by (simp add: service_ready_def on_the_way_def)
  with assms s show ?thesis
    by (auto simp: service_ready_def in_service_def intro!: exI [of _ "[]"])
qed

lemma service_net_fds:
  assumes "service_net addr_of reaches addr_size a qs r w" and "i < length qs"
  shows "asker_fd (qs ! i) \<noteq> socket_fd r" and "j < length qs \<Longrightarrow> asker_fd (qs ! j) = asker_fd (qs ! i) \<longleftrightarrow> j = i"
proof -
  show "asker_fd (qs ! i) \<noteq> socket_fd r"
    using assms(1) nth_mem [OF assms(2)] by (force simp: service_net_def)
  have "distinct (map asker_fd qs)" using assms(1) by (simp add: service_net_def)
  then show "j < length qs \<Longrightarrow> asker_fd (qs ! j) = asker_fd (qs ! i) \<longleftrightarrow> j = i"
    using assms(2) by (auto simp: distinct_conv_nth)
qed

lemma service_net_update:
  assumes "service_net addr_of reaches addr_size a qs r w" and "i < length qs"
    and "asker_obj q = asker_obj (qs ! i)" and "net_becomes queue addr_of reaches w Q w'"
  shows "service_net addr_of reaches addr_size a (qs[i := q]) r w'"
proof -
  have "map asker_fd (qs[i := q]) = map asker_fd qs" using assms(2,3) by (metis list_update_id map_update nth_map)
  moreover have "\<forall>p \<in> set (qs[i := q]). \<exists>p' \<in> set qs. asker_obj p = asker_obj p'"
    using assms(2,3) by (metis in_set_conv_nth length_list_update nth_list_update nth_mem)
  ultimately show ?thesis using assms(1,4) by (simp add: service_net_def net_becomes_def) metis
qed

text \<open>
  The steps that are left: three for each request to come, one for each that waits for its answer, and
  one for each that waits at the replier.
\<close>

definition work_of :: "'q asker \<Rightarrow> nat" where
  "work_of q = 3 * length (todo q) + (if pending q = None then 0 else 1)"

definition work_left ::
  "('w \<Rightarrow> int \<Rightarrow> datagrams) \<Rightarrow> ('x Socket_scheme, 'y Socket_scheme, 'w) service \<Rightarrow> nat" where
  "work_left queue s = (case self s of (qs, r) \<Rightarrow>
    (\<Sum>q \<leftarrow> qs. work_of q) + length (queue (world s) (socket_fd r)))"

lemma work_update:
  assumes "i < length qs" and "work_of (qs ! i) = work_of q + k"
  shows "(\<Sum>q \<leftarrow> qs[i := q]. work_of q) + k = (\<Sum>q \<leftarrow> qs. work_of q)"
proof -
  have "(\<Sum>q \<leftarrow> qs. work_of q) \<ge> work_of (qs ! i)" using elem_le_sum_list [of i "map work_of qs"] assms(1) by simp
  then show ?thesis using assms by (simp add: map_update sum_list_update)
qed

section \<open>What the steps do to it\<close>

lemma on_the_way_ask:
  assumes "on_the_way queue addr_of f qs r w js" and net: "service_net addr_of reaches addr_size a qs r w"
    and "i < length qs" and "pending (qs ! i) = None"
    and "net_becomes queue addr_of reaches w
      (\<lambda>g. queue w g @ (if reaches w a g then [(m, addr_of w (asker_fd (qs ! i)))] else [])) w'"
  shows "on_the_way queue addr_of f (qs[i := \<lparr>asker_obj = asker_obj (qs ! i), todo = ms, pending = Some m\<rparr>]) r w'
    (js @ [i])"
proof -
  let ?qs = "qs[i := \<lparr>asker_obj = asker_obj (qs ! i), todo = ms, pending = Some m\<rparr>]"
  note way = assms(1) [unfolded on_the_way_def]
  have i: "i \<notin> set js" using way assms(3,4) by blast
  have at: "?qs ! j = (if j = i then \<lparr>asker_obj = asker_obj (qs ! i), todo = ms, pending = Some m\<rparr> else qs ! j)"
    if "j < length qs" for j using that by (simp add: nth_list_update)
  have fds: "asker_fd (?qs ! j) = asker_fd (qs ! j)" if "j < length qs" for j using at [OF that] by simp
  have q: "queue w' g = queue w g @ (if g = socket_fd r then [(m, addr_of w (asker_fd (qs ! i)))] else [])" for g
    using assms(5) net by (simp add: net_becomes_def service_net_def)
  have addr: "addr_of w' = addr_of w" using assms(5) by (simp add: net_becomes_def)
  have "queue w' (socket_fd r) =
      map (\<lambda>j. (the (pending (?qs ! j)), addr_of w' (asker_fd (?qs ! j)))) (js @ [i])"
    using way i assms(3) addr by (auto simp: q nth_list_update)
  moreover have "map fst (queue w' (asker_fd (?qs ! j))) =
      (case pending (?qs ! j) of None \<Rightarrow> [] | Some m \<Rightarrow> if j \<in> set (js @ [i]) then [] else [f m])"
    if "j < length qs" for j
    using way service_net_fds(1) [OF net that] that fds [OF that] assms(4) by (auto simp: q at split: option.split)
  moreover have "j \<in> set (js @ [i]) \<longrightarrow> pending (?qs ! j) \<noteq> None" if "j < length qs" for j
    using way that by (auto simp: at)
  ultimately show ?thesis using way i assms(3) by (simp add: on_the_way_def)
qed

lemma on_the_way_serve:
  assumes "on_the_way queue addr_of f qs r w (j # js)" and net: "service_net addr_of reaches addr_size a qs r w"
    and "pending (qs ! j) = Some m" and "queue w (socket_fd r) = (m, addr_of w (asker_fd (qs ! j))) # ds"
    and "net_becomes queue addr_of reaches w
      (\<lambda>g. (if g = socket_fd r then ds else queue w g) @
        (if reaches w (overwrite (replicate addr_size 0) (addr_of w (asker_fd (qs ! j)))) g then [(f m, x)] else [])) w'"
  shows "on_the_way queue addr_of f qs r w' js"
proof -
  note way = assms(1) [unfolded on_the_way_def]
  have j: "j < length qs" "j \<notin> set js" using way by auto
  have q: "queue w' g = (if g = socket_fd r then ds else queue w g) @ (if g = asker_fd (qs ! j) then [(f m, x)] else [])" for g
    using assms(5) net j(1) by (simp add: net_becomes_def service_net_def)
  have addr: "addr_of w' = addr_of w" using assms(5) by (simp add: net_becomes_def)
  have "queue w' (socket_fd r) = map (\<lambda>j. (the (pending (qs ! j)), addr_of w' (asker_fd (qs ! j)))) js"
    using way assms(4) addr service_net_fds(1) [OF net j(1)] by (auto simp: q)
  moreover have "map fst (queue w' (asker_fd (qs ! i))) =
      (case pending (qs ! i) of None \<Rightarrow> [] | Some m \<Rightarrow> if i \<in> set js then [] else [f m])" if "i < length qs" for i
    using way service_net_fds(1) [OF net that] service_net_fds(2) [OF net j(1) that] that j assms(3)
    by (cases "i = j") (auto simp: q split: option.splits)
  ultimately show ?thesis using way by (auto simp: on_the_way_def)
qed

lemma on_the_way_answer:
  assumes "on_the_way queue addr_of f qs r w js" and net: "service_net addr_of reaches addr_size a qs r w"
    and "i < length qs" and "i \<notin> set js" and "queue w (asker_fd (qs ! i)) = [d]"
    and "net_becomes queue addr_of reaches w ((queue w)(asker_fd (qs ! i) := [])) w'"
  shows "on_the_way queue addr_of f (qs[i := \<lparr>asker_obj = asker_obj (qs ! i), todo = ms, pending = None\<rparr>]) r w' js"
proof -
  let ?qs = "qs[i := \<lparr>asker_obj = asker_obj (qs ! i), todo = ms, pending = None\<rparr>]"
  note way = assms(1) [unfolded on_the_way_def]
  have at: "?qs ! j = (if j = i then \<lparr>asker_obj = asker_obj (qs ! i), todo = ms, pending = None\<rparr> else qs ! j)"
    if "j < length qs" for j using that by (simp add: nth_list_update)
  have q: "queue w' g = (if g = asker_fd (qs ! i) then [] else queue w g)" for g
    using assms(6) by (simp add: net_becomes_def)
  have addr: "addr_of w' = addr_of w" using assms(6) by (simp add: net_becomes_def)
  have "?qs ! j = qs ! j" if "j \<in> set js" for j using that assms(4) by (metis nth_list_update_neq)
  then have "queue w' (socket_fd r) = map (\<lambda>j. (the (pending (?qs ! j)), addr_of w' (asker_fd (?qs ! j)))) js"
    using way addr service_net_fds(1) [OF net assms(3)] by (simp add: q)
  moreover have "map fst (queue w' (asker_fd (?qs ! j))) =
      (case pending (?qs ! j) of None \<Rightarrow> [] | Some m \<Rightarrow> if j \<in> set js then [] else [f m])" if "j < length qs" for j
    using way service_net_fds(2) [OF net assms(3) that] that by (auto simp: q at)
  moreover have "j \<in> set js \<longrightarrow> pending (?qs ! j) \<noteq> None" if "j < length qs" for j
    using way that assms(4) by (auto simp: at)
  ultimately show ?thesis using way by (simp add: on_the_way_def)
qed

context exchange
begin

abbreviation svc_step where
  "svc_step addr \<equiv> service_step (\<lambda>m. sendto m addr) (\<lambda>s. recv (req_msg_size (self s)) s)
    (Reply_once zero recvfrom' sendto') queue"

abbreviation svc_run where
  "svc_run addr \<equiv> service_run (\<lambda>m. sendto m addr) (\<lambda>s. recv (req_msg_size (self s)) s)
    (Reply_once zero recvfrom' sendto') queue"

lemma ask_in_service:
  assumes law and inv: "in_service queue addr_of reaches addr_size (addr_bytes addr) f s es t"
    and t: "self t = (qs, r)" "i < length qs" "qs ! i = \<lparr>asker_obj = q, todo = m # ms, pending = None\<rparr>"
    and send: "sendto m addr (with_self q t) = (Val num, u)"
  shows "in_service queue addr_of reaches addr_size (addr_bytes addr) f s (es @ [None])
      (with_self (qs[i := \<lparr>asker_obj = self u, todo = ms, pending = Some m\<rparr>], r) u) \<and>
    Suc (work_left queue (with_self (qs[i := \<lparr>asker_obj = self u, todo = ms, pending = Some m\<rparr>], r) u)) =
      work_left queue t"
proof -
  obtain qs0 js where I: "self s = (qs0, r)" "length qs = length qs0" "answers_with f (callback r)"
    "service_net addr_of reaches addr_size (addr_bytes addr) qs r (world t)" "\<forall>q \<in> set qs. served_by f r q"
    "on_the_way queue addr_of f qs r (world t) js"
    "\<forall>i < length qs0. \<exists>asked. answers i es = map (\<lambda>m. (m, f m)) asked \<and>
      asked @ (case pending (qs ! i) of None \<Rightarrow> [] | Some m \<Rightarrow> [m]) @ todo (qs ! i) = todo (qs0 ! i)"
    using inv t(1) by (auto simp: in_service_def)
  let ?q = "\<lparr>asker_obj = asker_obj (qs ! i), todo = ms, pending = Some m\<rparr>"
  have u: "self u = asker_obj (qs ! i)" "net_becomes queue addr_of reaches (world t)
      (\<lambda>g. queue (world t) g @ (if reaches (world t) (addr_bytes addr) g
        then [(m, addr_of (world t) (asker_fd (qs ! i)))] else [])) (world u)"
    using req.sendto_delivers [OF assms(1), of m addr "with_self q t"] send t(3) by (auto cong: if_cong)
  have "served_by f r ?q"
    using I(5) nth_mem [OF t(2)] t(3) by (force simp: served_by_def)
  then have "\<forall>p \<in> set (qs[i := ?q]). served_by f r p" using I(5) set_update_subset_insert [of qs i ?q] by auto
  moreover have "on_the_way queue addr_of f (qs[i := ?q]) r (world u) (js @ [i])"
    by (rule on_the_way_ask [OF I(6,4) t(2) _ u(2)]) (simp add: t(3))
  moreover have "service_net addr_of reaches addr_size (addr_bytes addr) (qs[i := ?q]) r (world u)"
    by (rule service_net_update [OF I(4) t(2) _ u(2)]) simp
  moreover have "\<exists>asked. answers j (es @ [None]) = map (\<lambda>m. (m, f m)) asked \<and>
      asked @ (case pending (qs[i := ?q] ! j) of None \<Rightarrow> [] | Some m \<Rightarrow> [m]) @ todo (qs[i := ?q] ! j) = todo (qs0 ! j)"
    if "j < length qs0" for j
    using I(2) I(7) [rule_format, OF that] that t(2,3) by (cases "j = i") auto
  ultimately have "in_service queue addr_of reaches addr_size (addr_bytes addr) f s (es @ [None])
      (with_self (qs[i := ?q], r) u)" using I(1-3) by (auto simp: in_service_def)
  moreover have "length (queue (world u) (socket_fd r)) = Suc (length (queue (world t) (socket_fd r)))"
    using u(2) I(4) by (simp add: net_becomes_def service_net_def)
  moreover have "(\<Sum>q \<leftarrow> qs[i := ?q]. work_of q) + 2 = (\<Sum>q \<leftarrow> qs. work_of q)"
    by (rule work_update [OF t(2)]) (simp add: work_of_def t(3))
  ultimately show ?thesis using u(1) t(1) by (simp add: work_left_def)
qed

lemma serve_in_service:
  assumes law and inv: "in_service queue addr_of reaches addr_size (addr_bytes addr) f s es t"
    and t: "self t = (qs, r)" "queue (world t) (socket_fd r) \<noteq> []"
  shows "\<exists>u. Reply_once zero recvfrom' sendto' (with_self r t) = (Val (), u) \<and>
    in_service queue addr_of reaches addr_size (addr_bytes addr) f s (es @ [None]) (with_self (qs, self u) u) \<and>
    Suc (work_left queue (with_self (qs, self u) u)) = work_left queue t"
proof -
  obtain qs0 js where I: "self s = (qs0, r)" "length qs = length qs0" "answers_with f (callback r)"
    "service_net addr_of reaches addr_size (addr_bytes addr) qs r (world t)" "\<forall>q \<in> set qs. served_by f r q"
    "on_the_way queue addr_of f qs r (world t) js"
    "\<forall>i < length qs0. \<exists>asked. answers i es = map (\<lambda>m. (m, f m)) asked \<and>
      asked @ (case pending (qs ! i) of None \<Rightarrow> [] | Some m \<Rightarrow> [m]) @ todo (qs ! i) = todo (qs0 ! i)"
    using inv t(1) by (auto simp: in_service_def)
  obtain j ks where js: "js = j # ks" using I(6) t(2) by (cases js) (auto simp: on_the_way_def)
  obtain m where m: "pending (qs ! j) = Some m" "j < length qs"
    using I(6) js by (auto simp: on_the_way_def)
  obtain ds where q: "queue (world t) (socket_fd r) = (m, addr_of (world t) (asker_fd (qs ! j))) # ds"
    using I(6) js m by (auto simp: on_the_way_def)
  obtain cb where cb: "callback r = Some cb" "\<And>w. fst (cb m w) = Val (f m) \<and> fst (snd (cb m w)) = w"
    using I(3) by (auto simp: answers_with_def)
  have "m \<noteq> [] \<and> length m = rep_msg_size r"
    using I(5) nth_mem [OF m(2)] m(1) by (auto simp: served_by_def)
  then obtain u where u: "Reply_once zero recvfrom' sendto' (with_self r t) = (Val (), u)" "self u = r"
    "net_becomes queue addr_of reaches (world t)
      (\<lambda>g. (if g = socket_fd r then ds else queue (world t) g) @
        (if reaches (world t) (overwrite (replicate addr_size 0) (addr_of (world t) (asker_fd (qs ! j)))) g
         then [(f m, addr_of (world t) (socket_fd r))] else [])) (world u)"
    using rep.once_answers [OF assms(1), of "with_self r t" m "addr_of (world t) (asker_fd (qs ! j))" ds cb "f m"] q cb
    by (auto cong: if_cong)
  have "service_net addr_of reaches addr_size (addr_bytes addr) qs r (world u)"
    using service_net_update [OF I(4) m(2) refl u(3)] by simp
  moreover have "on_the_way queue addr_of f qs r (world u) ks"
    by (rule on_the_way_serve [OF I(6) [unfolded js] I(4) m(1) q u(3)])
  ultimately have "in_service queue addr_of reaches addr_size (addr_bytes addr) f s (es @ [None]) (with_self (qs, r) u)"
    using I(1-3,5,7) by (auto simp: in_service_def)
  moreover have "queue (world u) (socket_fd r) = ds"
    using u(3) I(4) service_net_fds(1) [OF I(4) m(2)] m(2) by (simp add: net_becomes_def service_net_def)
  then have "Suc (work_left queue (with_self (qs, r) u)) = work_left queue t"
    using q t(1) by (simp add: work_left_def)
  ultimately show ?thesis using u(1,2) by blast
qed

lemma answer_in_service:
  assumes law and inv: "in_service queue addr_of reaches addr_size (addr_bytes addr) f s es t"
    and t: "self t = (qs, r)" "i < length qs" "qs ! i = \<lparr>asker_obj = q, todo = ms, pending = Some m\<rparr>"
    and waits: "queue (world t) (socket_fd q) \<noteq> []"
  shows "\<exists>u. recv (req_msg_size q) (with_self q t) = (Val (f m), u) \<and>
    in_service queue addr_of reaches addr_size (addr_bytes addr) f s (es @ [Some (i, m, f m)])
      (with_self (qs[i := \<lparr>asker_obj = self u, todo = ms, pending = None\<rparr>], r) u) \<and>
    Suc (work_left queue (with_self (qs[i := \<lparr>asker_obj = self u, todo = ms, pending = None\<rparr>], r) u)) =
      work_left queue t"
proof -
  obtain qs0 js where I: "self s = (qs0, r)" "length qs = length qs0" "answers_with f (callback r)"
    "service_net addr_of reaches addr_size (addr_bytes addr) qs r (world t)" "\<forall>q \<in> set qs. served_by f r q"
    "on_the_way queue addr_of f qs r (world t) js"
    "\<forall>i < length qs0. \<exists>asked. answers i es = map (\<lambda>m. (m, f m)) asked \<and>
      asked @ (case pending (qs ! i) of None \<Rightarrow> [] | Some m \<Rightarrow> [m]) @ todo (qs ! i) = todo (qs0 ! i)"
    using inv t(1) by (auto simp: in_service_def)
  let ?q = "\<lparr>asker_obj = asker_obj (qs ! i), todo = ms, pending = None\<rparr>"
  have "map fst (queue (world t) (socket_fd q)) = (if i \<in> set js then [] else [f m])"
    using I(6) t(2,3) by (auto simp: on_the_way_def)
  then have i: "i \<notin> set js" and "map fst (queue (world t) (socket_fd q)) = [f m]"
    using waits by (auto split: if_splits)
  then obtain src where d: "queue (world t) (socket_fd q) = [(f m, src)]" by auto
  have fits: "length (f m) = req_msg_size q" "served_by f r ?q"
    using I(5) nth_mem [OF t(2)] t(3) by (force simp: served_by_def)+
  obtain u where u: "recv (req_msg_size q) (with_self q t) = (Val (f m), u)" "self u = q"
    "net_becomes queue addr_of reaches (world t) ((queue (world t))(asker_fd (qs ! i) := [])) (world u)"
    using req.recv_delivers [OF assms(1), of "with_self q t" "f m" src "[]" "req_msg_size q"] d t(3) fits(1) by auto
  have "\<forall>p \<in> set (qs[i := ?q]). served_by f r p"
    using I(5) fits(2) set_update_subset_insert [of qs i ?q] by auto
  moreover have "on_the_way queue addr_of f (qs[i := ?q]) r (world u) js"
    by (rule on_the_way_answer [OF I(6,4) t(2) i _ u(3)]) (simp add: d t(3))
  moreover have "service_net addr_of reaches addr_size (addr_bytes addr) (qs[i := ?q]) r (world u)"
    by (rule service_net_update [OF I(4) t(2) _ u(3)]) simp
  moreover have "\<exists>asked. answers j (es @ [Some (i, m, f m)]) = map (\<lambda>m. (m, f m)) asked \<and>
      asked @ (case pending (qs[i := ?q] ! j) of None \<Rightarrow> [] | Some m \<Rightarrow> [m]) @ todo (qs[i := ?q] ! j) = todo (qs0 ! j)"
    if j: "j < length qs0" for j
  proof (cases "j = i")
    case True
    obtain ds where "answers i es = map (\<lambda>m. (m, f m)) ds" "ds @ [m] @ ms = todo (qs0 ! i)"
      using I(7) [rule_format, of i] j t(3) True by auto
    then show ?thesis using True t(2) by (intro exI [of _ "ds @ [m]"]) simp
  qed (use I(2) I(7) [rule_format, OF j] j in auto)
  ultimately have "in_service queue addr_of reaches addr_size (addr_bytes addr) f s (es @ [Some (i, m, f m)])
      (with_self (qs[i := ?q], r) u)"
    using I(1-3) by (auto simp: in_service_def)
  moreover have "queue (world u) (socket_fd r) = queue (world t) (socket_fd r)"
    using u(3) service_net_fds(1) [OF I(4) t(2)] by (simp add: net_becomes_def)
  moreover have "(\<Sum>q \<leftarrow> qs[i := ?q]. work_of q) + 1 = (\<Sum>q \<leftarrow> qs. work_of q)"
    by (rule work_update [OF t(2)]) (simp add: work_of_def t(3))
  ultimately show ?thesis using u(1,2) t(1,3) by (intro exI [of _ u]) (simp add: work_left_def)
qed

lemma step_in_service:
  assumes law and inv: "in_service queue addr_of reaches addr_size (addr_bytes addr) f s es t"
    and step: "svc_step addr t e u"
  shows "in_service queue addr_of reaches addr_size (addr_bytes addr) f s (es @ [e]) u \<and>
    Suc (work_left queue u) = work_left queue t"
  using step
proof cases
  case (ask qs r i q m ms num v)
  then show ?thesis using ask_in_service [OF assms(1,2) ask(3-6)] by simp
next
  case (serve qs r v)
  then show ?thesis using serve_in_service [OF assms(1,2) serve(3,4)] by auto
next
  case (answer qs r i q ms m a v)
  then show ?thesis using answer_in_service [OF assms(1,2) answer(3-6)] by auto
qed

lemma run_in_service:
  assumes law and "service_ready queue addr_of reaches addr_size (addr_bytes addr) f s"
    and "svc_run addr s es t"
  shows "in_service queue addr_of reaches addr_size (addr_bytes addr) f s es t \<and>
    length es + work_left queue t = work_left queue s"
  using assms(3)
proof (induction rule: service_run.induct)
  case start
  show ?case using ready_in_service [OF assms(2)] by simp
next
  case (more es t e u)
  from step_in_service [OF assms(1) more.IH [THEN conjunct1] more.hyps(2)] more.IH show ?case by simp
qed

text \<open>Nobody is left waiting: when no step is possible, every request has been answered.\<close>

lemma stuck_all_answered:
  assumes law and inv: "in_service queue addr_of reaches addr_size (addr_bytes addr) f s es t"
    and stuck: "\<forall>e u. \<not> svc_step addr t e u" and i: "i < length (fst (self s))"
  shows "answers i es = map (\<lambda>m. (m, f m)) (todo (fst (self s) ! i))"
proof -
  obtain qs0 r qs js where I: "self s = (qs0, r)" "self t = (qs, r)" "length qs = length qs0"
    "on_the_way queue addr_of f qs r (world t) js"
    "\<forall>i < length qs0. \<exists>asked. answers i es = map (\<lambda>m. (m, f m)) asked \<and>
      asked @ (case pending (qs ! i) of None \<Rightarrow> [] | Some m \<Rightarrow> [m]) @ todo (qs ! i) = todo (qs0 ! i)"
    using inv by (auto simp: in_service_def)
  have i': "i < length qs" using i I(1,3) by simp
  have "queue (world t) (socket_fd r) = []"
  proof (rule ccontr)
    assume waits: "queue (world t) (socket_fd r) \<noteq> []"
    obtain u where "Reply_once zero recvfrom' sendto' (with_self r t) = (Val (), u)"
      using serve_in_service [OF assms(1,2) I(2) waits] by blast
    with I(2) waits have "svc_step addr t None (with_self (qs, self u) u)" by (rule service_step.serve)
    with stuck show False by blast
  qed
  then have js: "js = []" using I(4) by (simp add: on_the_way_def)
  obtain q ms p where q: "qs ! i = \<lparr>asker_obj = q, todo = ms, pending = p\<rparr>" by (cases "qs ! i")
  have p: "p = None"
  proof (cases p)
    case (Some m)
    then have "map fst (queue (world t) (socket_fd q)) = [f m]"
      using I(4) [unfolded on_the_way_def, THEN conjunct2, THEN conjunct2, THEN conjunct2, rule_format, OF i'] q js
      by simp
    then have "queue (world t) (socket_fd q) \<noteq> []" by auto
    then obtain u where "recv (req_msg_size (self (with_self q t))) (with_self q t) = (Val (f m), u)"
      using answer_in_service [OF assms(1,2) I(2) i' q [unfolded Some]] by auto
    with \<open>queue (world t) (socket_fd q) \<noteq> []\<close>
    have "svc_step addr t (Some (i, m, f m)) (with_self (qs[i := \<lparr>asker_obj = self u, todo = ms, pending = None\<rparr>], r) u)"
      by (rule service_step.answer [OF I(2) i' q [unfolded Some]])
    with stuck show ?thesis by blast
  qed simp
  have "ms = []"
  proof (cases ms)
    case (Cons m ms')
    obtain num u where "sendto m addr (with_self q t) = (Val num, u)" using req.sendto_delivers [OF assms(1)] by blast
    then have "svc_step addr t None
        (with_self (qs[i := \<lparr>asker_obj = self u, todo = ms', pending = Some m\<rparr>], r) u)"
      by (rule service_step.ask [OF I(2) i' q [unfolded p Cons]])
    with stuck show ?thesis by blast
  qed simp
  with I(5) [rule_format, of i] i I(1) q p show ?thesis by auto
qed

lemma service_answers:
  assumes law and "service_ready queue addr_of reaches addr_size (addr_bytes addr) f s"
    and s: "self s = (qs, r)" and run: "svc_run addr s es t"
  shows "(\<forall>i < length qs. \<exists>asked waiting. answers i es = map (\<lambda>m. (m, f m)) asked \<and>
      asked @ waiting = todo (qs ! i)) \<and>
    length es \<le> 3 * (\<Sum>q \<leftarrow> qs. length (todo q)) \<and>
    ((\<forall>e u. \<not> svc_step addr t e u) \<longrightarrow>
      (\<forall>i < length qs. answers i es = map (\<lambda>m. (m, f m)) (todo (qs ! i))))"
proof (intro conjI impI)
  note inv = run_in_service [OF assms(1,2) run]
  show "\<forall>i < length qs. \<exists>asked waiting. answers i es = map (\<lambda>m. (m, f m)) asked \<and> asked @ waiting = todo (qs ! i)"
    using inv s by (fastforce simp: in_service_def)
  have "work_of q = 3 * length (todo q)" if "q \<in> set qs" for q
    using assms(2) s that by (simp add: service_ready_def work_of_def)
  then have "(\<Sum>q \<leftarrow> qs. work_of q) = 3 * (\<Sum>q \<leftarrow> qs. length (todo q))"
    by (simp add: sum_list_const_mult [symmetric] cong: map_cong)
  then show "length es \<le> 3 * (\<Sum>q \<leftarrow> qs. length (todo q))"
    using inv s assms(2) by (simp add: work_left_def service_ready_def)
  show "\<forall>i < length qs. answers i es = map (\<lambda>m. (m, f m)) (todo (qs ! i))" if "\<forall>e u. \<not> svc_step addr t e u"
    using stuck_all_answered [OF assms(1) inv [THEN conjunct1] that] s by simp
qed

lemma complete_service_exists:
  assumes law and "service_ready queue addr_of reaches addr_size (addr_bytes addr) f s"
  shows "\<exists>es t. svc_run addr s es t \<and> (\<forall>e u. \<not> svc_step addr t e u)"
proof -
  obtain qs r where s: "self s = (qs, r)" by (cases "self s")
  have "length es \<le> 3 * (\<Sum>q \<leftarrow> qs. length (todo q))" if "svc_run addr s es t" for es t
    using service_answers [OF assms s that] by blast
  then show ?thesis
    by (rule maximal_run_exists [where run = "svc_run addr s" and step = "svc_step addr", OF service_run.start])
      (assumption, rule service_run.more)
qed

text \<open>A request is the two steps of a requester, with nothing in between.\<close>

lemma request_two_steps:
  assumes "sendto m addr s = (Val num, t)"
  shows "Request_request sendto recv m addr s = recv (req_msg_size (self t)) t"
  using assms by (simp add: Request_request_def bnd_case gets_apply)

end

end
