(* ===== verification/Delivery_Properties.thy ===== *)
theory Delivery_Properties
  imports Delivery_Log Delivery_Sends Concurrent_Requests Example_Programs Sample_Network
begin

text \<open>
  The properties of endpoints that run at the same time over a network that delivers: publishers and
  subscribers, requesters and repliers, and the broadcast of \<open>examples/bc.cpp\<close>.
\<close>

section \<open>Publishers and subscribers\<close>


text \<open>
  Over Unix sockets, whose receives throw when they fail, a publisher and its subscribers running at the
  same time in any order of steps: over a network that delivers no receive throws, what a subscriber got, what
  waits for it and what is still to be published are always the messages in order, and when no endpoint can go
  on, every subscriber has got every message.
\<close>
lemma unix_subscribers_receive_all:
  assumes "dgram_law P queue addr_of reaches"
    and "relay_ready queue (published_to reaches unix_bytes) (listens queue addr_of reaches) s"
    and "self s = (subs, pub, msgs)"
    and "relay_run (PublisherUnix_publish P) (\<lambda>s. SocketUnix_recv P (data_size (self s)) 0 s)
      (SubscriberUnix_once P) queue s es t"
  shows "(\<forall>i < length subs.
      received i es @ map fst (queue (world t) (socket_fd (subs ! i))) @ snd (snd (self t)) = msgs) \<and>
    length es \<le> length msgs * Suc (length subs) \<and>
    ((\<forall>e u. \<not> relay_step (PublisherUnix_publish P) (\<lambda>s. SocketUnix_recv P (data_size (self s)) 0 s)
        (SubscriberUnix_once P) queue t e u) \<longrightarrow> (\<forall>i < length subs. received i es = msgs))"
  using pub_sub_unix.relay_delivers [OF assms [unfolded PublisherUnix_publish_def SubscriberUnix_once_def]]
  unfolding PublisherUnix_publish_def SubscriberUnix_once_def .

text \<open>A sender and two receivers in the sample network, each receiver bound to an address of its own.\<close>

definition lan_hub :: "(int \<Rightarrow> byte list) \<Rightarrow> lan" where
  "lan_hub addr = \<lparr>lan_open = [5, 4, 3], lan_addr = addr, lan_queue = (\<lambda>_. [])\<rparr>"

definition print_cb :: "('w, unit) callback" where
  "print_cb m w = (Val (), w, [msg2string m])"

definition lan_subscriber :: "int \<Rightarrow> lan Subscriber" where
  "lan_subscriber fd = \<lparr>socket_fd = fd, callbacks = [print_cb], data_size = 2\<rparr>"

definition udp_hub :: lan where
  "udp_hub = lan_hub (\<lambda>fd. inet_bytes (inet_of 0 (if fd = 3 then 9003 else if fd = 4 then 9004 else 9005)))"

lemma replicate_bytes: "replicate 4 x = [x, x, x, x]"
  by (simp add: numeral_eq_Suc)

lemma udp_hub_reaches:
  "lan_reaches udp_hub (inet_bytes (inet_of 0x0100007F 9003)) fd \<longleftrightarrow> fd = 3"
  "lan_reaches udp_hub (inet_bytes (inet_of 0x0100007F 9005)) fd \<longleftrightarrow> fd = 5"
  by (auto simp: lan_reaches_def udp_hub_def lan_hub_def inet_bytes_def inet_of_def htons_def le16_def le32_def
      AF_INET_def AF_UNIX_def replicate_bytes)

lemma listens_lan: "listens queue addr_of reaches (lan_subscriber fd) w [[a, b], [c, d], [e, f]]"
  by (simp add: listens_def lan_subscriber_def quiet_callback_def print_cb_def net_becomes_def)

definition udp_hub_start where
  "udp_hub_start = lan_machine
    ([lan_subscriber 3, lan_subscriber 5],
     \<lparr>socket_fd = 4, clientaddrs = [inet_of 0x0100007F 9003, inet_of 0x0100007F 9005]\<rparr>,
     [[1, 2], [3, 4], [5, 6]]) udp_hub"


text \<open>Unix addresses whose path is one character.\<close>

definition unix_at :: "byte \<Rightarrow> unixaddr_t" where
  "unix_at c = \<lparr>sun_family = AF_UNIX, sun_path = c # replicate 107 0\<rparr>"

definition unix_hub :: lan where
  "unix_hub = lan_hub (\<lambda>fd. unix_bytes (unix_at (of_int fd)))"

lemma unix_at_eq: "unix_bytes (unix_at c) = unix_bytes (unix_at d) \<longleftrightarrow> c = d"
  by (simp add: unix_bytes_def unix_at_def)

lemma unix_hub_reaches:
  "lan_reaches unix_hub (unix_bytes (unix_at 3)) fd \<longleftrightarrow> fd = 3"
  "lan_reaches unix_hub (unix_bytes (unix_at 4)) fd \<longleftrightarrow> fd = 4"
  "lan_reaches unix_hub (unix_bytes (unix_at 5)) fd \<longleftrightarrow> fd = 5"
proof -
  have "take 2 (unix_bytes (unix_at c)) = le16 AF_UNIX" for c
    by (simp add: unix_bytes_def unix_at_def)
  then show "lan_reaches unix_hub (unix_bytes (unix_at 3)) fd \<longleftrightarrow> fd = 3"
    "lan_reaches unix_hub (unix_bytes (unix_at 4)) fd \<longleftrightarrow> fd = 4"
    "lan_reaches unix_hub (unix_bytes (unix_at 5)) fd \<longleftrightarrow> fd = 5"
    by (auto simp: lan_reaches_def unix_hub_def lan_hub_def unix_at_eq)
qed

definition unix_hub_start where
  "unix_hub_start = lan_machine
    ([lan_subscriber 3, lan_subscriber 5], \<lparr>socket_fd = 4, clientaddrs = [unix_at 3, unix_at 5]\<rparr>,
     [[1, 2], [3, 4], [5, 6]]) unix_hub"

lemma unix_subscribers_receive_all_witness:
  "\<exists>es t. relay_run (PublisherUnix_publish lan_platform)
      (\<lambda>s. SocketUnix_recv lan_platform (data_size (self s)) 0 s) (SubscriberUnix_once lan_platform)
      lan_queue unix_hub_start es t \<and>
    received 0 es = [[1, 2], [3, 4], [5, 6]] \<and> received 1 es = [[1, 2], [3, 4], [5, 6]] \<and> length es \<le> 9"
proof -
  let ?step = "relay_step (PublisherUnix_publish lan_platform)
      (\<lambda>s. SocketUnix_recv lan_platform (data_size (self s)) 0 s) (SubscriberUnix_once lan_platform) lan_queue"
  let ?run = "relay_run (PublisherUnix_publish lan_platform)
      (\<lambda>s. SocketUnix_recv lan_platform (data_size (self s)) 0 s) (SubscriberUnix_once lan_platform) lan_queue
      unix_hub_start"
  have ready: "relay_ready lan_queue (published_to lan_reaches unix_bytes) (listens lan_queue lan_addr lan_reaches)
      unix_hub_start"
    by (auto simp: relay_ready_def unix_hub_start_def published_to_def unix_hub_reaches listens_lan)
      (simp_all add: lan_subscriber_def unix_hub_def lan_hub_def)
  from pub_sub_unix.complete_run_exists [OF lan_dgram_law ready]
  obtain es t where run: "?run es t" and stuck: "\<forall>e u. \<not> ?step t e u"
    unfolding PublisherUnix_publish_def SubscriberUnix_once_def by blast
  from unix_subscribers_receive_all [OF lan_dgram_law ready _ run] stuck
  have "(\<forall>i < 2. received i es = [[1, 2], [3, 4], [5, 6]]) \<and> length es \<le> 9"
    by (simp add: unix_hub_start_def)
  with run show ?thesis by (intro exI [of _ es] exI [of _ t]) auto
qed



text \<open>The log over Unix sockets.\<close>

lemma unix_pub_sub_is_a_log:
  assumes "dgram_law P queue addr_of reaches"
    and "relay_ready queue (published_to reaches unix_bytes) (listens queue addr_of reaches) s"
    and "self s = (subs, pub, msgs)"
  shows "(\<exists>t. relay_run (PublisherUnix_publish P) (\<lambda>s. SocketUnix_recv P (data_size (self s)) 0 s)
      (SubscriberUnix_once P) queue s es t) \<longleftrightarrow> (\<exists>d. log_run msgs (0, replicate (length subs) 0) es d)"
  unfolding PublisherUnix_publish_def SubscriberUnix_once_def by (rule pub_sub_unix.runs_are_log_runs [OF assms])


text \<open>One subscriber registered once and the other twice.\<close>

definition udp_twice_start where
  "udp_twice_start =
    (let pub = \<lparr>socket_fd = 4, clientaddrs = [inet_of 0x0100007F 9003, inet_of 0x0100007F 9005, inet_of 0x0100007F 9003]\<rparr>
     in lan_machine ([lan_subscriber 3, lan_subscriber 5], pub, sends_of pub [[1, 2], [3, 4], [5, 6]]) udp_hub)"


section \<open>Requests over Unix sockets\<close>

text \<open>
  The exchange of a request and its reply over Unix sockets. Here the requester needs an address of
  its own: the replier answers to the path in the structure that the receive filled.
\<close>
lemma unix_request_exchange:
  assumes "dgram_law P queue addr_of reaches"
    and "idle_pair queue addr_of reaches sizeof_unix (socket_fd (self s)) (socket_fd (self p))
      (unix_bytes addr) (world s)"
    and "length m = rep_msg_size (self p)" and "m \<noteq> []"
    and "callback (self p) = Some cb" and "\<And>w. fst (cb m w) = Val r \<and> fst (snd (cb m w)) = w"
    and "length r = req_msg_size (self s)"
  shows "\<exists>t. RequestUnix_request (during_receive (unix_replier_turn P p) P) m addr s = (Val r, t) \<and>
    self t = self s \<and>
    idle_pair queue addr_of reaches sizeof_unix (socket_fd (self s)) (socket_fd (self p))
      (unix_bytes addr) (world t)"
  using unix_request_answered [OF assms] by blast

definition double_cb :: "(lan, message_t) callback" where
  "double_cb m w = (Val (map (\<lambda>b. 2 * b) m), w, [])"

lemma unix_hub_idle: "idle_pair lan_queue lan_addr lan_reaches sizeof_unix 4 3 (unix_bytes (unix_at 3)) unix_hub"
proof -
  have "overwrite (replicate sizeof_unix 0) (unix_bytes (unix_at 4)) = unix_bytes (unix_at 4)"
    by (rule overwrite_full) (simp add: unix_bytes_def unix_at_def sizeof_unix_def)
  moreover have "lan_addr unix_hub 4 = unix_bytes (unix_at 4)" "lan_queue unix_hub fd = []" for fd
    by (simp_all add: unix_hub_def lan_hub_def)
  ultimately show ?thesis by (simp add: idle_pair_def unix_hub_reaches)
qed

lemma unix_request_exchange_witness:
  "\<exists>t. RequestUnix_request (during_receive (unix_replier_turn lan_platform
      (lan_machine \<lparr>socket_fd = 3, callback = Some double_cb, rep_msg_size = 2\<rparr> unix_hub)) lan_platform)
    [7, 8] (unix_at 3) (lan_machine \<lparr>socket_fd = 4, req_msg_size = 2\<rparr> unix_hub) = (Val [14, 16], t)"
  using unix_request_exchange [OF lan_dgram_law,
      of "lan_machine \<lparr>socket_fd = 4, req_msg_size = 2\<rparr> unix_hub"
        "lan_machine \<lparr>socket_fd = 3, callback = Some double_cb, rep_msg_size = 2\<rparr> unix_hub"
        "unix_at 3" "[7, 8]" double_cb "[14, 16]"] unix_hub_idle
  by (auto simp: double_cb_def)

section \<open>Requests at the same time\<close>


text \<open>
  The same over Unix sockets, with requesters that are bound to paths of their own.
\<close>
lemma unix_requests_answered:
  assumes "dgram_law P queue addr_of reaches"
    and "service_ready queue addr_of reaches sizeof_unix (unix_bytes addr) f s" and "self s = (qs, r)"
    and "service_run (\<lambda>m. SocketUnix_sendto P m addr 0) (\<lambda>s. SocketUnix_recv P (req_msg_size (self s)) 0 s)
      (ReplyUnix_once P) queue s es t"
  shows "(\<forall>i < length qs. \<exists>asked waiting. answers i es = map (\<lambda>m. (m, f m)) asked \<and>
      asked @ waiting = todo (qs ! i)) \<and>
    length es \<le> 3 * (\<Sum>q \<leftarrow> qs. length (todo q)) \<and>
    ((\<forall>e u. \<not> service_step (\<lambda>m. SocketUnix_sendto P m addr 0)
        (\<lambda>s. SocketUnix_recv P (req_msg_size (self s)) 0 s) (ReplyUnix_once P) queue t e u) \<longrightarrow>
      (\<forall>i < length qs. answers i es = map (\<lambda>m. (m, f m)) (todo (qs ! i)))) \<and>
    (\<forall>m u. RequestUnix_request P m addr u = bnd (SocketUnix_sendto P m addr 0)
      (\<lambda>_ s. SocketUnix_recv P (req_msg_size (self s)) 0 s) u)"
proof -
  have "RequestUnix_request P m addr u = bnd (SocketUnix_sendto P m addr 0)
      (\<lambda>_ s. SocketUnix_recv P (req_msg_size (self s)) 0 s) u" for m u
    by (simp add: RequestUnix_request_def Request_request_def bnd_case gets_apply split: outcome.split)
  with exchange_unix.service_answers [OF assms [unfolded ReplyUnix_once_def]] show ?thesis
    unfolding ReplyUnix_once_def by blast
qed

text \<open>Two requesters with two and one requests, and a replier that reverses, in the sample network.\<close>

definition rev_cb :: "(lan, message_t) callback" where
  "rev_cb m w = (Val (rev m), w, [])"

definition lan_asker :: "int \<Rightarrow> message_t list \<Rightarrow> Request asker" where
  "lan_asker fd ms = \<lparr>asker_obj = \<lparr>socket_fd = fd, req_msg_size = 2\<rparr>, todo = ms, pending = None\<rparr>"

definition lan_service where
  "lan_service w = lan_machine
    ([lan_asker 4 [[1, 2], [3, 4]], lan_asker 5 [[5, 6]]],
     \<lparr>socket_fd = 3, callback = Some rev_cb, rep_msg_size = 2\<rparr>) w"

lemma lan_served:
  "(\<forall>m \<in> set ms. length m = 2) \<Longrightarrow>
    served_by rev \<lparr>socket_fd = 3, callback = Some rev_cb, rep_msg_size = 2\<rparr> (lan_asker fd ms)"
  by (auto simp: served_by_def lan_asker_def)

lemma rev_cb_answers: "answers_with rev (Some rev_cb)"
  by (simp add: answers_with_def rev_cb_def)

definition ask_hub :: lan where
  "ask_hub = lan_hub (\<lambda>fd. inet_bytes (inet_of 0x0100007F (if fd = 3 then 9003 else if fd = 4 then 9004 else 9005)))"

lemma ask_hub_reaches:
  "lan_reaches ask_hub (inet_bytes (inet_of 0x0100007F 9003)) fd \<longleftrightarrow> fd = 3"
  "lan_reaches ask_hub (inet_bytes (inet_of 0x0100007F 9004)) fd \<longleftrightarrow> fd = 4"
  "lan_reaches ask_hub (inet_bytes (inet_of 0x0100007F 9005)) fd \<longleftrightarrow> fd = 5"
  by (auto simp: lan_reaches_def ask_hub_def lan_hub_def inet_bytes_def inet_of_def htons_def le16_def le32_def
      AF_INET_def AF_UNIX_def replicate_bytes)

lemma padded_inet: "overwrite (replicate sizeof_inet 0) (inet_bytes (inet_of ip port)) = inet_bytes (inet_of ip port)"
  by (rule overwrite_full) (simp add: inet_bytes_def inet_of_def sizeof_inet_def)

lemma padded_unix: "overwrite (replicate sizeof_unix 0) (unix_bytes (unix_at c)) = unix_bytes (unix_at c)"
  by (rule overwrite_full) (simp add: unix_bytes_def unix_at_def sizeof_unix_def)

lemma ask_hub_ready:
  "service_ready lan_queue lan_addr lan_reaches sizeof_inet (inet_bytes (inet_of 0x0100007F 9003)) rev
    (lan_service ask_hub)"
proof -
  have "lan_addr ask_hub 4 = inet_bytes (inet_of 0x0100007F 9004)"
    "lan_addr ask_hub 5 = inet_bytes (inet_of 0x0100007F 9005)" "lan_queue ask_hub fd = []" for fd
    by (simp_all add: ask_hub_def lan_hub_def)
  moreover have "asker_fd (lan_asker fd ms) = fd" "pending (lan_asker fd ms) = None" for fd ms
    by (simp_all add: lan_asker_def)
  ultimately show ?thesis
    by (simp add: service_ready_def lan_service_def service_net_def ask_hub_reaches padded_inet rev_cb_answers lan_served)
qed

lemma unix_hub_ready:
  "service_ready lan_queue lan_addr lan_reaches sizeof_unix (unix_bytes (unix_at 3)) rev (lan_service unix_hub)"
proof -
  have "lan_addr unix_hub 4 = unix_bytes (unix_at 4)" "lan_addr unix_hub 5 = unix_bytes (unix_at 5)"
    "lan_queue unix_hub fd = []" for fd
    by (simp_all add: unix_hub_def lan_hub_def)
  moreover have "asker_fd (lan_asker fd ms) = fd" "pending (lan_asker fd ms) = None" for fd ms
    by (simp_all add: lan_asker_def)
  ultimately show ?thesis
    by (simp add: service_ready_def lan_service_def service_net_def unix_hub_reaches padded_unix rev_cb_answers lan_served)
qed


lemma unix_requests_answered_witness:
  "\<exists>es t. service_run (\<lambda>m. SocketUnix_sendto lan_platform m (unix_at 3) 0)
      (\<lambda>s. SocketUnix_recv lan_platform (req_msg_size (self s)) 0 s) (ReplyUnix_once lan_platform)
      lan_queue (lan_service unix_hub) es t \<and>
    answers 0 es = [([1, 2], [2, 1]), ([3, 4], [4, 3])] \<and> answers 1 es = [([5, 6], [6, 5])] \<and> length es \<le> 9"
proof -
  let ?step = "service_step (\<lambda>m. SocketUnix_sendto lan_platform m (unix_at 3) 0)
      (\<lambda>s. SocketUnix_recv lan_platform (req_msg_size (self s)) 0 s) (ReplyUnix_once lan_platform) lan_queue"
  let ?run = "service_run (\<lambda>m. SocketUnix_sendto lan_platform m (unix_at 3) 0)
      (\<lambda>s. SocketUnix_recv lan_platform (req_msg_size (self s)) 0 s) (ReplyUnix_once lan_platform) lan_queue
      (lan_service unix_hub)"
  from exchange_unix.complete_service_exists [OF lan_dgram_law unix_hub_ready]
  obtain es t where run: "?run es t" and stuck: "\<forall>e u. \<not> ?step t e u"
    unfolding ReplyUnix_once_def by blast
  have s: "self (lan_service unix_hub) = ([lan_asker 4 [[1, 2], [3, 4]], lan_asker 5 [[5, 6]]],
      \<lparr>socket_fd = 3, callback = Some rev_cb, rep_msg_size = 2\<rparr>)" by (simp add: lan_service_def)
  note result = unix_requests_answered [OF lan_dgram_law unix_hub_ready s run]
  from result stuck have "\<forall>i < length [lan_asker 4 [[1, 2], [3, 4]], lan_asker 5 [[5, 6]]]. answers i es =
      map (\<lambda>m. (m, rev m)) (todo ([lan_asker 4 [[1, 2], [3, 4]], lan_asker 5 [[5, 6]]] ! i))" by blast
  from this [rule_format, of 0] this [rule_format, of 1] have
    "answers 0 es = [([1, 2], [2, 1]), ([3, 4], [4, 3])]" "answers 1 es = [([5, 6], [6, 5])]"
    by (simp_all add: lan_asker_def)
  moreover from result [THEN conjunct2, THEN conjunct1] have "length es \<le> 9" by (simp add: lan_asker_def)
  ultimately show ?thesis using run by blast
qed

section \<open>bc.cpp\<close>

text \<open>The turns of the server and of a client as a sender and a receiver.\<close>

definition broadcasts :: "('w \<Rightarrow> byte list \<Rightarrow> int \<Rightarrow> bool) \<Rightarrow> SocketBC \<Rightarrow> 'w \<Rightarrow> message_t \<Rightarrow> int \<Rightarrow> message_t list" where
  "broadcasts reaches p w m fd = (if reaches w (inet_bytes (bc_addr p)) fd then [m] else [])"

definition bc_server_turn :: "('w, 'p) platform_scheme \<Rightarrow> message_t \<Rightarrow> ((SocketBC, 'w) mach, unit) act" where
  "bc_server_turn P sub = bnd (SocketBC_cast P sub) (\<lambda>_. print (''cast: '' @ msg2string sub))"

interpretation bc_relay: relay "bc_server_turn P" "SocketUDP_recv P 2 0 :: (unit, 'w, message_t) sock_act"
  "bc_client_turn P 2" queue
  "broadcasts reaches" "\<lambda>r w ms. \<forall>m \<in> set ms. length m = 2" "dgram_law P queue addr_of reaches"
  "\<lambda>p w. reaches w (inet_bytes (bc_addr p))"
  for P :: "('w, 'p) platform_scheme" and queue addr_of reaches
proof unfold_locales
  fix m and s :: "(SocketBC, 'w) mach"
  assume law: "dgram_law P queue addr_of reaches"
  show "\<exists>t. bc_server_turn P m s = (Val (), t) \<and> self t = self s \<and>
      broadcasts reaches (self s) (world t) = broadcasts reaches (self s) (world s) \<and>
      (\<forall>fd. map fst (queue (world t) fd) =
        map fst (queue (world s) fd) @ broadcasts reaches (self s) (world s) m fd) \<and>
      (\<forall>(r :: Socket) ms. (\<forall>m \<in> set ms. length m = 2) \<longrightarrow> (\<forall>m \<in> set ms. length m = 2))"
    using net_udp.sendto_delivers [OF law, of m "bc_addr (self s)" s]
    by (auto simp: bc_server_turn_def bnd_case cast_eq print_apply net_becomes_def broadcasts_def fun_eq_iff)
next
  fix r :: "(Socket, 'w) mach" and m ms src ds
  assume law: "dgram_law P queue addr_of reaches" and m: "\<forall>k \<in> set (m # ms). length k = (2 :: nat)"
    and q: "queue (world r) (socket_fd (self r)) = (m, src) # ds"
  obtain a b where ab: "m = [a, b]" using m by (auto simp: numeral_2_eq_2 length_Suc_conv)
  obtain t where t: "SocketUDP_recv P 2 0 r = (Val [a, b], t)" "self t = self r"
    "net_becomes queue addr_of reaches (world r) ((queue (world r))(socket_fd (self r) := ds)) (world t)"
    using net_udp.recv_delivers [OF law q, of 2] ab by auto
  from t m show "fst (SocketUDP_recv P 2 0 r) = Val m \<and>
      (\<exists>t. bc_client_turn P 2 r = (Val (), t) \<and> socket_fd (self t) = socket_fd (self r) \<and>
        (\<forall>m \<in> set ms. length m = 2) \<and>
        queue (world t) = (queue (world r))(socket_fd (self r) := ds) \<and>
        (\<forall>p. broadcasts reaches p (world t) = broadcasts reaches p (world r)) \<and>
        (\<forall>(r' :: Socket) ms'. socket_fd r' \<noteq> socket_fd (self r) \<longrightarrow> (\<forall>m \<in> set ms'. length m = 2) \<longrightarrow>
          (\<forall>m \<in> set ms'. length m = 2)))"
    by (simp add: client_turn_received [OF t(1)] ab net_becomes_def broadcasts_def fun_eq_iff)
qed (simp add: broadcasts_def)

text \<open>The message \<open>bc.cpp\<close> sends.\<close>

definition bc_message :: message_t where
  "bc_message = pack subscription_rep \<lparr>topic = 69, status = SUBSCRIBE\<rparr>"

lemma bc_message_eq: "bc_message = [69, 170]"
  by (simp add: bc_message_def subscription_rep_def SUBSCRIBE_def)


definition bc_hub :: lan where
  "bc_hub = lan_hub (\<lambda>fd. inet_bytes (inet_of 0 (if fd = 4 then 9004 else BC_PORT)))"

lemma bc_hub_reaches:
  "lan_reaches bc_hub (inet_bytes (inet_of INADDR_BROADCAST BC_PORT)) fd \<longleftrightarrow> fd = 3 \<or> fd = 5"
  by (auto simp: lan_reaches_def bc_hub_def lan_hub_def inet_bytes_def inet_of_def htons_def le16_def le32_def
      AF_INET_def AF_UNIX_def replicate_bytes BC_PORT_def INADDR_BROADCAST_def)

definition bc_hub_start where
  "bc_hub_start = lan_machine
    ([\<lparr>socket_fd = 3\<rparr>, \<lparr>socket_fd = 5\<rparr>], \<lparr>socket_fd = 4, bc_addr = inet_of INADDR_BROADCAST BC_PORT\<rparr>,
     replicate BC_LOOP bc_message) bc_hub"


end
