(* ===== verification/Unit_Tests.thy ===== *)
theory Unit_Tests
  imports Delivery_Properties Example_Properties Ascii_Codec
begin

text \<open>
  The tests \<open>test_marko.cpp\<close> and \<open>test_rr.cpp\<close> under \<open>gtests/\<close> as programs of the model. An expectation that is not met is
  reported by the test framework, which is not part of the repository: what it does then is the parameter
  \<open>failed\<close> of the tests. An expectation that is met has no effect, so a test that returns for every \<open>failed\<close>,
  one that is undefined included, passes. The expectations about \<open>sizeof\<close> of one type are left out.
\<close>

section \<open>Expectations\<close>

definition EXPECT :: "(('o, 'w) mach, unit) act \<Rightarrow> bool \<Rightarrow> (('o, 'w) mach, unit) act" where
  "EXPECT failed b = (if b then ret () else failed)"

lemma EXPECT_True [simp]: "EXPECT failed True = ret ()"
  by (simp add: EXPECT_def)

section \<open>test_marko.cpp\<close>

definition test_addresses ::
  "(('o, 'w) mach, unit) act \<Rightarrow> ('w, 'p) platform_scheme \<Rightarrow> (('o, 'w) mach, unit) act" where
  "test_addresses failed P =
    (let port = 9999; host = ''1.2.3.4''; address = ''udp://'' @ host @ '':'' @ to_string port
     in bnd (lift_outcome (inet_sockaddr P address)) (\<lambda>addr.
        bnd (EXPECT failed (s_addr addr = inet_addr P host)) (\<lambda>_.
        bnd (EXPECT failed (sin_port addr = htons (word_of_int port))) (\<lambda>_.
        let port = 99; host = ''bc''; address = ''udp://'' @ host @ '':'' @ to_string port
        in bnd (lift_outcome (inet_sockaddr P address)) (\<lambda>addr.
           bnd (EXPECT failed (s_addr addr = inet_addr P ''255.255.255.255'')) (\<lambda>_.
           EXPECT failed (sin_port addr = htons (word_of_int port))))))))"

text \<open>\<open>msg[i]\<close> of a vector that is too short is undefined.\<close>

definition vector_at :: "'a list \<Rightarrow> nat \<Rightarrow> 'a outcome" where
  "vector_at v i = (if i < length v then Val (v ! i) else Undef Empty_vector_access)"

definition test_ascii :: "(('o, 'w) mach, unit) act \<Rightarrow> (('o, 'w) mach, unit) act" where
  "test_ascii failed =
    (let a = Ascii_ctor (CHR ''|''); orig = ''bob|tom|alice|george'';
         msg = toks (Ascii_unpack a orig)
     in bnd (for_each (zip [0..<4] [''bob'', ''tom'', ''alice'', ''george'']) (\<lambda>(i, name).
          bnd (lift_outcome (vector_at msg i)) (\<lambda>token. EXPECT failed (name = token)))) (\<lambda>_.
        bnd (lift_outcome (Ascii_pack a msg)) (\<lambda>redo.
        EXPECT failed (redo = orig))))"

record int_struct =
  int_a :: "32 word"

definition int_rep :: "int_struct \<Rightarrow> byte list" where
  "int_rep d = le32 (int_a d)"

definition int_val :: "byte list \<Rightarrow> int_struct" where
  "int_val bs = \<lparr>int_a = of_le32 bs\<rparr>"

interpretation int_struct: trivially_copyable 4 int_rep int_val
  by unfold_locales (simp_all add: int_rep_def int_val_def)

definition test_message :: "(('o, 'w) mach, unit) act \<Rightarrow> (('o, 'w) mach, unit) act" where
  "test_message failed =
    (let d = \<lparr>int_a = 5\<rparr>; m = pack int_rep d
     in bnd (lift_outcome (object_value (unpack 4 int_val m))) (\<lambda>e.
        EXPECT failed (int_a d = int_a e)))"

section \<open>test_rr.cpp\<close>

definition TEST_LOOP :: nat where "TEST_LOOP = 5"

text \<open>What both tests of the file put into \<open>test_data\<close>, the second behind what the first left.\<close>

definition test_data :: "nat \<Rightarrow> int_struct list" where
  "test_data runs = concat (replicate runs (map (\<lambda>i. \<lparr>int_a = of_nat i\<rparr>) [0..<TEST_LOOP]))"

text \<open>Twice an \<open>int\<close>: an overflow is undefined.\<close>

definition twice :: "32 word \<Rightarrow> 32 word outcome" where
  "twice a = (if 2 * sint a \<in> {- (2 ^ 31) ..< 2 ^ 31} then Val (2 * a) else Undef Signed_overflow)"

definition test_cb :: "('w, message_t) callback" where
  "test_cb m w = (case object_value (unpack 4 int_val m) of
      Val s \<Rightarrow> (case twice (int_a s) of
          Val a \<Rightarrow> (Val (pack int_rep \<lparr>int_a = a\<rparr>), w, [])
        | Exn e \<Rightarrow> (Exn e, w, [])
        | Undef u \<Rightarrow> (Undef u, w, []))
    | Exn e \<Rightarrow> (Exn e, w, [])
    | Undef u \<Rightarrow> (Undef u, w, []))"

text \<open>The loop bodies of the requesters.\<close>

definition req_turn ::
  "((Request, 'w) mach, unit) act \<Rightarrow> ('w, 'p) platform_scheme \<Rightarrow> int_struct list \<Rightarrow> inetaddr_t \<Rightarrow> nat \<Rightarrow> ((Request, 'w) mach, unit) act" where
  "req_turn failed P data addr i =
    bnd (lift_outcome (vector_at data i)) (\<lambda>d.
    bnd (RequestUDP_request P (pack int_rep d) addr) (\<lambda>rp.
    bnd (lift_outcome (object_value (unpack 4 int_val rp))) (\<lambda>resp.
    bnd (lift_outcome (twice (int_a d))) (\<lambda>a.
    EXPECT failed (int_a resp = a)))))"

definition req_turn_un ::
  "((Request, 'w) mach, unit) act \<Rightarrow> ('w, 'p) platform_scheme \<Rightarrow> int_struct list \<Rightarrow> unixaddr_t \<Rightarrow> nat \<Rightarrow> ((Request, 'w) mach, unit) act" where
  "req_turn_un failed P data addr i =
    bnd (lift_outcome (vector_at data i)) (\<lambda>d.
    bnd (RequestUnix_request P (pack int_rep d) addr) (\<lambda>rp.
    bnd (lift_outcome (object_value (unpack 4 int_val rp))) (\<lambda>resp.
    bnd (lift_outcome (twice (int_a d))) (\<lambda>a.
    bnd (EXPECT failed (int_a resp = a)) (\<lambda>_.
    EXPECT failed (length rp = 4))))))"

definition TEST_PORT :: int where "TEST_PORT = 9999"

definition req_thread ::
  "((Request, 'w) mach, unit) act \<Rightarrow> ('w, 'p) platform_scheme \<Rightarrow> int_struct list \<Rightarrow> ((Request, 'w) mach, unit) act" where
  "req_thread failed P data =
    bnd (lift_outcome (inet_sockaddr P (''udp://127.0.0.1:'' @ to_string TEST_PORT))) (\<lambda>addr.
    scoped P (Request_ctor (SocketUDP_ctor P) 4) (for_each [0..<TEST_LOOP] (req_turn failed P data addr)))"

definition rep_thread :: "('w, 'p) platform_scheme \<Rightarrow> (('w Reply, 'w) mach, unit) act" where
  "rep_thread P =
    scoped P (Reply_ctor (SocketUDP_ctor P) 4)
      (bnd (Socket_bind P (''udp://*:'' @ to_string TEST_PORT)) (\<lambda>_.
       bnd (Reply_register_cb test_cb) (\<lambda>_.
       for_each [0..<TEST_LOOP] (\<lambda>i. ReplyUDP_once P))))"

definition req_thread_un ::
  "((Request, 'w) mach, unit) act \<Rightarrow> ('w, 'p) platform_scheme \<Rightarrow> int_struct list \<Rightarrow> ((Request, 'w) mach, unit) act" where
  "req_thread_un failed P data =
    bnd (lift_outcome (unix_sockaddr P ''unix://./unix.rr.uds'')) (\<lambda>addr.
    scoped P (Request_ctor (SocketUnix_ctor P) 4)
      (bnd (Socket_bind P ''unix://./unix.rr2.uds'') (\<lambda>_.
       for_each [0..<TEST_LOOP] (req_turn_un failed P data addr))))"

definition rep_thread_un :: "('w, 'p) platform_scheme \<Rightarrow> (('w Reply, 'w) mach, unit) act" where
  "rep_thread_un P =
    scoped P (Reply_ctor (SocketUnix_ctor P) 4)
      (bnd (Socket_bind P ''unix://./unix.rr.uds'') (\<lambda>_.
       bnd (Reply_register_cb test_cb) (\<lambda>_.
       for_each [0..<TEST_LOOP] (\<lambda>i. ReplyUnix_once P))))"

section \<open>The tests pass\<close>

lemma test_addresses_pass:
  assumes "frame_intact P" and "inet_addr P ''255.255.255.255'' = INADDR_BROADCAST"
  shows "test_addresses failed P s = (Val (), s)"
proof -
  have d: "to_string 9999 = nat_digits 9999" "to_string 99 = nat_digits 99" by (simp_all add: to_string_nonneg)
  have t: "ip_text ''1.2.3.4''" "ip_text ''bc''" by code_simp+
  have "inet_sockaddr P (''udp://'' @ ''1.2.3.4'' @ '':'' @ nat_digits 9999) =
      Val (inet_of (inet_addr P ''1.2.3.4'') 9999)"
    using inet_sockaddr_host_port [OF assms(1) _ t(1), of "''udp''" 9999] by (simp add: host_addr_def INT_MAX_def)
  moreover have "inet_sockaddr P (''udp://'' @ ''bc'' @ '':'' @ nat_digits 99) =
      Val (inet_of INADDR_BROADCAST 99)"
    using inet_sockaddr_host_port [OF assms(1) _ t(2), of "''udp''" 99] by (simp add: host_addr_def INT_MAX_def)
  ultimately show ?thesis
    using assms(2) by (simp add: test_addresses_def d bnd_case lift_outcome_apply inet_of_def ret_apply)
qed

lemma test_ascii_pass: "test_ascii failed s = (Val (), s)"
proof -
  have "toks (Ascii_unpack (Ascii_ctor (CHR ''|'')) ''bob|tom|alice|george'') =
      [''bob'', ''tom'', ''alice'', ''george'']"
    by (simp add: Ascii_unpack_def Ascii_ctor_def) (simp add: tokens.simps getline_def)
  then show ?thesis
    by (simp add: test_ascii_def Let_def vector_at_def Ascii_pack_def Ascii_ctor_def bnd_case lift_outcome_apply
        ret_apply upt_rec)
qed

lemma test_message_pass: "test_message failed s = (Val (), s)"
  using int_struct.unpack_pack [of "\<lparr>int_a = 5\<rparr>"]
  by (simp add: test_message_def Let_def bnd_case lift_outcome_apply ret_apply)

text \<open>
  The tests of \<open>test_marko.cpp\<close> pass, with no expectation recorded as not met: the parsed addresses are
  those of \<open>inet_addr\<close> and \<open>htons\<close> (\<open>bc\<close> is 255.255.255.255), tokens come apart and together again, and a
  struct is packed and unpacked.
\<close>
lemma own_tests_pass:
  assumes "frame_intact P" and "inet_addr P ''255.255.255.255'' = INADDR_BROADCAST"
  shows "test_addresses failed P s = (Val (), s) \<and> test_ascii failed s = (Val (), s) \<and> test_message failed s = (Val (), s)"
  using test_addresses_pass [OF assms] test_ascii_pass test_message_pass by blast

lemma own_tests_pass_witness:
  "test_addresses (\<lambda>s. (Undef Indeterminate_value, s)) sample (machine \<lparr>socket_fd = 3\<rparr> net_start) =
    (Val (), machine \<lparr>socket_fd = 3\<rparr> net_start)"
  using own_tests_pass [of sample "\<lambda>s. (Undef Indeterminate_value, s)" "machine \<lparr>socket_fd = 3\<rparr> net_start"]
  by (simp add: sample_inet_addr_def INADDR_BROADCAST_def)

lemma twice_small: "i < 2 ^ 30 \<Longrightarrow> twice (of_nat i) = Val (of_nat (2 * i))"
  by (simp add: twice_def signed_of_nat signed_take_bit_int_eq_self)

lemma test_cb_answers:
  assumes "i < 2 ^ 30"
  shows "test_cb (pack int_rep \<lparr>int_a = of_nat i\<rparr>) w =
    (Val (pack int_rep \<lparr>int_a = of_nat (2 * i)\<rparr>), w, [])"
  using int_struct.unpack_pack [of "\<lparr>int_a = of_nat i\<rparr>"] twice_small [OF assms]
  by (simp add: test_cb_def del: of_nat_mult)

lemma test_cb_callback:
  assumes "i < 2 ^ 30"
  shows "\<And>w. fst (test_cb (pack int_rep \<lparr>int_a = of_nat i\<rparr>) w) = Val (pack int_rep \<lparr>int_a = of_nat (2 * i)\<rparr>) \<and>
    fst (snd (test_cb (pack int_rep \<lparr>int_a = of_nat i\<rparr>) w)) = w"
  unfolding test_cb_answers [OF assms] by simp

lemma test_data_at:
  assumes "0 < runs" and "i < TEST_LOOP"
  shows "vector_at (test_data runs) i = Val \<lparr>int_a = of_nat i\<rparr>"
proof -
  obtain k where "runs = Suc k" using assms(1) gr0_implies_Suc by blast
  then have "test_data runs = map (\<lambda>i. \<lparr>int_a = of_nat i\<rparr>) [0..<TEST_LOOP] @ test_data k" by (simp add: test_data_def)
  with assms(2) show ?thesis by (simp add: vector_at_def nth_append)
qed

lemma pack_int_length: "length (pack int_rep d) = 4"
  by (rule int_struct.pack_length)

lemma pack_int_not_Nil: "pack int_rep d \<noteq> []"
  using pack_int_length [of d] by auto

text \<open>The turns of either requester, with the replier's turns inside: the expectations are met.\<close>

lemma req_turn_passes:
  assumes law: "dgram_law P queue addr_of reaches"
    and idle: "idle_pair queue addr_of reaches sizeof_inet (socket_fd (self s)) (socket_fd (self p)) (inet_bytes addr) (world s)"
    and p: "rep_msg_size (self p) = 4" "callback (self p) = Some test_cb" and n: "req_msg_size (self s) = 4"
    and "0 < runs" and "i < TEST_LOOP"
  shows "\<exists>t. req_turn failed (during_receive (replier_turn P p) P) (test_data runs) addr i s = (Val (), t) \<and>
    self t = self s \<and> cout t = cout s \<and>
    idle_pair queue addr_of reaches sizeof_inet (socket_fd (self s)) (socket_fd (self p)) (inet_bytes addr) (world t)"
proof -
  have i: "i < 2 ^ 30" using assms(7) by (simp add: TEST_LOOP_def)
  have len: "length (pack int_rep \<lparr>int_a = of_nat i\<rparr>) = rep_msg_size (self p)"
    "length (pack int_rep \<lparr>int_a = of_nat (2 * i)\<rparr>) = req_msg_size (self s)"
    unfolding p n by (rule pack_int_length)+
  have "unpack 4 int_val (pack int_rep \<lparr>int_a = of_nat (2 * i)\<rparr>) = Val (Determinate \<lparr>int_a = of_nat (2 * i)\<rparr>)"
    by (rule int_struct.unpack_pack)
  with udp_request_answered [OF law idle len(1) pack_int_not_Nil p(2) test_cb_callback [OF i] len(2)]
  show ?thesis
    using pack_int_length
    by (auto simp: req_turn_def test_data_at [OF assms(6,7)] bnd_case lift_outcome_apply ret_apply
        twice_small [OF i] simp del: of_nat_mult pack_eq_rep)
qed

lemma req_turns_pass:
  assumes "dgram_law P queue addr_of reaches"
    and "idle_pair queue addr_of reaches sizeof_inet (socket_fd (self s)) (socket_fd (self p)) (inet_bytes addr) (world s)"
    and "rep_msg_size (self p) = 4" "callback (self p) = Some test_cb" and "req_msg_size (self s) = 4"
    and "0 < runs" and "\<forall>i \<in> set is. i < TEST_LOOP"
  shows "\<exists>t. for_each is (req_turn failed (during_receive (replier_turn P p) P) (test_data runs) addr) s = (Val (), t) \<and>
    self t = self s \<and> cout t = cout s"
  using assms(2,5,7)
proof (induction "is" arbitrary: s)
  case Nil
  then show ?case by (simp add: ret_apply)
next
  case (Cons i js)
  obtain t where t: "req_turn failed (during_receive (replier_turn P p) P) (test_data runs) addr i s = (Val (), t)"
    "self t = self s" "cout t = cout s"
    "idle_pair queue addr_of reaches sizeof_inet (socket_fd (self s)) (socket_fd (self p)) (inet_bytes addr) (world t)"
    using req_turn_passes [OF assms(1) Cons.prems(1) assms(3,4) Cons.prems(2) assms(6)] Cons.prems(3) by force
  with Cons.IH [of t] Cons.prems show ?case by (auto simp: bnd_case)
qed

lemma req_turn_un_passes:
  assumes law: "dgram_law P queue addr_of reaches"
    and idle: "idle_pair queue addr_of reaches sizeof_unix (socket_fd (self s)) (socket_fd (self p)) (unix_bytes addr) (world s)"
    and p: "rep_msg_size (self p) = 4" "callback (self p) = Some test_cb" and n: "req_msg_size (self s) = 4"
    and "0 < runs" and "i < TEST_LOOP"
  shows "\<exists>t. req_turn_un failed (during_receive (unix_replier_turn P p) P) (test_data runs) addr i s = (Val (), t) \<and>
    self t = self s \<and> cout t = cout s \<and>
    idle_pair queue addr_of reaches sizeof_unix (socket_fd (self s)) (socket_fd (self p)) (unix_bytes addr) (world t)"
proof -
  have i: "i < 2 ^ 30" using assms(7) by (simp add: TEST_LOOP_def)
  have len: "length (pack int_rep \<lparr>int_a = of_nat i\<rparr>) = rep_msg_size (self p)"
    "length (pack int_rep \<lparr>int_a = of_nat (2 * i)\<rparr>) = req_msg_size (self s)"
    unfolding p n by (rule pack_int_length)+
  have "unpack 4 int_val (pack int_rep \<lparr>int_a = of_nat (2 * i)\<rparr>) = Val (Determinate \<lparr>int_a = of_nat (2 * i)\<rparr>)"
    by (rule int_struct.unpack_pack)
  with unix_request_answered [OF law idle len(1) pack_int_not_Nil p(2) test_cb_callback [OF i] len(2)]
  show ?thesis
    using pack_int_length
    by (auto simp: req_turn_un_def test_data_at [OF assms(6,7)] bnd_case lift_outcome_apply ret_apply
        twice_small [OF i] simp del: of_nat_mult pack_eq_rep)
qed

lemma req_turn_uns_pass:
  assumes "dgram_law P queue addr_of reaches"
    and "idle_pair queue addr_of reaches sizeof_unix (socket_fd (self s)) (socket_fd (self p)) (unix_bytes addr) (world s)"
    and "rep_msg_size (self p) = 4" "callback (self p) = Some test_cb" and "req_msg_size (self s) = 4"
    and "0 < runs" and "\<forall>i \<in> set is. i < TEST_LOOP"
  shows "\<exists>t. for_each is (req_turn_un failed (during_receive (unix_replier_turn P p) P) (test_data runs) addr) s = (Val (), t) \<and>
    self t = self s \<and> cout t = cout s"
  using assms(2,5,7)
proof (induction "is" arbitrary: s)
  case Nil
  then show ?case by (simp add: ret_apply)
next
  case (Cons i js)
  obtain t where t: "req_turn_un failed (during_receive (unix_replier_turn P p) P) (test_data runs) addr i s = (Val (), t)"
    "self t = self s" "cout t = cout s"
    "idle_pair queue addr_of reaches sizeof_unix (socket_fd (self s)) (socket_fd (self p)) (unix_bytes addr) (world t)"
    using req_turn_un_passes [OF assms(1) Cons.prems(1) assms(3,4) Cons.prems(2) assms(6)] Cons.prems(3) by force
  with Cons.IH [of t] Cons.prems show ?case by (auto simp: bnd_case)
qed

text \<open>The endpoints when their loops begin.\<close>

definition rep_ready :: "('w, 'p) platform_scheme \<Rightarrow> (('w Reply, 'w) mach, unit) act" where
  "rep_ready P = bnd (Reply_ctor (SocketUDP_ctor P) 4) (\<lambda>_.
     bnd (Socket_bind P (''udp://*:'' @ to_string TEST_PORT)) (\<lambda>_. Reply_register_cb test_cb))"

definition rep_ready_un :: "('w, 'p) platform_scheme \<Rightarrow> (('w Reply, 'w) mach, unit) act" where
  "rep_ready_un P = bnd (Reply_ctor (SocketUnix_ctor P) 4) (\<lambda>_.
     bnd (Socket_bind P ''unix://./unix.rr.uds'') (\<lambda>_. Reply_register_cb test_cb))"

lemma rep_ready_Val:
  assumes "rep_ready P s = (Val (), t)"
  shows "rep_msg_size (self t) = 4" and "callback (self t) = Some test_cb"
  using assms
  by (auto simp: rep_ready_def Reply_ctor_def Reply_register_cb_def bnd_Val_iff modify_apply dest!: bind_Val_self)

lemma rep_ready_un_Val:
  assumes "rep_ready_un P s = (Val (), t)"
  shows "rep_msg_size (self t) = 4" and "callback (self t) = Some test_cb"
  using assms
  by (auto simp: rep_ready_un_def Reply_ctor_def Reply_register_cb_def bnd_Val_iff modify_apply dest!: bind_Val_self)


text \<open>Both pairs of endpoints, built in this order on the network in memory.\<close>

lemma test_port: "to_string TEST_PORT = ''9999''"
  by (simp add: TEST_PORT_def to_string_nonneg nat_digits.simps digit_char_eqs)

lemma test_unix_addresses:
  "\<exists>a b. unix_sockaddr lan_platform ''unix://./unix.rr.uds'' = Val a \<and>
     unix_sockaddr lan_platform ''unix://./unix.rr2.uds'' = Val b \<and> unix_bytes a \<noteq> unix_bytes b \<and>
     take 2 (unix_bytes a) = le16 AF_UNIX \<and> take 2 (unix_bytes b) = le16 AF_UNIX \<and>
     length (unix_bytes b) = sizeof_unix"
proof -
  have t: "unix_text ''./unix.rr.uds''" "unix_text ''./unix.rr2.uds''" by code_simp+
  show ?thesis
    using unix_sockaddr_path [OF lan_intact t(1)] unix_sockaddr_path [OF lan_intact t(2)]
    by (simp add: unix_bytes_def path_tail_def sizeof_unix_def byte_of_char_def)
qed

lemma lan_ready:
  "\<exists>p. rep_ready lan_platform (lan_machine r lan_start) = (Val (), p) \<and> socket_fd (self p) = 3 \<and>
     world p = lan_one (inet_bytes (inet_of 0 9999))"
  "\<exists>s. Request_ctor (SocketUDP_ctor lan_platform) 4 (lan_machine q (lan_one a)) = (Val (), s) \<and> socket_fd (self s) = 4 \<and>
     world s = lan_two a (inet_bytes (inet_of 0x0100007F 40004)) \<and> cout s = []"
proof -
  have f: "fresh_fd [] = 3" "fresh_fd [3] = 4" by (simp_all add: fresh_fd_def)
  have l: "leftmost proto_at ''udp://*:9999'' = Some (''udp'', ''*:9999'')" by code_simp
  show "\<exists>p. rep_ready lan_platform (lan_machine r lan_start) = (Val (), p) \<and> socket_fd (self p) = 3 \<and>
     world p = lan_one (inet_bytes (inet_of 0 9999))"
    using lan_bound [OF l lan_udp_addresses(1), of "snd (Reply_ctor (SocketUDP_ctor lan_platform) 4 (lan_machine r lan_start))"]
    by (auto simp: rep_ready_def test_port bnd_case Reply_ctor_def lan_built modify_apply Reply_register_cb_def
        lan_start_def f Let_def lan_one_def fun_eq_iff)
  show "\<exists>s. Request_ctor (SocketUDP_ctor lan_platform) 4 (lan_machine q (lan_one a)) = (Val (), s) \<and> socket_fd (self s) = 4 \<and>
     world s = lan_two a (inet_bytes (inet_of 0x0100007F 40004)) \<and> cout s = []"
    by (auto simp: bnd_case Request_ctor_def lan_built modify_apply f Let_def lan_one_def lan_two_def fun_eq_iff)
qed

lemma lan_ready_unix:
  assumes "unix_sockaddr lan_platform ''unix://./unix.rr.uds'' = Val a"
    and "unix_sockaddr lan_platform ''unix://./unix.rr2.uds'' = Val b"
  shows "\<exists>p. rep_ready_un lan_platform (lan_machine r lan_start) = (Val (), p) \<and> socket_fd (self p) = 3 \<and>
      world p = lan_one (unix_bytes a)"
    and "\<exists>s t. Request_ctor (SocketUnix_ctor lan_platform) 4 (lan_machine q (lan_one (unix_bytes a))) = (Val (), s) \<and>
      Socket_bind lan_platform ''unix://./unix.rr2.uds'' s = (Val (), t) \<and> socket_fd (self t) = 4 \<and>
      world t = lan_two (unix_bytes a) (unix_bytes b)"
proof -
  have f: "fresh_fd [] = 3" "fresh_fd [3] = 4" by (simp_all add: fresh_fd_def)
  have l: "leftmost proto_at ''unix://./unix.rr.uds'' = Some (''unix'', ''./unix.rr.uds'')"
    "leftmost proto_at ''unix://./unix.rr2.uds'' = Some (''unix'', ''./unix.rr2.uds'')" by code_simp+
  show "\<exists>p. rep_ready_un lan_platform (lan_machine r lan_start) = (Val (), p) \<and> socket_fd (self p) = 3 \<and>
      world p = lan_one (unix_bytes a)"
    using lan_bound_unix [OF l(1) assms(1), of "snd (Reply_ctor (SocketUnix_ctor lan_platform) 4 (lan_machine r lan_start))"]
    by (auto simp: rep_ready_un_def bnd_case Reply_ctor_def lan_built modify_apply Reply_register_cb_def
        lan_start_def f Let_def lan_one_def fun_eq_iff)
  show "\<exists>s t. Request_ctor (SocketUnix_ctor lan_platform) 4 (lan_machine q (lan_one (unix_bytes a))) = (Val (), s) \<and>
      Socket_bind lan_platform ''unix://./unix.rr2.uds'' s = (Val (), t) \<and> socket_fd (self t) = 4 \<and>
      world t = lan_two (unix_bytes a) (unix_bytes b)"
    using lan_bound_unix [OF l(2) assms(2), of "snd (Request_ctor (SocketUnix_ctor lan_platform) 4
      (lan_machine q (lan_one (unix_bytes a))))"]
    by (auto simp: bnd_case Request_ctor_def lan_built modify_apply f Let_def lan_one_def lan_two_def fun_eq_iff)
qed

lemma lan_two_idle_unix:
  assumes "a \<noteq> b" and "take 2 a = le16 AF_UNIX" and "take 2 b = le16 AF_UNIX" and "length b = sizeof_unix"
  shows "idle_pair lan_queue lan_addr lan_reaches sizeof_unix 4 3 a (lan_two a b)"
  using assms by (auto simp: idle_pair_def lan_reaches_def lan_two_def overwrite_full)


end
