(* ===== verification/Thread_Tests.thy ===== *)
theory Thread_Tests
  imports Unit_Tests
begin

text \<open>
  The tests \<open>test_ps.cpp\<close> and \<open>test_bc.cpp\<close>, whose threads publish, subscribe and broadcast at the same time:
  the functions of the threads, and their exchanges in any order of steps. The callback of \<open>test_ps.cpp\<close> counts
  its messages in a variable of its own, which is a part of the world that no system call touches.
\<close>

section \<open>test_ps.cpp\<close>

text \<open>
  The callback: \<open>seen\<close> reads its counter and \<open>tick\<close> increments it; \<open>failed\<close> is what the test framework
  does with an expectation that is not met.
\<close>

definition ps_callback ::
  "('w \<Rightarrow> unit outcome \<times> 'w \<times> string list) \<Rightarrow> ('w \<Rightarrow> nat) \<Rightarrow> ('w \<Rightarrow> 'w) \<Rightarrow> int_struct list \<Rightarrow> ('w, unit) callback" where
  "ps_callback failed seen tick data m w =
    (case object_value (unpack 4 int_val m) of
       Val d \<Rightarrow> (case vector_at data (seen w) of
           Val e \<Rightarrow> (if int_a d = int_a e then (Val (), tick w, []) else failed (tick w))
         | Exn e \<Rightarrow> (Exn e, tick w, [])
         | Undef u \<Rightarrow> (Undef u, tick w, []))
     | Exn e \<Rightarrow> (Exn e, w, [])
     | Undef u \<Rightarrow> (Undef u, w, []))"

definition PS_TEST_PORT :: int where "PS_TEST_PORT = 8888"

definition sub_thread ::
  "('w, unit) callback \<Rightarrow> ('w, 'p) platform_scheme \<Rightarrow> (('w Subscriber, 'w) mach, unit) act" where
  "sub_thread cb P =
    scoped P (Subscriber_ctor (SocketUDP_ctor P) 4)
      (bnd (Socket_bind P (''udp://*:'' @ to_string PS_TEST_PORT)) (\<lambda>_.
       bnd (Subscriber_register_cb cb) (\<lambda>_.
       for_each [0..<TEST_LOOP] (\<lambda>i. SubscriberUDP_once P))))"

definition pub_thread ::
  "('w, 'p) platform_scheme \<Rightarrow> int_struct list \<Rightarrow> ((inetaddr_t Publisher, 'w) mach, unit) act" where
  "pub_thread P data =
    bnd (lift_outcome (inet_sockaddr P (''udp://127.0.0.1:'' @ to_string PS_TEST_PORT))) (\<lambda>addr.
    scoped P (Publisher_ctor (SocketUDP_ctor P))
      (bnd (Publisher_register_addr addr) (\<lambda>_.
       for_each [0..<TEST_LOOP] (\<lambda>i.
         bnd (lift_outcome (vector_at data i)) (\<lambda>d.
         let m = pack int_rep d in PublisherUDP_publish P m)))))"

definition sub_thread_un ::
  "('w, unit) callback \<Rightarrow> ('w, 'p) platform_scheme \<Rightarrow> (('w Subscriber, 'w) mach, unit) act" where
  "sub_thread_un cb P =
    scoped P (Subscriber_ctor (SocketUnix_ctor P) 4)
      (bnd (Socket_bind P ''unix://./unix.ps.uds'') (\<lambda>_.
       bnd (Subscriber_register_cb cb) (\<lambda>_.
       for_each [0..<TEST_LOOP] (\<lambda>i. SubscriberUnix_once P))))"

definition pub_thread_un ::
  "('w, 'p) platform_scheme \<Rightarrow> int_struct list \<Rightarrow> ((unixaddr_t Publisher, 'w) mach, unit) act" where
  "pub_thread_un P data =
    bnd (lift_outcome (unix_sockaddr P ''unix://./unix.ps.uds'')) (\<lambda>addr.
    scoped P (Publisher_ctor (SocketUnix_ctor P))
      (bnd (Publisher_register_addr addr) (\<lambda>_.
       for_each [0..<TEST_LOOP] (\<lambda>i.
         bnd (lift_outcome (vector_at data i)) (\<lambda>d.
         let m = pack int_rep d in PublisherUnix_publish P m)))))"

text \<open>The messages a run of either test publishes.\<close>

definition ps_test_messages :: "message_t list" where
  "ps_test_messages = map (\<lambda>i. pack int_rep \<lparr>int_a = of_nat i\<rparr>) [0..<TEST_LOOP]"

section \<open>A subscriber that counts\<close>

text \<open>What the counter has to do with the world: system calls keep it, and counting keeps the network.\<close>

definition counter_law ::
  "('w, 'p) platform_scheme \<Rightarrow> ('w \<Rightarrow> int \<Rightarrow> datagrams) \<Rightarrow> ('w \<Rightarrow> int \<Rightarrow> byte list) \<Rightarrow>
    ('w \<Rightarrow> byte list \<Rightarrow> int \<Rightarrow> bool) \<Rightarrow> ('w \<Rightarrow> nat) \<Rightarrow> ('w \<Rightarrow> 'w) \<Rightarrow> bool" where
  "counter_law P queue addr_of reaches seen tick \<longleftrightarrow>
    (\<forall>c w. seen (snd (kernel P c w)) = seen w) \<and>
    (\<forall>w. seen (tick w) = Suc (seen w) \<and> net_becomes queue addr_of reaches w (queue w) (tick w))"

text \<open>
  The subscriber of the test takes the messages that hold the numbers its callback compares with next.
  The descriptor \<open>fd\<close> says which it is, as there is one counter.
\<close>

definition counts ::
  "('w \<Rightarrow> unit outcome \<times> 'w \<times> string list) \<Rightarrow> ('w \<Rightarrow> nat) \<Rightarrow> ('w \<Rightarrow> 'w) \<Rightarrow> int_struct list \<Rightarrow> int \<Rightarrow>
    ('w, 'y) Subscriber_scheme \<Rightarrow> 'w \<Rightarrow> message_t list \<Rightarrow> bool" where
  "counts failed seen tick data fd r w ms \<longleftrightarrow> socket_fd r = fd \<and> data_size r = 4 \<and>
    callbacks r = [ps_callback failed seen tick data] \<and>
    (\<exists>rest. drop (seen w) data = map int_val ms @ rest) \<and> (\<forall>m \<in> set ms. length m = 4)"

lemma unpack_int: "length m = 4 \<Longrightarrow> unpack 4 int_val m = Val (Determinate (int_val m))"
  by (rule unpack_exact)

lemma ps_callback_counts:
  assumes "drop (seen w) data = map int_val (m # ms) @ rest" and "length m = 4"
  shows "ps_callback failed seen tick data m w = (Val (), tick w, [])"
proof -
  have "seen w < length data" "data ! seen w = int_val m"
    using assms(1) by (cases "seen w < length data"; simp add: Cons_nth_drop_Suc [symmetric])+
  with assms(2) show ?thesis
    by (simp add: ps_callback_def unpack_int object_value_def vector_at_def)
qed


locale counting_network =
  pub_sub_network recv recvfrom sendto addr_bytes law queue addr_of reaches addr_size recv' recvfrom' sendto'
  for recv :: "nat \<Rightarrow> ((('addr, 'y) Publisher_scheme, 'w) mach, message_t) act"
    and recvfrom :: "nat \<Rightarrow> 'addr option \<Rightarrow>
      ((('addr, 'y) Publisher_scheme, 'w) mach, message_t \<times> 'addr option) act"
    and sendto :: "message_t \<Rightarrow> 'addr \<Rightarrow> ((('addr, 'y) Publisher_scheme, 'w) mach, int) act"
    and addr_bytes law queue addr_of reaches addr_size
    and recv' :: "nat \<Rightarrow> ((('w, 'z) Subscriber_scheme, 'w) mach, message_t) act"
    and recvfrom' :: "nat \<Rightarrow> 'addr option \<Rightarrow>
      ((('w, 'z) Subscriber_scheme, 'w) mach, message_t \<times> 'addr option) act"
    and sendto' :: "message_t \<Rightarrow> 'addr \<Rightarrow> ((('w, 'z) Subscriber_scheme, 'w) mach, int) act" +
  fixes failed :: "'w \<Rightarrow> unit outcome \<times> 'w \<times> string list" and seen :: "'w \<Rightarrow> nat" and tick :: "'w \<Rightarrow> 'w"
    and memory :: bool
  assumes send_seen: "memory \<Longrightarrow> seen (world (snd (sendto m a s))) = seen (world s)"
    and recv_seen: "memory \<Longrightarrow> seen (world (snd (recv' n r))) = seen (world r)"
    and tick_seen: "memory \<Longrightarrow> seen (tick w) = Suc (seen w) \<and> net_becomes queue addr_of reaches w (queue w) (tick w)"
begin

lemma publish_seen:
  assumes memory
  shows "seen (world (snd (Publisher_publish sendto m s))) = seen (world s)"
proof -
  have send: "keeps (\<lambda>t. seen (world t) = seen (world s)) (sendto m a)" for a
    using send_seen [OF assms] by (simp add: keeps_def)
  have "keeps (\<lambda>t. seen (world t) = seen (world s)) (Publisher_publish sendto m)"
    unfolding Publisher_publish_def by (intro keeps_intros send)
  then show ?thesis by (simp add: keeps_def)
qed

lemma once_counts:
  assumes law and memory and c: "counts failed seen tick data fd (self r) (world r) (m # ms)"
    and q: "queue (world r) (socket_fd (self r)) = (m, src) # ds"
  shows "fst (recv' (data_size (self r)) r) = Val m \<and>
    (\<exists>t. Subscriber_once recv' r = (Val (), t) \<and> self t = self r \<and>
      counts failed seen tick data fd (self t) (world t) ms \<and>
      net_becomes queue addr_of reaches (world r) ((queue (world r))(socket_fd (self r) := ds)) (world t))"
proof -
  obtain rest where rest: "drop (seen (world r)) data = map int_val (m # ms) @ rest"
    and len: "length m = 4" and r: "data_size (self r) = 4" "socket_fd (self r) = fd"
      "callbacks (self r) = [ps_callback failed seen tick data]" "\<forall>m \<in> set ms. length m = 4"
    using c by (auto simp: counts_def)
  obtain t where t: "recv' (data_size (self r)) r = (Val m, t)" "self t = self r"
    "net_becomes queue addr_of reaches (world r) ((queue (world r))(socket_fd (self r) := ds)) (world t)"
    using sub.recv_delivers [OF assms(1) q, of "data_size (self r)"] len r(1) by auto
  have seen: "seen (world t) = seen (world r)" using recv_seen [OF assms(2), of _ r] t(1) by (metis snd_conv)
  have "drop (Suc (seen (world r))) data = map int_val ms @ rest"
    using rest by (metis drop_Suc tl_drop list.sel(3) append_Cons list.simps(9) drop_tl)
  then have "counts failed seen tick data fd (self r) (tick (world t)) ms"
    using r tick_seen [OF assms(2), of "world t"] seen by (auto simp: counts_def)
  moreover have "Subscriber_once recv' r = (Val (), t\<lparr>world := tick (world t)\<rparr>)"
    using t(1,2) r(3) len ps_callback_counts [of seen "world t" data m ms rest failed tick] rest seen
    by (auto simp: Subscriber_once_def bnd_case gets_apply call_eq ret_apply)
  ultimately show ?thesis
    using t tick_seen [OF assms(2), of "world t"]
    by (intro conjI exI [of _ "t\<lparr>world := tick (world t)\<rparr>"]) (simp_all add: net_becomes_def)
qed

sublocale counting: relay "Publisher_publish sendto" "\<lambda>s. recv' (data_size (self s)) s" "Subscriber_once recv'" queue
  "publishes reaches addr_bytes" "counts failed seen tick data fd" "law \<and> memory" "published_to reaches addr_bytes"
  for data fd
proof unfold_locales
  fix m and s :: "(('addr, 'y) Publisher_scheme, 'w) mach"
  assume "law \<and> memory"
  then show "\<exists>t. Publisher_publish sendto m s = (Val (), t) \<and> self t = self s \<and>
      publishes reaches addr_bytes (self s) (world t) = publishes reaches addr_bytes (self s) (world s) \<and>
      (\<forall>fd. map fst (queue (world t) fd) =
        map fst (queue (world s) fd) @ publishes reaches addr_bytes (self s) (world s) m fd) \<and>
      (\<forall>(r :: ('w, 'z) Subscriber_scheme) ms. counts failed seen tick data fd r (world s) ms \<longrightarrow> counts failed seen tick data fd r (world t) ms)"
    using send_arrives [of m s] publish_seen [of m s] by (auto simp: counts_def)
next
  fix r :: "(('w, 'z) Subscriber_scheme, 'w) mach" and m ms src ds
  assume "law \<and> memory" and c: "counts failed seen tick data fd (self r) (world r) (m # ms)"
    and q: "queue (world r) (socket_fd (self r)) = (m, src) # ds"
  with once_counts [OF _ _ c q]
  show "fst (recv' (data_size (self r)) r) = Val m \<and>
      (\<exists>t. Subscriber_once recv' r = (Val (), t) \<and> socket_fd (self t) = socket_fd (self r) \<and>
        counts failed seen tick data fd (self t) (world t) ms \<and>
        queue (world t) = (queue (world r))(socket_fd (self r) := ds) \<and>
        (\<forall>p :: ('addr, 'y) Publisher_scheme. publishes reaches addr_bytes p (world t) = publishes reaches addr_bytes p (world r)) \<and>
        (\<forall>(r' :: ('w, 'z) Subscriber_scheme) ms'. socket_fd r' \<noteq> socket_fd (self r) \<longrightarrow> counts failed seen tick data fd r' (world r) ms' \<longrightarrow>
          counts failed seen tick data fd r' (world t) ms'))"
    by (auto simp: net_becomes_def publishes_def fun_eq_iff) (auto simp: counts_def)
qed (simp add: published_to_def publishes_def)

end


lemma counter_kept:
  assumes "counter_law P queue addr_of reaches seen tick"
  shows "call_invariant P (\<lambda>_. True) (\<lambda>s. seen (world s) = k)"
  using assms by unfold_locales (simp_all add: counter_law_def keeps_def sys_Val)

lemma counter_sockets:
  assumes "counter_law P queue addr_of reaches seen tick"
  shows "seen (world (snd (SocketUDP_sendto P m a flags s))) = seen (world s)"
    and "seen (world (snd (SocketUDP_recv P n flags s))) = seen (world s)"
    and "seen (world (snd (SocketUnix_sendto P m b flags s))) = seen (world s)"
    and "seen (world (snd (SocketUnix_recv P n flags s))) = seen (world s)"
    and "seen (tick w) = Suc (seen w) \<and> net_becomes queue addr_of reaches w (queue w) (tick w)"
proof -
  note udp = call_invariant.udp_kept [OF counter_kept [OF assms], unfolded keeps_def]
  note uds = call_invariant.unix_kept [OF counter_kept [OF assms], unfolded keeps_def]
  show "seen (world (snd (SocketUDP_sendto P m a flags s))) = seen (world s)" by (rule udp(3) [rule_format, OF TrueI refl])
  show "seen (world (snd (SocketUDP_recv P n flags s))) = seen (world s)" by (rule udp(2) [rule_format, OF refl])
  show "seen (world (snd (SocketUnix_sendto P m b flags s))) = seen (world s)" by (rule uds(3) [rule_format, OF TrueI refl])
  show "seen (world (snd (SocketUnix_recv P n flags s))) = seen (world s)" by (rule uds(2) [rule_format, OF refl])
  show "seen (tick w) = Suc (seen w) \<and> net_becomes queue addr_of reaches w (queue w) (tick w)"
    using assms by (simp add: counter_law_def)
qed

interpretation counting_udp: counting_network
  "\<lambda>n. SocketUDP_recv P n 0" "\<lambda>n from. SocketUDP_recvfrom P n from 0" "\<lambda>m a. SocketUDP_sendto P m a 0"
  inet_bytes "dgram_law P queue addr_of reaches" queue addr_of reaches sizeof_inet
  "\<lambda>n. SocketUDP_recv P n 0" "\<lambda>n from. SocketUDP_recvfrom P n from 0" "\<lambda>m a. SocketUDP_sendto P m a 0"
  failed seen tick "counter_law P queue addr_of reaches seen tick"
  for P queue addr_of reaches failed seen tick
  by unfold_locales (rule counter_sockets, assumption)+

interpretation counting_unix: counting_network
  "\<lambda>n. SocketUnix_recv P n 0" "\<lambda>n from. SocketUnix_recvfrom P n from 0" "\<lambda>m a. SocketUnix_sendto P m a 0"
  unix_bytes "dgram_law P queue addr_of reaches" queue addr_of reaches sizeof_unix
  "\<lambda>n. SocketUnix_recv P n 0" "\<lambda>n from. SocketUnix_recvfrom P n from 0" "\<lambda>m a. SocketUnix_sendto P m a 0"
  failed seen tick "counter_law P queue addr_of reaches seen tick"
  for P queue addr_of reaches failed seen tick
  by unfold_locales (rule counter_sockets, assumption)+

section \<open>The publish/subscribe tests pass\<close>

text \<open>The endpoints when their loops begin.\<close>

definition sub_ready ::
  "('w, unit) callback \<Rightarrow> ('w, 'p) platform_scheme \<Rightarrow> (('w Subscriber, 'w) mach, unit) act" where
  "sub_ready cb P = bnd (Subscriber_ctor (SocketUDP_ctor P) 4) (\<lambda>_.
     bnd (Socket_bind P (''udp://*:'' @ to_string PS_TEST_PORT)) (\<lambda>_. Subscriber_register_cb cb))"

definition pub_ready :: "('w, 'p) platform_scheme \<Rightarrow> inetaddr_t \<Rightarrow> ((inetaddr_t Publisher, 'w) mach, unit) act" where
  "pub_ready P addr = bnd (Publisher_ctor (SocketUDP_ctor P)) (\<lambda>_. Publisher_register_addr addr)"

definition sub_ready_un ::
  "('w, unit) callback \<Rightarrow> ('w, 'p) platform_scheme \<Rightarrow> (('w Subscriber, 'w) mach, unit) act" where
  "sub_ready_un cb P = bnd (Subscriber_ctor (SocketUnix_ctor P) 4) (\<lambda>_.
     bnd (Socket_bind P ''unix://./unix.ps.uds'') (\<lambda>_. Subscriber_register_cb cb))"

definition pub_ready_un :: "('w, 'p) platform_scheme \<Rightarrow> unixaddr_t \<Rightarrow> ((unixaddr_t Publisher, 'w) mach, unit) act" where
  "pub_ready_un P addr = bnd (Publisher_ctor (SocketUnix_ctor P)) (\<lambda>_. Publisher_register_addr addr)"

lemma sub_ready_Val:
  "sub_ready cb P s = (Val (), t) \<Longrightarrow> data_size (self t) = 4 \<and> callbacks (self t) = [cb]"
  "sub_ready_un cb P s = (Val (), t) \<Longrightarrow> data_size (self t) = 4 \<and> callbacks (self t) = [cb]"
  by (auto simp: sub_ready_def sub_ready_un_def Subscriber_ctor_def Subscriber_register_cb_def bnd_Val_iff modify_apply
      dest!: bind_Val_self)

lemma pub_ready_Val:
  "pub_ready P a p = (Val (), q) \<Longrightarrow> clientaddrs (self q) = [a]"
  "pub_ready_un P b p' = (Val (), q') \<Longrightarrow> clientaddrs (self q') = [b]"
  by (auto simp: pub_ready_def pub_ready_un_def Publisher_ctor_def Publisher_register_addr_def bnd_Val_iff modify_apply)

lemma test_data_last: "drop (k * TEST_LOOP) (test_data (Suc k)) = map int_val ps_test_messages"
proof -
  have split: "test_data (k + n) = test_data k @ test_data n" for k n
    by (simp add: test_data_def replicate_add)
  have "length (test_data k) = k * TEST_LOOP"
    by (induction k) (simp_all add: test_data_def TEST_LOOP_def)
  then have "drop (k * TEST_LOOP) (test_data (Suc k)) = test_data 1" using split [of k 1] by simp
  also have "\<dots> = map int_val ps_test_messages"
    by (simp add: test_data_def ps_test_messages_def int_rep_def int_val_def)
  finally show ?thesis .
qed

lemma ps_test_counts:
  assumes "data_size r = 4" and "callbacks r = [ps_callback failed seen tick (test_data (Suc k))]"
    and "seen w = k * TEST_LOOP"
  shows "counts failed seen tick (test_data (Suc k)) (socket_fd r) r w ps_test_messages"
  using assms test_data_last [of k] pack_int_length by (auto simp: counts_def ps_test_messages_def)


text \<open>The loops of the publishing threads send these messages.\<close>

lemma pub_loop_sends:
  fixes publish :: "message_t \<Rightarrow> (('o, 'w) mach, unit) act"
  assumes "0 < runs"
  shows "for_each [0..<TEST_LOOP] (\<lambda>i. bnd (lift_outcome (vector_at (test_data runs) i)) (\<lambda>d.
      let m = pack int_rep d in publish m)) = for_each ps_test_messages publish"
proof -
  have one: "bnd (lift_outcome (vector_at (test_data runs) i)) (\<lambda>d. let m = pack int_rep d in publish m) =
      publish (pack int_rep \<lparr>int_a = of_nat i\<rparr>)" if "i < TEST_LOOP" for i
    using test_data_at [OF assms that] by (simp add: fun_eq_iff bnd_case lift_outcome_apply)
  have "for_each is (\<lambda>i. bnd (lift_outcome (vector_at (test_data runs) i)) (\<lambda>d. let m = pack int_rep d in publish m)) =
      for_each (map (\<lambda>i. pack int_rep \<lparr>int_a = of_nat i\<rparr>) is) publish" if "\<forall>i \<in> set is. i < TEST_LOOP" for "is"
    using that by (induction "is") (simp_all add: one [unfolded Let_def] Let_def del: pack_eq_rep)
  from this [of "[0..<TEST_LOOP]"] show ?thesis by (simp add: ps_test_messages_def)
qed


lemma publish_test_unix_passes:
  assumes "dgram_law P queue addr_of reaches" and "counter_law P queue addr_of reaches seen tick"
    and "sub_ready_un (ps_callback failed seen tick (test_data (Suc k))) P s0 = (Val (), s1)"
    and "pub_ready_un P b p0 = (Val (), p1)" and "self s = ([self s1], self p1, ps_test_messages)"
    and "seen (world s) = k * TEST_LOOP" and "queue (world s) (socket_fd (self s1)) = []"
    and "reaches (world s) (unix_bytes b) (socket_fd (self s1))"
    and "relay_run (PublisherUnix_publish P) (\<lambda>s. SocketUnix_recv P (data_size (self s)) 0 s) (SubscriberUnix_once P)
      queue s es t"
  shows "(\<exists>rest. received 0 es @ rest = ps_test_messages) \<and> length es \<le> 10 \<and>
    ((\<forall>e u. \<not> relay_step (PublisherUnix_publish P) (\<lambda>s. SocketUnix_recv P (data_size (self s)) 0 s)
        (SubscriberUnix_once P) queue t e u) \<longrightarrow> received 0 es = ps_test_messages)"
proof -
  have "relay_ready queue (published_to reaches unix_bytes)
      (counts failed seen tick (test_data (Suc k)) (socket_fd (self s1))) s"
    using ps_test_counts [of "self s1" failed seen tick k "world s"] sub_ready_Val(2) [OF assms(3)]
      pub_ready_Val(2) [OF assms(4)] assms(5-8)
    by (simp add: relay_ready_def published_to_def)
  from counting_unix.counting.relay_delivers [OF conjI [OF assms(1,2)] this assms(5)] assms(9)
  show ?thesis
    unfolding PublisherUnix_publish_def SubscriberUnix_once_def
    by (auto simp: ps_test_messages_def TEST_LOOP_def)
qed


text \<open>The network in memory beside a counter.\<close>

definition mem_platform :: "(lan \<times> nat) platform" where
  "mem_platform = env.extend sample_env \<lparr>kernel = (\<lambda>c w. (fst (lan_kernel c (fst w)), snd (lan_kernel c (fst w)), snd w))\<rparr>"

lemma mem_simps [simp]:
  "inet_addr mem_platform = sample_inet_addr" "stale mem_platform = Some" "strerror mem_platform e = ''error '' @ to_string e"
  "kernel mem_platform c w = (fst (lan_kernel c (fst w)), snd (lan_kernel c (fst w)), snd w)"
  by (simp_all add: mem_platform_def sample_env_def env.defs)

lemma mem_laws:
  "dgram_law mem_platform (\<lambda>w. lan_queue (fst w)) (\<lambda>w. lan_addr (fst w)) (\<lambda>w. lan_reaches (fst w))"
  "counter_law mem_platform (\<lambda>w. lan_queue (fst w)) (\<lambda>w. lan_addr (fst w)) (\<lambda>w. lan_reaches (fst w)) snd
    (\<lambda>w. (fst w, Suc (snd w)))"
  using lan_dgram_law by (simp_all add: dgram_law_def net_becomes_def counter_law_def)

definition mem_machine :: "'o \<Rightarrow> lan \<Rightarrow> ('o, lan \<times> nat) mach" where
  "mem_machine obj w = \<lparr>self = obj, world = (w, 0), errno = 0, trace = [], cout = []\<rparr>"

lemma mem_udp_ctor:
  "\<exists>t. SocketUDP_ctor mem_platform s = (Val (), t) \<and> self t = (self s)\<lparr>socket_fd := fresh_fd (lan_open (fst (world s)))\<rparr>"
  using fresh_fd_nonneg [of "lan_open (fst (world s))"]
  by (simp add: SocketUDP_ctor_def Socket_ctor_def makeSocket_def bnd_case on_throw_def
      set_fd_apply sys_Val guard_def ret_apply Let_def)

lemma mem_sub_ready: "\<exists>t. sub_ready cb mem_platform (mem_machine r lan_start) = (Val (), t) \<and> socket_fd (self t) = 3"
proof -
  obtain t where t: "SocketUDP_ctor mem_platform (mem_machine r lan_start) = (Val (), t)" "socket_fd (self t) = 3"
    using mem_udp_ctor [of "mem_machine r lan_start"] by (auto simp: mem_machine_def lan_start_def fresh_fd_def)
  let ?t = "t\<lparr>self := (self t)\<lparr>callbacks := [], data_size := 4\<rparr>\<rparr>"
  have port: "to_string PS_TEST_PORT = ''8888''" "nat_digits 8888 = ''8888''"
    by (simp_all add: PS_TEST_PORT_def to_string_nonneg nat_digits.simps digit_char_eqs)
  have "ip_text ''*''" by code_simp
  then have a: "inet_sockaddr mem_platform ''udp://*:8888'' = Val (inet_of 0 8888)"
    using inet_sockaddr_host_port [of mem_platform "''udp''" "''*''" 8888]
    by (simp add: frame_intact_def port host_addr_def INT_MAX_def INADDR_ANY_def)
  have "leftmost proto_at ''udp://*:8888'' = Some (''udp'', ''*:8888'')" by code_simp
  from setSocket_inet [OF this _ a, of BIND _ ?t]
  have "\<exists>u. Socket_bind mem_platform ''udp://*:8888'' ?t = (Val (), u) \<and> self u = self ?t"
    by (simp add: Socket_bind_def guard_def ret_apply sys_Val)
  with t show ?thesis
    by (auto simp: sub_ready_def Subscriber_ctor_def Subscriber_register_cb_def port bnd_case modify_apply)
qed



section \<open>test_bc.cpp\<close>

definition BC_TEST_PORT :: "16 word" where "BC_TEST_PORT = 11311"

definition bc_test_data :: "subscription_t list" where
  "bc_test_data =
    [\<lparr>topic = 19, status = SUBSCRIBE\<rparr>, \<lparr>topic = 72, status = UNSUBSCRIBE\<rparr>, \<lparr>topic = 103, status = SUBSCRIBE\<rparr>,
     \<lparr>topic = 144, status = UNSUBSCRIBE\<rparr>, \<lparr>topic = 250, status = SUBSCRIBE\<rparr>]"

definition bc_test_server :: "('w, 'p) platform_scheme \<Rightarrow> ((SocketBC, 'w) mach, unit) act" where
  "bc_test_server P =
    scoped P (SocketBC_ctor P BC_TEST_PORT)
      (for_each [0..<TEST_LOOP] (\<lambda>i.
         let sub = pack subscription_rep (bc_test_data ! i) in ignore (SocketBC_cast P sub)))"

definition bc_test_turn ::
  "(('x Socket_scheme, 'w) mach, unit) act \<Rightarrow> ('w, 'p) platform_scheme \<Rightarrow> nat \<Rightarrow> nat \<Rightarrow> ('x, 'w, unit) sock_act" where
  "bc_test_turn failed P sz i =
    bnd (SocketUDP_recv P sz 0) (\<lambda>m.
    bnd (lift_outcome (object_value (unpack 2 subscription_val m))) (\<lambda>msg.
    bnd (EXPECT failed (topic msg = topic (bc_test_data ! i))) (\<lambda>_.
    EXPECT failed (status msg = status (bc_test_data ! i)))))"

definition bc_test_client ::
  "(('x Socket_scheme, 'w) mach, unit) act \<Rightarrow> ('w, 'p) platform_scheme \<Rightarrow> ('x, 'w, unit) sock_act" where
  "bc_test_client failed P =
    scoped P (SocketUDP_ctor P)
      (bnd (reuseSocket P True) (\<lambda>_.
       bnd (Socket_bind P (''udp://*:'' @ to_string (uint BC_TEST_PORT))) (\<lambda>_.
       let sz = 2 in for_each [0..<TEST_LOOP] (bc_test_turn failed P sz))))"

text \<open>The socket of a client with the counter of its loop, and the body of the loop with the increment.\<close>

record bc_client_thread = Socket +
  turn_no :: nat

definition bc_client_step ::
  "((bc_client_thread, 'w) mach, unit) act \<Rightarrow> ('w, 'p) platform_scheme \<Rightarrow> ((bc_client_thread, 'w) mach, unit) act" where
  "bc_client_step failed P =
    bnd (gets (\<lambda>s. turn_no (self s))) (\<lambda>i.
    bnd (bc_test_turn failed P 2 i) (\<lambda>_.
    modify (\<lambda>s. s\<lparr>self := (self s)\<lparr>turn_no := Suc i\<rparr>\<rparr>)))"

definition bc_test_messages :: "message_t list" where
  "bc_test_messages = map (pack subscription_rep) bc_test_data"

text \<open>A client takes what is left of the messages at its turn.\<close>

definition awaits :: "bc_client_thread \<Rightarrow> 'w \<Rightarrow> message_t list \<Rightarrow> bool" where
  "awaits r w ms \<longleftrightarrow> ms = drop (turn_no r) bc_test_messages"

lemma bc_test_turn_expected:
  assumes "SocketUDP_recv P 2 0 s = (Val (pack subscription_rep (bc_test_data ! i)), t)"
  shows "bc_test_turn failed P 2 i s = (Val (), t)"
proof -
  have "unpack 2 subscription_val (pack subscription_rep (bc_test_data ! i)) = Val (Determinate (bc_test_data ! i))"
    by (rule sub.unpack_pack)
  with assms show ?thesis
    by (simp add: bc_test_turn_def bnd_case lift_outcome_apply object_value_def ret_apply del: pack_eq_rep)
qed

interpretation bc_test: relay "\<lambda>sub. ignore (SocketBC_cast P sub) :: ((SocketBC, 'w) mach, unit) act"
  "SocketUDP_recv P 2 0 :: ((bc_client_thread, 'w) mach, message_t) act" "bc_client_step failed P" queue
  "broadcasts reaches" awaits "dgram_law P queue addr_of reaches" "\<lambda>p w. reaches w (inet_bytes (bc_addr p))"
  for P :: "('w, 'p) platform_scheme" and failed queue addr_of reaches
proof unfold_locales
  fix m and s :: "(SocketBC, 'w) mach"
  assume law: "dgram_law P queue addr_of reaches"
  show "\<exists>t. ignore (SocketBC_cast P m) s = (Val (), t) \<and> self t = self s \<and>
      broadcasts reaches (self s) (world t) = broadcasts reaches (self s) (world s) \<and>
      (\<forall>fd. map fst (queue (world t) fd) =
        map fst (queue (world s) fd) @ broadcasts reaches (self s) (world s) m fd) \<and>
      (\<forall>r ms. awaits r (world s) ms \<longrightarrow> awaits r (world t) ms)"
    using net_udp.sendto_delivers [OF law, of m "bc_addr (self s)" s]
    by (auto simp: ignore_def bnd_case cast_eq ret_apply net_becomes_def awaits_def broadcasts_def fun_eq_iff)
next
  fix r :: "(bc_client_thread, 'w) mach" and m ms src ds
  assume law: "dgram_law P queue addr_of reaches" and a: "awaits (self r) (world r) (m # ms)"
    and q: "queue (world r) (socket_fd (self r)) = (m, src) # ds"
  let ?i = "turn_no (self r)"
  have i: "?i < length bc_test_data" "m = pack subscription_rep (bc_test_data ! ?i)" "ms = drop (Suc ?i) bc_test_messages"
  proof -
    have lt: "?i < length bc_test_messages" using a by (cases "?i < length bc_test_messages") (simp_all add: awaits_def)
    with a have "m # ms = bc_test_messages ! ?i # drop (Suc ?i) bc_test_messages"
      by (simp add: awaits_def Cons_nth_drop_Suc)
    with lt show "?i < length bc_test_data" "m = pack subscription_rep (bc_test_data ! ?i)" "ms = drop (Suc ?i) bc_test_messages"
      by (simp_all add: bc_test_messages_def)
  qed
  have "length m = 2" unfolding i(2) by (rule sub.pack_length)
  then obtain t where t: "SocketUDP_recv P 2 0 r = (Val m, t)" "self t = self r"
    "net_becomes queue addr_of reaches (world r) ((queue (world r))(socket_fd (self r) := ds)) (world t)"
    using net_udp.recv_delivers [OF law q, of 2] by auto
  have "bc_client_step failed P r = (Val (), t\<lparr>self := (self t)\<lparr>turn_no := Suc ?i\<rparr>\<rparr>)"
    using bc_test_turn_expected [OF t(1) [unfolded i(2)]] by (simp add: bc_client_step_def bnd_case gets_apply modify_apply)
  with t i(3) show "fst (SocketUDP_recv P 2 0 r) = Val m \<and>
      (\<exists>t. bc_client_step failed P r = (Val (), t) \<and> socket_fd (self t) = socket_fd (self r) \<and>
        awaits (self t) (world t) ms \<and>
        queue (world t) = (queue (world r))(socket_fd (self r) := ds) \<and>
        (\<forall>p. broadcasts reaches p (world t) = broadcasts reaches p (world r)) \<and>
        (\<forall>r' ms'. socket_fd r' \<noteq> socket_fd (self r) \<longrightarrow> awaits r' (world r) ms' \<longrightarrow> awaits r' (world t) ms'))"
    by (simp add: net_becomes_def awaits_def broadcasts_def fun_eq_iff)
qed (simp add: broadcasts_def)



definition bc_test_start where
  "bc_test_start = lan_machine
    ([\<lparr>socket_fd = 3, turn_no = 0\<rparr>, \<lparr>socket_fd = 5, turn_no = 0\<rparr>],
     \<lparr>socket_fd = 4, bc_addr = inet_of INADDR_BROADCAST BC_PORT\<rparr>, bc_test_messages) bc_hub"


end
