(* ===== verification/Spec2Isabelle.thy ===== *)
theory Spec2Isabelle
  imports Process_Properties Example_Properties Address_Properties Socket_Properties Endpoint_Properties Ascii_Codec Event_Flag Signals Delivery_Properties
    Thread_Tests
begin

text \<open>
  A model of marko.cpp, a header-only C++ library for datagram messaging over UDP and Unix sockets
  (\<open>src/include/marko/*.hpp\<close>), with the theorems that make it correct and those that say where it is
  not what its documentation says. The definitions follow the sources function by function, under
  their names; a member function \<open>f\<close> of a class \<open>C\<close> is \<open>C_f\<close> where the bare name would be ambiguous.

  The parts and their theories, each importing the ones it calls:

  \<^item> \<open>Prelude\<close>: bytes; \<open>outcome\<close>, the three ways a C++ evaluation ends (a value, an exception, undefined
    behaviour, each kind with a name); actions, which take the machine state and return an outcome with
    the state they leave, and their sequencing; \<open>keeps\<close>, the preservation of an invariant.
  \<^item> \<open>Cpp_Std\<close>: what the code uses of the standard library on texts: \<open>c_str\<close>, reading C strings,
    \<open>to_string\<close>, \<open>stoi\<close> with its exceptions.
  \<^item> \<open>Regex\<close>: the two patterns of \<open>sockaddr.hpp\<close> and \<open>socket.hpp\<close> under ECMAScript matching, with the
    bracket expressions parsed from their text, and scanners they are proved equivalent to
    (\<open>proto_search_scanner\<close>).
  \<^item> \<open>Message\<close> (\<open>message.hpp\<close>), \<open>Ascii_Codec\<close> (\<open>ascii.hpp\<close>), \<open>Time_Val\<close> (\<open>time.hpp\<close>): the codecs.
    \<open>unpack\<close> keeps apart the objects all of whose bytes were written from the others.
  \<^item> \<open>Event_Flag\<close> (\<open>event.hpp\<close>): the flag, and threads that wait for it, as a step relation.
  \<^item> \<open>Sock_Addr\<close> (\<open>sockaddr.hpp\<close>): the address structures and their union byte by byte, \<open>filter\<close> and its
    accessors, the printing of addresses.
  \<^item> \<open>Platform\<close>: the system calls, the kernel that answers them (a parameter), the machine of a member
    function (object, world, \<open>errno\<close>, trace of calls, printed lines), and which descriptors a trace
    leaves open.
  \<^item> \<open>Socket_Base\<close> (\<open>socket.hpp\<close>): the class \<open>Socket\<close>, a record that derived classes extend.
  \<^item> \<open>Dgram_Socket\<close> (\<open>socket_udp.hpp\<close>, \<open>socket_uds.hpp\<close>): the two sockets, the interface the templates use
    of them (locales \<open>dgram_socket\<close> and \<open>quiet_socket\<close>) and its interpretations.
  \<^item> \<open>Loops\<close>, \<open>Pub_Sub\<close> (\<open>pub_sub.hpp\<close>), \<open>Req_Rep\<close> (\<open>request_reply.hpp\<close>): the four endpoint templates over
    any datagram socket, and their UDP and Unix instances.
  \<^item> \<open>Socket_BC\<close> (\<open>socket_bc.hpp\<close>), \<open>Signals\<close> (\<open>signals.hpp\<close>), \<open>Host_Info\<close> (the host queries of
    \<open>sockaddr.hpp\<close>), \<open>Socket_Info\<close> (\<open>info.hpp\<close>).
  \<^item> \<open>Lifetime\<close>: member calls as data, the abstract life cycle of a descriptor, and the contract of a
    socket class with its owner (locale \<open>owned_socket\<close>), interpreted on the three socket classes.
  \<^item> \<open>Call_Invariants\<close>: which system calls the library may make (\<open>allowed\<close>), and the contract that what
    every such call keeps, every member function keeps (locale \<open>call_invariant\<close>).
  \<^item> \<open>Process\<close>: programs with any number of sockets of the three classes, as a step relation, and who
    owns which descriptor.
  \<^item> \<open>Network\<close>: the contract of a network that delivers (\<open>dgram_law\<close>), what a socket class promises over it
    (locale \<open>delivering_socket\<close>), and a request with the turn of the replier inside (\<open>during_receive\<close>).
  \<^item> \<open>Event_Loop\<close>: the loop of a subscriber that an event ends, beside threads that set and clear it.
  \<^item> \<open>Delivery\<close>: endpoints that run at the same time as a step relation: one thread works through a list of
    items and any number of subscribers take their turns. Locale \<open>item_relay\<close> asks of an item only how much
    of it arrives at which descriptor, and gives what every subscriber has got at any moment; locale \<open>relay\<close>
    is the case of messages. \<open>Delivery_Sends\<close>: the items are the single sends of \<open>publish\<close>. \<open>Delivery_Log\<close>: the
    abstract log that publishers and subscribers implement. \<open>Concurrent_Requests\<close>: any number of
    requesters and a replier.
  \<^item> \<open>Address_Reference\<close>: the reference parser of address texts, and that \<open>inet_sockaddr\<close> computes it.
  \<^item> \<open>Example_Programs\<close> (\<open>bc.cpp\<close>, \<open>regex.cpp\<close> and the programs without content), \<open>Example_Threads\<close> (the
    two threads of \<open>bc.cpp\<close>), \<open>Example_Messages\<close> (\<open>msg.cpp\<close>, \<open>ps.cpp\<close>, \<open>rr.cpp\<close>) with the \<open>double\<close>s of
    \<open>Floating\<close>, and \<open>Example_Raw\<close> (\<open>simple.cpp\<close>): the programs under \<open>examples/\<close>.
  \<^item> \<open>Unit_Tests\<close> (\<open>test_marko.cpp\<close>, \<open>test_rr.cpp\<close>) and \<open>Thread_Tests\<close> (\<open>test_ps.cpp\<close>, \<open>test_bc.cpp\<close>): the tests
    under \<open>gtests/\<close>, with the theorems that they pass.
  \<^item> \<open>Sample_Platform\<close>, \<open>Sample_Network\<close>: a concrete C library and two in-memory kernels, for the
    evaluations of properties on concrete inputs.
  \<^item> \<open>Address_Properties\<close>, \<open>Socket_Properties\<close>, \<open>Endpoint_Properties\<close>, \<open>Process_Properties\<close>,
    \<open>Delivery_Properties\<close>, \<open>Example_Properties\<close> and this theory: the properties that need the platform. Those of
    the codecs, the event, the reference parser and the tests are at the end of their theories.

  How it fits together: an application builds a socket (\<open>makeSocket\<close>), binds it to an address text
  (\<open>setSocket\<close>, which searches the pattern and calls \<open>filter\<close>), and exchanges messages (\<open>recv\<close>, \<open>sendto\<close>)
  that \<open>pack\<close> and \<open>unpack\<close> convert. \<open>guard\<close> turns a negative result into closing the socket and throwing.
  The endpoints loop over one turn each, until an exception or until an event is cleared.

  What the lemmas show: the effect of every operation on every branch; that a run-time error closes the
  socket and nothing else changes it (\<open>only_failure_closes\<close>); that the descriptor an object holds is what
  its trace leaves open, beside those that others hold (\<open>sock_frame\<close>), which gives the absence of leaks and
  of uses of foreign descriptors for whole lives and, by induction over the steps of a process
  (\<open>reachable\<close>), for programs with many sockets and threads; that the calls are well formed; what every
  search, parse, print and codec computes, and which of them are inverse to
  which; when the loops return, throw or never end; and, for endpoints that run at the same time, what each
  has received at every moment of every run, that no run is longer than its work, and that all work is done
  when no endpoint can go on.

  Parameters and assumptions: \<open>env\<close> has the conversions of the C library, the content of uninitialised
  stack bytes, and what a read of the dead local of \<open>filter\<close> gives. \<open>frame_intact\<close> says that this read
  finds what \<open>filter\<close> left, which the library relies on and the language does not promise. The kernel
  answers each call with any reply at all; \<open>socket_law\<close> says that \<open>socket(2)\<close> returns no number below \<open>-1\<close>.
  \<open>fd_law\<close> says that it returns a number that is not open, and which calls change what is open;
  \<open>dgram_law\<close> says what a network that delivers does with the datagrams at the descriptors;
  \<open>frame_sized\<close> says that a read of the dead frame gives as many bytes as the object had. A callback maps the
  message and the world to its outcome, the new world and the lines it prints. Threads interleave at the
  granularity of member calls, \<open>publish\<close> also at that of its single sends; a receive is a step that needs a
  datagram, so a blocked thread is one without a step. An exception that leaves a thread or \<open>main\<close> ends the
  program. The tests take as a parameter what the test framework does when an expectation is not met
  (\<open>failed\<close>), and the counter of a callback is a part of the world that the calls leave alone (\<open>counter_law\<close>).
  Integers are those of a 64-bit little-endian Linux: ports are \<open>16 word\<close>, bytes \<open>8 word\<close>, an \<open>int\<close> that can
  not overflow in the code is \<open>int\<close>. Loops that may not end are partial functions, whose value \<open>None\<close> is
  divergence; there is no fuel. Runs of threads are bounded by their work: with \<open>n\<close> messages and \<open>k\<close> subscribers
  a run of the relay has at most \<open>n * (k + 1)\<close> steps, and a run of \<open>bc.cpp\<close> has at most 16.

  Not modelled: memory exhaustion; callbacks that reach the socket object that calls them; the texts of
  the regular expression library for patterns other than the two; the commented-out code that fills
  \<open>socket_types.hpp\<close> and \<open>dev.cpp\<close> and ends \<open>socket.hpp\<close> and \<open>signals.hpp\<close>, which with the declarations is all of
  these files that no definition stands for; the time that passes (the pauses before the server thread of
  \<open>bc.cpp\<close> and in the tests fix no order); the starting and joining of the threads of the tests; the streams
  \<open>cout\<close> and \<open>cerr\<close> as two streams (the printed lines are one list); the build.
\<close>

section \<open>The life of a socket\<close>

text \<open>
  C1: no socket of the library leaks a descriptor or uses one that is not its own. Construct a
  \<open>SocketUDP\<close>, a \<open>SocketUnix\<close> or a \<open>SocketBC\<close>, make any series of member calls and catch their
  exceptions, and destroy it (or fail to construct it): every call works on the descriptor the object
  holds at that point, nothing is closed twice, and unless a call was undefined everything that was
  opened has been closed in the end.
\<close>
theorem no_descriptor_leaks:
  assumes "socket_law P" and "trace s = []" and "trace s' = []"
  shows "(let r = lifetime P (SocketUDP_ctor P) (run_udp P) cs s
      in trace_ok (trace (snd r)) \<and> ((\<forall>u. fst r \<noteq> Undef u) \<longrightarrow> live (trace (snd r)) = {#})) \<and>
    (let r = lifetime P (SocketUnix_ctor P) (run_unix P) cs' s
      in trace_ok (trace (snd r)) \<and> ((\<forall>u. fst r \<noteq> Undef u) \<longrightarrow> live (trace (snd r)) = {#})) \<and>
    (let r = lifetime P (SocketBC_ctor P port) (run_bc P) cs'' s'
      in trace_ok (trace (snd r)) \<and> ((\<forall>u. fst r \<noteq> Undef u) \<longrightarrow> live (trace (snd r)) = {#}))"
proof -
  have s: "trace_ok (trace s)" "live (trace s) = {#}" "trace_ok (trace s')" "live (trace s') = {#}"
    using assms(2,3) by simp_all
  show ?thesis
    using owned_udp.lifetime_ok [OF assms(1) s(1,2)] owned_udp.lifetime_released [OF assms(1) s(1,2)]
      owned_unix.lifetime_ok [OF assms(1) s(1,2)] owned_unix.lifetime_released [OF assms(1) s(1,2)]
      owned_bc.lifetime_ok [OF assms(1) s(3,4)] owned_bc.lifetime_released [OF assms(1) s(3,4)]
    by (simp add: Let_def sock_frame_def)
qed

theorem no_descriptor_leaks_witness:
  "live (trace (snd (lifetime sample (SocketUDP_ctor sample) (run_udp sample)
      [Call_recv 4 0, Base (Call_settimeout 500), Base Call_close, Call_recv 4 0]
      (machine \<lparr>socket_fd = 0\<rparr> net_start)))) = {#}"
proof -
  let ?s = "machine \<lparr>socket_fd = 0\<rparr> net_start :: (Socket, net) mach"
  let ?bc = "machine \<lparr>socket_fd = 0, bc_addr = inetaddr_zero\<rparr> net_start :: (SocketBC, net) mach"
  let ?r = "lifetime sample (SocketUDP_ctor sample) (run_udp sample)
      [Call_recv 4 0, Base (Call_settimeout 500), Base Call_close, Call_recv 4 0] ?s"
  have "fst ?r = Val ()"
    by (simp add: lifetime_def SocketUDP_ctor_def Socket_ctor_def makeSocket_def bnd_case on_throw_def
        set_fd_apply sys_Val ret_apply ignore_def SocketUDP_recv_eq settimeout_def get_fd_apply
        Socket_close_open Socket_close_closed Socket_dtor_def net_start_def take_datagram_def Let_def)
  then show ?thesis
    using no_descriptor_leaks [of sample ?s ?bc
        "[Call_recv 4 0, Base (Call_settimeout 500), Base Call_close, Call_recv 4 0]" "[]" 0 "[]"]
    by (simp add: Let_def)
qed

text \<open>
  C3: the descriptor's life cycle is an abstract machine with the states \<open>Open fd\<close> and \<open>Closed\<close>, and each
  member call of each socket refines one step of it: \<open>close\<close> and a run-time error lead to \<open>Closed\<close>,
  everything else - a refused port number, undefined behaviour included - stays. No call opens a
  descriptor, changes to another one or leaves \<open>Closed\<close>.
\<close>
theorem member_calls_refine_life_cycle:
  "life_of (self (snd (run_udp P c s))) =
     life_step (c = Base Call_close) (fst (run_udp P c s)) (life_of (self s)) \<and>
   life_of (self (snd (run_unix P d s))) =
     life_step (d = Base Call_close) (fst (run_unix P d s)) (life_of (self s)) \<and>
   life_of (self (snd (run_bc P e t))) =
     life_step (e = Udp (Base Call_close)) (fst (run_bc P e t)) (life_of (self t))"
proof -
  have udp: "life_of (self (snd (run_udp P c s))) =
      life_step (c = Base Call_close) (fst (run_udp P c s)) (life_of (self s))" for c and s
    by (cases c) (auto simp: base_refines intro!: life_step_refines closes_intros)
  moreover have "life_of (self (snd (run_unix P d s))) =
      life_step (d = Base Call_close) (fst (run_unix P d s)) (life_of (self s))"
    by (cases d) (auto simp: base_refines intro!: life_step_refines closes_intros)
  moreover have "life_of (self (snd (run_bc P e t))) =
      life_step (e = Udp (Base Call_close)) (fst (run_bc P e t)) (life_of (self t))"
    by (cases e) (auto simp: udp SocketBC_cast_def intro!: life_step_refines closes_intros)
  ultimately show ?thesis by blast
qed

section \<open>From one endpoint to another\<close>

text \<open>
  A packed struct survives the way through two UDP sockets. What \<open>pack\<close> gives is what the sender
  hands to the kernel; if the network delivers these bytes, \<open>recv\<close> and \<open>unpack\<close> give the value back. If
  only the first byte arrives, the receiver cannot tell: it gets the value with a zero field.
\<close>
lemma struct_through_udp:
  assumes "SocketUDP_sendto P (pack subscription_rep d) a 0 s = (Val num, t)"
    and "last (trace t) = (Sys_sendto fd sent 0 addr, num)"
    and "kernel Q (Sys_recvfrom (socket_fd (self u)) 2 0 False) (world u) = (r, w)"
    and "0 < k" and "r_data r = take k sent" and "r_ret r = int (length (r_data r))"
  shows "\<exists>m v. SocketUDP_recv Q 2 0 u = (Val m, v) \<and>
    unpack 2 subscription_val m =
      Val (Determinate \<lparr>topic = topic d, status = if k = 1 then 0 else status d\<rparr>)"
proof -
  have sent: "sent = [topic d, status d]"
    using assms(1,2) by (auto simp: SocketUDP_sendto_eq Let_def subscription_rep_def)
  have "r_data r = (if k = 1 then [topic d] else [topic d, status d])"
    using assms(4,5) sent by (cases k rule: nat.exhaust; cases "k - 1") auto
  then show ?thesis
    using assms(3,6)
    by (simp add: SocketUDP_recv_eq Let_def overwrite_def unpack_exact subscription_val_def eval_nat_numeral)
qed

lemma struct_through_udp_witness:
  "\<exists>m v. SocketUDP_recv sample 2 0
      (machine \<lparr>socket_fd = 4\<rparr> (net_start\<lparr>inbox := [([7, SUBSCRIBE], [])]\<rparr>)) = (Val m, v) \<and>
    unpack 2 subscription_val m = Val (Determinate \<lparr>topic = 7, status = SUBSCRIBE\<rparr>)"
proof -
  let ?s = "machine \<lparr>socket_fd = 3\<rparr> net_start :: (Socket, net) mach"
  let ?u = "machine \<lparr>socket_fd = 4\<rparr> (net_start\<lparr>inbox := [([7, SUBSCRIBE], [])]\<rparr>) :: (Socket, net) mach"
  let ?d = "\<lparr>topic = 7, status = SUBSCRIBE\<rparr>"
  have s: "SocketUDP_sendto sample (pack subscription_rep ?d) inetaddr_zero 0 ?s = (Val 2,
      snd (sys sample (Sys_sendto 3 [7, SUBSCRIBE] 0 (inet_bytes inetaddr_zero)) ?s))"
    by (simp add: SocketUDP_sendto_eq Let_def subscription_rep_def)
  have k: "kernel sample (Sys_recvfrom (socket_fd (self ?u)) 2 0 False) (world ?u) =
      (answer 2 [7, SUBSCRIBE] [] [], net_start)"
    by (simp add: take_datagram_def net_start_def)
  from struct_through_udp [OF s _ k, of 3 "[7, SUBSCRIBE]" "inet_bytes inetaddr_zero" 2]
  show ?thesis by simp
qed

text \<open>
  C16: publisher and subscriber meet: the bytes a subscriber binds to with an address text are the bytes
  every message of a publisher goes to that registered the same text.
\<close>
theorem publisher_reaches_bound_address:
  assumes "frame_intact P" and "sch = ''udp'' \<or> sch = ''tcp''" and "ip_text ip" and "n < 65536"
    and "text = sch @ ''://'' @ ip @ '':'' @ nat_digits n"
    and "Socket_bind P text s = (Val (), t)" and "inet_sockaddr P text = Val a"
    and "a \<in> set (clientaddrs (self u))"
  shows "\<exists>addr v. last (map fst (trace t)) = Sys_bind (socket_fd (self s)) addr \<and>
    PublisherUDP_publish P data u = (Val (), v) \<and>
    Sys_sendto (socket_fd (self u)) data 0 addr \<in> set (map fst (drop (length (trace u)) (trace v)))"
proof -
  have "int n \<le> INT_MAX" using assms(4) by (simp add: INT_MAX_def)
  from inet_sockaddr_host_port [OF assms(1-3) this] assms(5,7)
  have "inet_sockaddr P text = Val (inet_of (host_addr P ip) (of_nat n))"
    and a: "a = inet_of (host_addr P ip) (of_nat n)" by simp_all
  have search: "leftmost proto_at text = Some (sch, ip @ '':'' @ nat_digits n)"
    unfolding assms(5) by (rule inet_search [OF assms(2,3)])
  have "Socket_bind P text s =
      guard P (r_ret (fst (kernel P (Sys_bind (socket_fd (self s)) (inet_bytes a)) (world s))))
        ''Socket::bind() failed: '' (snd (sys P (Sys_bind (socket_fd (self s)) (inet_bytes a)) s))"
    unfolding Socket_bind_def by (rule setSocket_inet [OF search assms(2,7)]) simp
  with assms(6) have last: "last (map fst (trace t)) = Sys_bind (socket_fd (self s)) (inet_bytes a)"
    by (simp add: guard_Val_iff)
  obtain nums v where v: "PublisherUDP_publish P data u = (Val (), v)"
    "length nums = length (clientaddrs (self u))" "trace v = trace u @
      map (\<lambda>(a, num). (Sys_sendto (socket_fd (self u)) data 0 (inet_bytes a), num))
        (zip (clientaddrs (self u)) nums)"
    using pub_udp.publish_all [of P data u] unfolding PublisherUDP_publish_def by auto
  have "map fst (drop (length (trace u)) (trace v)) =
      map (\<lambda>a. Sys_sendto (socket_fd (self u)) data 0 (inet_bytes a)) (clientaddrs (self u))"
    using map_fst_zip_with [OF v(2)] v(3) by simp
  with assms(8) have "Sys_sendto (socket_fd (self u)) data 0 (inet_bytes a) \<in>
      set (map fst (drop (length (trace u)) (trace v)))"
    by (simp only: set_map image_eqI)
  with last v(1) show ?thesis by blast
qed

theorem publisher_reaches_bound_address_witness:
  "\<exists>addr v. PublisherUDP_publish sample [5]
      (machine \<lparr>socket_fd = 4, clientaddrs = [inet_of 0x0100007F 9000]\<rparr> net_start) = (Val (), v) \<and>
    Sys_sendto 4 [5] 0 addr \<in> set (map fst (trace v))"
proof -
  let ?s = "machine \<lparr>socket_fd = 3\<rparr> net_start :: (Socket, net) mach"
  let ?u = "machine \<lparr>socket_fd = 4, clientaddrs = [inet_of 0x0100007F 9000]\<rparr> net_start"
  have d: "nat_digits 9000 = ''9000''" by (simp add: nat_digits.simps digit_char_eqs)
  have ip: "ip_text ''127.0.0.1''"
    by (simp add: ip_text_def in_class_def ip_class_def is_digit_def)
  have a: "inet_sockaddr sample ''udp://127.0.0.1:9000'' = Val (inet_of 0x0100007F 9000)"
    using loopback_address [OF sample_intact(1)] by (simp add: sample_inet_addr_def)
  have "leftmost proto_at ''udp://127.0.0.1:9000'' = Some (''udp'', ''127.0.0.1:9000'')" by code_simp
  from setSocket_inet [OF this _ a, of BIND _ ?s]
  have b: "Socket_bind sample ''udp://127.0.0.1:9000'' ?s =
      (Val (), snd (sys sample (Sys_bind 3 (inet_bytes (inet_of 0x0100007F 9000))) ?s))"
    by (simp add: Socket_bind_def ret_apply)
  from publisher_reaches_bound_address [OF sample_intact(1) _ ip _ _ b a, of "''udp''" 9000 ?u "[5]"]
  show ?thesis by (auto simp: d)
qed

text \<open>
  C17: the broadcast demonstration. A server that could build its socket sends the packed subscription
  five times to 255.255.255.255:11311, prints each, and closes its socket; a client that gets these bytes
  prints \<open>69 170\<close>, and one that gets nothing uses a struct that was never written.
\<close>
theorem broadcast_demo:
  assumes "frame_intact P" and "SocketBC_ctor P BC_PORT s = (Val (), s1)"
  shows "(\<exists>t. bc_server P s = (Val (), t) \<and> socket_fd (self t) = - 1 \<and>
      cout t = cout s1 @ replicate 5 ''cast: [69,170,]'' \<and>
      map fst (trace t) = map fst (trace s1) @
        replicate 5 (Sys_sendto (socket_fd (self s1)) [69, 170] 0
          ([2, 0] @ rev (le16 11311) @ [255, 255, 255, 255] @ replicate 8 0)) @
        [Sys_close (socket_fd (self s1))]) \<and>
    (SocketUDP_recv Q 2 0 u = (Val [69, 170], v) \<longrightarrow>
      bc_client_turn Q 2 u = (Val (), v\<lparr>cout := cout v @ [''69 170'']\<rparr>)) \<and>
    (SocketUDP_recv Q 2 0 u = (Val [], v) \<longrightarrow> bc_client_turn Q 2 u = (Undef Indeterminate_value, v))"
proof (intro conjI impI)
  let ?m = "[69, 170] :: message_t"
  have d: "nat_digits 69 = ''69''" "nat_digits 170 = ''170''"
    by (simp_all add: nat_digits.simps digit_char_eqs)
  have sub: "pack subscription_rep \<lparr>topic = 69, status = SUBSCRIBE\<rparr> = ?m"
    by (simp add: subscription_rep_def SUBSCRIBE_def)
  have line: "''cast: '' @ msg2string ?m = ''cast: [69,170,]''"
    by (simp add: msg2string_concat d)
  have built: "0 \<le> socket_fd (self s1)" "bc_addr (self s1) = inet_of INADDR_BROADCAST BC_PORT"
    using SocketBC_ctor_built [OF assms] by simp_all
  have bytes: "inet_bytes (bc_addr (self s1)) =
      [2, 0] @ rev (le16 11311) @ [255, 255, 255, 255] @ replicate 8 0"
    by (simp add: built(2) bc_bytes BC_PORT_def le16_def AF_INET_def)
  obtain nums t where t: "for_each [0..<BC_LOOP] (\<lambda>i. bnd (SocketBC_cast P ?m) (\<lambda>_. print ''cast: [69,170,]'')) s1 =
      (Val (), t)" "self t = self s1" "length nums = 5"
    "cout t = cout s1 @ replicate 5 ''cast: [69,170,]''"
    "trace t = trace s1 @ map (\<lambda>num. (Sys_sendto (socket_fd (self s1)) ?m 0
        (inet_bytes (bc_addr (self s1))), num)) nums"
    using server_loop [of "[0..<BC_LOOP]" P ?m "''cast: [69,170,]''" s1] by (auto simp: BC_LOOP_def)
  have "bc_server P s = (Val (), snd (Socket_close P t))"
    unfolding bc_server_def Let_def sub line by (rule scoped_Val, rule assms(2), rule t(1))
  moreover have "map fst (trace (snd (Socket_close P t))) = map fst (trace s1) @
      replicate 5 (Sys_sendto (socket_fd (self s1)) ?m 0 (inet_bytes (bc_addr (self s1)))) @
      [Sys_close (socket_fd (self s1))]"
    using built(1) t(2,3) by (simp add: calls_close t(5) comp_def map_replicate_const)
  moreover have "cout (snd (Socket_close P t)) = cout t"
    by (cases "socket_fd (self t) = - 1") (simp_all add: Socket_close_closed Socket_close_open sys_Val)
  ultimately show "\<exists>t. bc_server P s = (Val (), t) \<and> socket_fd (self t) = - 1 \<and>
      cout t = cout s1 @ replicate 5 ''cast: [69,170,]'' \<and>
      map fst (trace t) = map fst (trace s1) @
        replicate 5 (Sys_sendto (socket_fd (self s1)) [69, 170] 0
          ([2, 0] @ rev (le16 11311) @ [255, 255, 255, 255] @ replicate 8 0)) @
        [Sys_close (socket_fd (self s1))]"
    using t(4) unfolding bytes by (intro exI [of _ "snd (Socket_close P t)"]) (simp only: Socket_close_fd simp_thms)
  show "bc_client_turn Q 2 u = (Val (), v\<lparr>cout := cout v @ [''69 170'']\<rparr>)"
    if "SocketUDP_recv Q 2 0 u = (Val [69, 170], v)"
    using client_turn_received [OF that] by (simp add: d)
  show "bc_client_turn Q 2 u = (Undef Indeterminate_value, v)"
    if "SocketUDP_recv Q 2 0 u = (Val [], v)"
    by (rule client_turn_timeout [OF that])
qed

theorem broadcast_demo_witness:
  "\<exists>t. bc_server sample (machine \<lparr>socket_fd = 0, bc_addr = inetaddr_zero\<rparr> net_start) = (Val (), t) \<and>
    socket_fd (self t) = - 1 \<and> last (map fst (trace t)) = Sys_close 3"
proof -
  let ?s = "machine (\<lparr>socket_fd = 0, bc_addr = inetaddr_zero\<rparr>) net_start :: (SocketBC, net) mach"
  have "fst (SocketBC_ctor sample BC_PORT ?s) = Val () \<and>
      socket_fd (self (snd (SocketBC_ctor sample BC_PORT ?s))) = 3 \<and>
      map fst (trace (snd (SocketBC_ctor sample BC_PORT ?s))) =
        [Sys_socket 2 2 0, Sys_setsockopt 3 1 6 (Opt_int 1), Sys_setsockopt 3 0 34 (Opt_int 1)]"
    using sample_bc_ctor [of BC_PORT] by (simp add: Let_def)
  then obtain t where t: "SocketBC_ctor sample BC_PORT ?s = (Val (), t)" "socket_fd (self t) = 3"
    "map fst (trace t) =
        [Sys_socket 2 2 0, Sys_setsockopt 3 1 6 (Opt_int 1), Sys_setsockopt 3 0 34 (Opt_int 1)]"
    by (metis prod.collapse)
  from broadcast_demo [OF sample_intact(1) t(1), of sample ?s ?s]
  obtain u where "bc_server sample ?s = (Val (), u)" "socket_fd (self u) = - 1"
    "map fst (trace u) = (map fst (trace t) @ replicate 5 (Sys_sendto (socket_fd (self t)) [69, 170] 0
      ([2, 0] @ rev (le16 11311) @ [255, 255, 255, 255] @ replicate 8 0))) @ [Sys_close (socket_fd (self t))]"
    unfolding append_assoc by blast
  then show ?thesis by (intro exI [of _ u]) (simp only: t(2) last_snoc simp_thms)
qed

end
